(* ===== verification/Prelude.thy ===== *)
theory Prelude
  imports Complex_Main "HOL-Library.Word" "HOL-Library.AList"
    "HOL-Library.Multiset"
    "HOL-Library.List_Lexorder" "HOL-Library.Char_ord"
begin

text \<open>
  Shared vocabulary of the development: instants, 64-bit signed arithmetic, decimal amounts and
  their storage in \<open>numeric(20,10)\<close> columns, the byte-string helpers of package \<open>strings\<close> that the
  gateway uses, association lists standing for Go maps, and the generic list lemmas the component
  theories share. Nothing here models a function of the gateway itself.
\<close>

named_theorems store_simps \<open>unfolding equations of the budget store's operations\<close>
named_theorems price_simps \<open>unfolding equations of the price table's operations\<close>
named_theorems pump_simps \<open>unfolding equations of the stream pump\<close>

subsection \<open>Instants\<close>

text \<open>
  An instant is a number of nanoseconds since 1970-01-01T00:00:00Z. Go's zero \<open>time.Time\<close> is
  0001-01-01T00:00:00Z; \<open>IsZero\<close> compares with it, \<open>Before\<close> and \<open>After\<close> are the strict orders.
\<close>

type_synonym time = int
type_synonym duration = int

definition zero_time :: time where
  "zero_time = -62135596800000000000"

abbreviation is_zero :: "time \<Rightarrow> bool" where
  "is_zero t \<equiv> t = zero_time"

definition second :: duration where "second = 1000000000"
definition millisecond :: duration where "millisecond = 1000000"

subsection \<open>Signed 64-bit integers\<close>

text \<open>
  Go's \<open>int64\<close> and, on the platforms the gateway is built for, \<open>int\<close>. Values are kept as
  \<^typ>\<open>int\<close> and every arithmetic operation that may leave the range is wrapped by \<open>i64\<close>.
\<close>

definition i64 :: "int \<Rightarrow> int" where
  "i64 x = (x + 9223372036854775808) mod 18446744073709551616 - 9223372036854775808"

definition max_i64 :: int where "max_i64 = 9223372036854775807"
definition min_i64 :: int where "min_i64 = -9223372036854775808"

abbreviation in_i64 :: "int \<Rightarrow> bool" where
  "in_i64 x \<equiv> min_i64 \<le> x \<and> x \<le> max_i64"

lemma i64_id: "in_i64 x \<Longrightarrow> i64 x = x"
  by (simp add: i64_def min_i64_def max_i64_def)

lemma i64_range: "in_i64 (i64 x)"
proof -
  have "0 \<le> (x + 9223372036854775808) mod 18446744073709551616"
    and "(x + 9223372036854775808) mod 18446744073709551616 < 18446744073709551616"
    by simp_all
  then show ?thesis by (simp add: i64_def min_i64_def max_i64_def)
qed

lemma i64_add_left: "i64 (i64 x + y) = i64 (x + y)"
proof -
  have "(i64 x + y + 9223372036854775808) mod 18446744073709551616
      = ((x + 9223372036854775808) mod 18446744073709551616 + y) mod 18446744073709551616"
    by (simp add: i64_def)
  also have "\<dots> = (x + y + 9223372036854775808) mod 18446744073709551616"
    by (subst mod_add_left_eq) (simp add: ac_simps)
  finally show ?thesis by (simp add: i64_def)
qed

lemma i64_add_right: "i64 (x + i64 y) = i64 (x + y)"
  using i64_add_left [of y x] by (simp add: add.commute)

text \<open>Division of Go integers truncates towards zero.\<close>

definition go_quot :: "int \<Rightarrow> int \<Rightarrow> int" where
  "go_quot a b = sgn a * sgn b * (\<bar>a\<bar> div \<bar>b\<bar>)"

text \<open>The wrap-around is the one of a signed machine word.\<close>

lemma i64_sint: "i64 x = sint (word_of_int x :: 64 word)"
proof -
  have "sint (word_of_int x :: 64 word) = signed_take_bit 63 x"
    by (simp add: sint_uint unsigned_of_int signed_take_bit_take_bit)
  also have "\<dots> = take_bit 64 (x + 2 ^ 63) - 2 ^ 63"
    by (simp add: signed_take_bit_eq_take_bit_shift)
  also have "\<dots> = i64 x"
    by (simp add: i64_def take_bit_eq_mod)
  finally show ?thesis by simp
qed

subsection \<open>Decimal amounts\<close>

text \<open>
  A \<open>decimal.Decimal\<close> is represented by the rational number it denotes. Its addition,
  subtraction, multiplication and comparison are exact on that value; its division is not and is a
  parameter wherever the source divides (see the locale \<open>decimal_division\<close> of the pricing theory).

  A column of type \<open>numeric(20,10)\<close> holds a multiple of \<open>10^-10\<close> of absolute value below \<open>10^10\<close>.
  It is kept as the integer number of units; a stored value is rounded half away from zero, and one
  that does not fit is a numeric-overflow error of the statement.
\<close>

type_synonym decimal = rat
type_synonym num10 = int

definition round_half_away :: "rat \<Rightarrow> int" where
  "round_half_away x = (if 0 \<le> x then \<lfloor>x + 1 / 2\<rfloor> else - \<lfloor>- x + 1 / 2\<rfloor>)"

definition num10 :: "decimal \<Rightarrow> num10" where
  "num10 x = round_half_away (x * 10000000000)"

definition dec10 :: "num10 \<Rightarrow> decimal" where
  "dec10 n = of_int n / 10000000000"

definition fits10 :: "num10 \<Rightarrow> bool" where
  "fits10 n \<longleftrightarrow> \<bar>n\<bar> < 100000000000000000000"

lemma round_half_away_of_int [simp]: "round_half_away (of_int n) = n"
proof (cases "0 \<le> n")
  case True
  have "\<lfloor>(of_int n :: rat) + 1 / 2\<rfloor> = n" by (rule floor_unique) simp_all
  with True show ?thesis by (simp add: round_half_away_def)
next
  case False
  have "\<lfloor>(of_int (- n) :: rat) + 1 / 2\<rfloor> = - n" by (rule floor_unique) simp_all
  with False show ?thesis by (simp add: round_half_away_def)
qed

lemma num10_dec10 [simp]: "num10 (dec10 n) = n"
  by (simp add: num10_def dec10_def)

lemma num10_0 [simp]: "num10 0 = 0"
  using num10_dec10 [of 0] by (simp add: dec10_def)

lemma round_half_away_mono: "x \<le> y \<Longrightarrow> round_half_away x \<le> round_half_away y"
proof -
  assume le: "x \<le> y"
  consider "0 \<le> x" | "x < 0" "0 \<le> y" | "x < 0" "y < 0" by linarith
  then show ?thesis
  proof cases
    case 1
    then show ?thesis using le by (simp add: round_half_away_def floor_mono)
  next
    case 2
    then have "0 \<le> \<lfloor>y + 1 / 2\<rfloor>" "0 \<le> \<lfloor>- x + 1 / 2\<rfloor>" by simp_all
    then have "- \<lfloor>- x + 1 / 2\<rfloor> \<le> \<lfloor>y + 1 / 2\<rfloor>" by linarith
    with 2 show ?thesis by (simp only: round_half_away_def if_True if_False not_le [symmetric])
  next
    case 3
    then have "\<lfloor>- y + 1 / 2\<rfloor> \<le> \<lfloor>- x + 1 / 2\<rfloor>" using le by (intro floor_mono) simp
    with 3 show ?thesis by (simp add: round_half_away_def)
  qed
qed

lemma num10_mono: "x \<le> y \<Longrightarrow> num10 x \<le> num10 y"
  by (simp add: num10_def round_half_away_mono mult_right_mono)

lemma num10_nonneg: "0 \<le> x \<Longrightarrow> 0 \<le> num10 x"
  using num10_mono [of 0 x] by simp

lemma dec10_mono [simp]: "dec10 m \<le> dec10 n \<longleftrightarrow> m \<le> n"
  by (simp add: dec10_def divide_le_cancel)

lemma dec10_add: "dec10 (m + n) = dec10 m + dec10 n"
  by (simp add: dec10_def add_divide_distrib)

text \<open>
  Rounding a sum of a stored value and an amount is adding the rounded amount: the balance column
  and the reservation row round the same way. The law is stated for non-negative amounts on a
  non-negative balance, which is what the constraints of the schema leave.
\<close>

lemma num10_add_stored:
  assumes "0 \<le> n" and "0 \<le> x"
  shows "num10 (dec10 n + x) = n + num10 x"
proof -
  have eq: "(dec10 n + x) * 10000000000 = of_int n + x * 10000000000"
    by (simp add: dec10_def algebra_simps)
  have nonneg: "0 \<le> of_int n + x * 10000000000" using assms by simp
  have "\<lfloor>of_int n + x * 10000000000 + 1 / 2\<rfloor> = n + \<lfloor>x * 10000000000 + 1 / 2\<rfloor>"
    by (simp add: add.assoc)
  then have "round_half_away (of_int n + x * 10000000000)
      = n + round_half_away (x * 10000000000)"
    using assms nonneg by (simp add: round_half_away_def)
  then show ?thesis by (simp only: num10_def eq)
qed

lemma num10_add_stored':
  assumes "0 \<le> n" and "0 \<le> num10 x"
  shows "num10 (dec10 n + x) = n + num10 x"
proof (cases "0 \<le> x")
  case False
  let ?y = "x * 10000000000"
  have neg: "?y < 0" using False by simp
  then have "- \<lfloor>- ?y + 1 / 2\<rfloor> = num10 x" by (simp add: num10_def round_half_away_def)
  with assms(2) have "\<lfloor>- ?y + 1 / 2\<rfloor> \<le> 0" by linarith
  then have lo: "- (1 / 2) < ?y" by linarith
  with neg have z: "num10 x = 0" using \<open>- \<lfloor>- ?y + 1 / 2\<rfloor> = num10 x\<close> by linarith
  show ?thesis
  proof (cases "n = 0")
    case True
    then show ?thesis by (simp add: dec10_def)
  next
    case False
    with assms(1) have "(1 :: rat) \<le> of_int n" by simp
    then have "0 \<le> of_int n + ?y" and "\<lfloor>of_int n + ?y + 1 / 2\<rfloor> = n" using lo neg by linarith+
    moreover have "(dec10 n + x) * 10000000000 = of_int n + ?y"
      by (simp add: dec10_def algebra_simps)
    ultimately have "num10 (dec10 n + x) = n" by (simp only: num10_def round_half_away_def if_True)
    with z show ?thesis by simp
  qed
qed (use assms(1) num10_add_stored in simp)

lemma dec10_diff: "dec10 m - dec10 n = dec10 (m - n)"
  by (simp add: dec10_def diff_divide_distrib)

lemma dec10_0 [simp]: "dec10 0 = 0"
  by (simp add: dec10_def)

text \<open>An amount within a stored bound is still within it after rounding.\<close>

lemma num10_le_stored: "x \<le> dec10 l \<Longrightarrow> num10 x \<le> l"
  using num10_mono [of x "dec10 l"] by simp


subsection \<open>Byte strings\<close>

text \<open>
  Go strings and byte slices are byte sequences, as HOL's \<^typ>\<open>string\<close> is. The helpers below are the
  functions of packages \<open>strings\<close> and \<open>bytes\<close> that the gateway calls.
\<close>

definition has_prefix :: "string \<Rightarrow> string \<Rightarrow> bool" where
  "has_prefix p s \<longleftrightarrow> take (length p) s = p"

definition trim_prefix :: "string \<Rightarrow> string \<Rightarrow> string" where
  "trim_prefix p s = (if has_prefix p s then drop (length p) s else s)"

definition trim_suffix :: "string \<Rightarrow> string \<Rightarrow> string" where
  "trim_suffix p s = (if has_prefix (rev p) (rev s) then take (length s - length p) s else s)"

text \<open>\<open>strings.Cut(s, sep)\<close>: the text before and after the first occurrence of a separator.\<close>

fun cut :: "string \<Rightarrow> string \<Rightarrow> (string \<times> string) option" where
  "cut sep [] = (if sep = [] then Some ([], []) else None)"
| "cut sep (c # s) =
     (if has_prefix sep (c # s) then Some ([], drop (length sep) (c # s))
      else map_option (\<lambda>(a, b). (c # a, b)) (cut sep s))"

text \<open>The UTF-8 encodings of the code points \<open>unicode.IsSpace\<close> accepts.\<close>

definition go_spaces :: "string list" where
  "go_spaces = map (map char_of)
     ([[9], [10], [11], [12], [13], [32], [0xC2, 0x85], [0xC2, 0xA0], [0xE1, 0x9A, 0x80],
       [0xE2, 0x80, 0xA8], [0xE2, 0x80, 0xA9], [0xE2, 0x80, 0xAF], [0xE2, 0x81, 0x9F],
       [0xE3, 0x80, 0x80]] @ map (\<lambda>b. [0xE2, 0x80, b]) [0x80..<0x8B] :: nat list list)"

fun drop_spaces :: "string list \<Rightarrow> string \<Rightarrow> string" where
  "drop_spaces sps [] = []"
| "drop_spaces sps (c # s) =
     (case find (\<lambda>sp. has_prefix sp (c # s)) sps of
        None \<Rightarrow> c # s
      | Some sp \<Rightarrow> drop_spaces sps (drop (length sp - 1) s))"

text \<open>\<open>strings.TrimSpace\<close> and \<open>bytes.TrimSpace\<close>.\<close>

definition trim_space :: "string \<Rightarrow> string" where
  "trim_space s = rev (drop_spaces (map rev go_spaces) (rev (drop_spaces go_spaces s)))"

text \<open>A string that begins and ends with a printing ASCII character is left alone.\<close>

definition plain_char :: "char \<Rightarrow> bool" where
  "plain_char c \<longleftrightarrow> 32 < (of_char c :: nat) \<and> (of_char c :: nat) < 128"

lemma go_spaces_plain: "list_all (\<lambda>sp. sp \<noteq> [] \<and> \<not> plain_char (hd sp) \<and> \<not> plain_char (last sp)) go_spaces"
  by (simp add: go_spaces_def plain_char_def)

lemma drop_spaces_plain:
  assumes "\<And>sp. sp \<in> set sps \<Longrightarrow> sp \<noteq> [] \<and> \<not> plain_char (hd sp)" "plain_char c"
  shows "drop_spaces sps (c # s) = c # s"
proof -
  have "\<not> has_prefix sp (c # s)" if "sp \<in> set sps" for sp
    using assms(1) [OF that] assms(2) by (cases sp) (auto simp: has_prefix_def)
  then have "find (\<lambda>sp. has_prefix sp (c # s)) sps = None" by (simp add: find_None_iff)
  then show ?thesis by simp
qed

lemma trim_space_plain:
  assumes "s \<noteq> []" "plain_char (hd s)" "plain_char (last s)"
  shows "trim_space s = s"
proof -
  have "drop_spaces go_spaces s = s"
    using assms go_spaces_plain drop_spaces_plain [of go_spaces "hd s" "tl s"] by (auto simp: list_all_iff)
  moreover have "rev s = last s # rev (butlast s)"
    using assms(1) by (metis append_butlast_last_id rev_eq_Cons_iff rev_rev_ident)
  moreover have "drop_spaces (map rev go_spaces) (last s # rev (butlast s)) = last s # rev (butlast s)"
    using assms(3) go_spaces_plain by (intro drop_spaces_plain) (auto simp: list_all_iff hd_rev)
  moreover have "rev (last s # rev (butlast s)) = s" using assms(1) by simp
  ultimately show ?thesis by (simp only: trim_space_def)
qed

text \<open>The decimal digits of a number, the last first.\<close>

fun digits_rev :: "nat \<Rightarrow> string" where
  "digits_rev n = (if n = 0 then [] else char_of (48 + n mod 10) # digits_rev (n div 10))"

declare digits_rev.simps [simp del]

definition lower_char :: "char \<Rightarrow> char" where
  "lower_char c = (if CHR ''A'' \<le> c \<and> c \<le> CHR ''Z'' then char_of (of_char c + 32 :: nat) else c)"

definition to_lower :: "string \<Rightarrow> string" where
  "to_lower s = map lower_char s"

lemma has_prefix_append [simp]: "has_prefix p (p @ s)"
  by (simp add: has_prefix_def)

lemma has_prefix_decomp: "has_prefix p s \<Longrightarrow> s = p @ drop (length p) s"
  unfolding has_prefix_def by (metis append_take_drop_id)

lemma cut_Some: "cut sep s = Some (a, b) \<Longrightarrow> s = a @ sep @ b"
proof (induction sep s arbitrary: a b rule: cut.induct)
  case (1 sep)
  then show ?case by (simp split: if_splits)
next
  case (2 sep c s)
  show ?case
  proof (cases "has_prefix sep (c # s)")
    case True
    with "2.prems" show ?thesis using has_prefix_decomp [OF True] by simp
  next
    case False
    with "2.prems" obtain a' where "cut sep s = Some (a', b)" and "a = c # a'" by auto
    with "2.IH" False show ?thesis by simp
  qed
qed

lemma cut_char_None: "cut [x] s = None \<longleftrightarrow> x \<notin> set s"
  by (induction s) (auto simp: has_prefix_def)

lemma cut_char_append: "x \<notin> set a \<Longrightarrow> cut [x] (a @ x # b) = Some (a, b)"
  by (induction a) (auto simp: has_prefix_def)

subsection \<open>Go maps as association lists\<close>

text \<open>
  A Go map is an association list with distinct keys; a write is \<^const>\<open>AList.update\<close>, a read of an
  absent key yields the zero value. The order of the list stands for the unspecified iteration order.
\<close>

definition map_get :: "'v \<Rightarrow> ('k \<times> 'v) list \<Rightarrow> 'k \<Rightarrow> 'v" where
  "map_get z m k = (case map_of m k of None \<Rightarrow> z | Some v \<Rightarrow> v)"

abbreviation go_map :: "('k \<times> 'v) list \<Rightarrow> bool" where
  "go_map m \<equiv> distinct (map fst m)"

lemma map_get_Nil [simp]: "map_get z [] k = z"
  by (simp add: map_get_def)

lemma map_get_update [simp]:
  "map_get z (AList.update k v m) k' = (if k' = k then v else map_get z m k')"
  by (simp add: map_get_def update_conv')

lemma go_map_update [simp]: "go_map m \<Longrightarrow> go_map (AList.update k v m)"
  by (rule distinct_update)

lemma map_get_mem: "go_map m \<Longrightarrow> (k, v) \<in> set m \<Longrightarrow> map_get z m k = v"
  by (simp add: map_get_def)

lemma map_get_not_mem: "k \<notin> fst ` set m \<Longrightarrow> map_get z m k = z"
  by (simp add: map_get_def map_of_eq_None_iff [THEN iffD2])

text \<open>A sum over the keys of a map is a sum over its entries.\<close>

lemma sum_list_keys:
  "go_map m \<Longrightarrow> (\<Sum>k\<leftarrow>map fst m. f k (map_get z m k)) = (\<Sum>(k, v)\<leftarrow>m. f k v)"
proof -
  assume dm: "go_map m"
  then have "map (\<lambda>p. f (fst p) (map_get z m (fst p))) m = map (\<lambda>p. f (fst p) (snd p)) m"
    by (intro map_cong) (auto simp: map_get_mem)
  then show ?thesis by (simp only: map_map o_def case_prod_beta')
qed

lemma sum_list_sort: "(\<Sum>x\<leftarrow>sort xs. f x) = (\<Sum>x\<leftarrow>xs. f x :: 'a :: comm_monoid_add)"
proof -
  have "mset (map f (sort xs)) = mset (map f xs)" by simp
  then show ?thesis by (metis sum_mset_sum_list)
qed

subsection \<open>Sums over updated tables\<close>

text \<open>
  A table is a list of rows and a SQL \<open>UPDATE ... WHERE P\<close> is a \<^const>\<open>map\<close> that rewrites the rows
  satisfying \<open>P\<close>. The sum of a column afterwards is the old sum plus the changes of those rows.
\<close>

definition update_where :: "('r \<Rightarrow> bool) \<Rightarrow> ('r \<Rightarrow> 'r) \<Rightarrow> 'r list \<Rightarrow> 'r list" where
  "update_where P f rs = map (\<lambda>r. if P r then f r else r) rs"

lemma update_where_sum:
  fixes g :: "'r \<Rightarrow> int"
  shows "(\<Sum>r\<leftarrow>update_where P f rs. g r)
       = (\<Sum>r\<leftarrow>rs. g r) + (\<Sum>r\<leftarrow>filter P rs. g (f r) - g r)"
  by (induction rs) (auto simp: update_where_def)

lemma update_where_none: "\<forall>r \<in> set rs. \<not> P r \<Longrightarrow> update_where P f rs = rs"
  by (simp add: update_where_def map_idI)

lemma set_update_where: "set (update_where P f rs) = (\<lambda>r. if P r then f r else r) ` set rs"
  by (simp add: update_where_def)

lemma update_where_ids:
  "(\<And>r. key (f r) = key r) \<Longrightarrow> map key (update_where P f rs) = map key rs"
  by (simp add: update_where_def)

lemma length_update_where [simp]: "length (update_where P f rs) = length rs"
  by (simp add: update_where_def)

text \<open>With a primary key, the rows an equality selects are at most one.\<close>

lemma filter_key_unique:
  "distinct (map key rs) \<Longrightarrow> r \<in> set rs \<Longrightarrow> filter (\<lambda>x. key x = key r) rs = [r]"
proof (induction rs)
  case Nil
  then show ?case by simp
next
  case (Cons a rs)
  show ?case
  proof (cases "key a = key r")
    case True
    with Cons.prems have "a = r" by (auto simp: image_iff)
    moreover have "filter (\<lambda>x. key x = key a) rs = []"
      using Cons.prems by (auto simp: filter_empty_conv image_iff)
    ultimately show ?thesis by simp
  next
    case False
    with Cons show ?thesis by auto
  qed
qed

lemma key_inject: "distinct (map key rs) \<Longrightarrow> r \<in> set rs \<Longrightarrow> s \<in> set rs \<Longrightarrow> key r = key s \<Longrightarrow> r = s"
  by (metis distinct_map inj_onD)

lemma find_SomeD: "find P xs = Some x \<Longrightarrow> x \<in> set xs \<and> P x"
  by (auto simp: find_Some_iff)

subsection \<open>Interfaces used by several components\<close>

text \<open>
  \<open>exclusive_cover\<close>: a list of entries of which no two clash has at most one entry that covers any
  admissible point, so the first match is the only one. The price rows and the model aliases both
  promise this after validation.
\<close>

locale exclusive_cover =
  fixes covers :: "'a \<Rightarrow> 'p \<Rightarrow> bool"
    and clash :: "'a \<Rightarrow> 'a \<Rightarrow> bool"
    and ok :: "'p \<Rightarrow> bool"
  assumes both_cover: "ok p \<Longrightarrow> covers a p \<Longrightarrow> covers b p \<Longrightarrow> clash a b"
begin

lemma cover_unique_index:
  assumes "sorted_wrt (\<lambda>x y. \<not> clash x y) xs" and "ok p"
    and "i < length xs" "j < length xs" "covers (xs ! i) p" "covers (xs ! j) p"
  shows "i = j"
proof (rule ccontr)
  assume "i \<noteq> j"
  then consider "i < j" | "j < i" by linarith
  then show False
    using assms both_cover sorted_wrt_nth_less [OF assms(1)] by cases blast+
qed

lemma find_covering:
  assumes nc: "sorted_wrt (\<lambda>x y. \<not> clash x y) xs" and ok: "ok p"
    and r: "r \<in> set xs" "covers r p"
  shows "find (\<lambda>x. covers x p) xs = Some r"
proof -
  from r have "\<exists>x \<in> set xs. covers x p" by blast
  then obtain r' where f: "find (\<lambda>x. covers x p) xs = Some r'"
    by (metis find_None_iff not_None_eq)
  then have "r' \<in> set xs" "covers r' p" by (auto dest: find_SomeD)
  with r obtain i j where "i < length xs" "xs ! i = r" "j < length xs" "xs ! j = r'"
    by (metis in_set_conv_nth)
  with cover_unique_index [OF nc ok] r \<open>covers r' p\<close> f show ?thesis by metis
qed

end

text \<open>
  \<open>guarded_system\<close>: a state machine with an invariant that its initial states satisfy and its steps
  keep, so every reachable state satisfies it.
\<close>

locale guarded_system =
  fixes initial :: "'s \<Rightarrow> bool"
    and step :: "'s \<Rightarrow> 's \<Rightarrow> bool"
    and inv :: "'s \<Rightarrow> bool"
  assumes inv_initial: "initial s \<Longrightarrow> inv s"
    and inv_step: "inv s \<Longrightarrow> step s t \<Longrightarrow> inv t"
begin

lemma inv_steps: "step\<^sup>*\<^sup>* s t \<Longrightarrow> inv s \<Longrightarrow> inv t"
  by (induction rule: rtranclp_induct) (auto intro: inv_step)

lemma inv_reachable: "initial s \<Longrightarrow> step\<^sup>*\<^sup>* s t \<Longrightarrow> inv t"
  by (blast intro: inv_steps inv_initial)

end

end
