(* ===== verification/Price_Table.thy ===== *)
theory Price_Table
  imports Prelude
begin

text \<open>
  Package \<open>pricing\<close>, files \<open>kinds.go\<close> and \<open>table.go\<close>: billing classes, service tiers, published rates
  and aliases, the validation that builds a table, alias resolution and the cost of a request.

  The lemmas show that validation leaves at most one rate for any billing class, tier, instant and
  context size (so the order of the rows never matters), that the table keeps every row it was given,
  and that the cost of a priced request is the exact sum of count times rate.
\<close>

subsection \<open>Billing classes and service tiers (kinds.go)\<close>

type_synonym kind = string
type_synonym tier = string

definition KindInput :: kind where "KindInput = ''input''"
definition KindOutput :: kind where "KindOutput = ''output''"
definition KindCachedRead :: kind where "KindCachedRead = ''cached_read''"
definition KindCacheWrite5m :: kind where "KindCacheWrite5m = ''cache_write_5m''"
definition KindCacheWrite1h :: kind where "KindCacheWrite1h = ''cache_write_1h''"
definition KindReasoning :: kind where "KindReasoning = ''reasoning''"
definition KindAudioInput :: kind where "KindAudioInput = ''audio_input''"
definition KindAudioOutput :: kind where "KindAudioOutput = ''audio_output''"

lemmas kind_defs = KindInput_def KindOutput_def KindCachedRead_def KindCacheWrite5m_def
  KindCacheWrite1h_def KindReasoning_def KindAudioInput_def KindAudioOutput_def

definition AllKinds :: "kind list" where
  "AllKinds = [KindInput, KindOutput, KindCachedRead, KindCacheWrite5m, KindCacheWrite1h,
     KindReasoning, KindAudioInput, KindAudioOutput]"

definition Kind_Valid :: "kind \<Rightarrow> bool" where
  "Kind_Valid k = list_ex (\<lambda>known. k = known) AllKinds"

definition TierStandard :: tier where "TierStandard = ''standard''"
definition TierFlex :: tier where "TierFlex = ''flex''"
definition TierPriority :: tier where "TierPriority = ''priority''"
definition TierFast :: tier where "TierFast = ''fast''"
definition TierBatch :: tier where "TierBatch = ''batch''"
definition TierGeoUS :: tier where "TierGeoUS = ''geo_us''"

lemmas tier_defs = TierStandard_def TierFlex_def TierPriority_def TierFast_def TierBatch_def
  TierGeoUS_def

definition AllTiers :: "tier list" where
  "AllTiers = [TierStandard, TierFlex, TierPriority, TierFast, TierBatch, TierGeoUS]"

definition Tier_Valid :: "tier \<Rightarrow> bool" where
  "Tier_Valid t = list_ex (\<lambda>known. t = known) AllTiers"

definition Billable :: "kind \<Rightarrow> bool" where
  "Billable k = (if k = KindReasoning then False else True)"

definition CountsTowardInputTier :: "kind \<Rightarrow> bool" where
  "CountsTowardInputTier k =
     (if k = KindInput \<or> k = KindCachedRead \<or> k = KindCacheWrite5m \<or> k = KindCacheWrite1h
         \<or> k = KindAudioInput
      then True else False)"

subsection \<open>Rates, aliases, requests (table.go)\<close>

type_synonym counts = "(kind \<times> int) list"

record Row =
  r_ID :: string
  r_Model :: string
  r_Provider :: string
  r_Kind :: kind
  r_Tier :: tier
  r_USDPerMTok :: decimal
  r_TierFrom :: int
  r_TierTo :: int
  r_From :: time
  r_Until :: time
  r_SourceURL :: string
  r_FetchedAt :: time

definition Row_Covers :: "Row \<Rightarrow> time \<Rightarrow> int \<Rightarrow> bool" where
  "Row_Covers r now inputTokens =
     (if now < r_From r then False
      else if r_Until r \<noteq> zero_time \<and> \<not> now < r_Until r then False
      else if inputTokens < r_TierFrom r then False
      else r_TierTo r = 0 \<or> inputTokens < r_TierTo r)"

record Alias =
  a_Alias :: string
  a_Canonical :: string
  a_Provider :: string
  a_From :: time
  a_Until :: time

definition Alias_Covers :: "Alias \<Rightarrow> time \<Rightarrow> bool" where
  "Alias_Covers a now =
     (if now < a_From a then False else a_Until a = zero_time \<or> now < a_Until a)"

record Request =
  q_Model :: string
  q_Provider :: string
  q_Tier :: tier
  q_At :: time
  q_Counts :: counts

record Result =
  Cost_of :: decimal
  Unpriced :: bool
  PartiallyPriced :: bool
  UnpricedKinds :: "kind list"
  PricedKinds :: "kind list"

definition zero_Result :: Result where
  "zero_Result = \<lparr>Cost_of = 0, Unpriced = False, PartiallyPriced = False,
     UnpricedKinds = [], PricedKinds = []\<rparr>"

type_synonym modelKey = "string \<times> string"
type_synonym aliasKey = "string \<times> string"

record Table =
  t_rows :: "(modelKey \<times> Row list) list"
  t_aliases :: "(aliasKey \<times> Alias list) list"

datatype row_error = MissingModelOrProvider | UnknownKind kind | UnknownTier tier | NegativeRate decimal
  | MissingEffectiveFrom | UntilNotAfterFrom | InvalidTierBounds | MissingSourceURL
  | MissingAliasField

datatype price_error = RowError nat row_error | AliasError nat row_error
  | AliasDangling string string | RowsOverlap modelKey kind tier | AliasesOverlap string
  | NegativeCount kind int

definition validateRow :: "Row \<Rightarrow> row_error option" where
  "validateRow r =
     (if r_Model r = [] \<or> r_Provider r = [] then Some MissingModelOrProvider
      else if \<not> Kind_Valid (r_Kind r) then Some (UnknownKind (r_Kind r))
      else if \<not> Tier_Valid (r_Tier r) then Some (UnknownTier (r_Tier r))
      else if r_USDPerMTok r < 0 then Some (NegativeRate (r_USDPerMTok r))
      else if r_From r = zero_time then Some MissingEffectiveFrom
      else if r_Until r \<noteq> zero_time \<and> \<not> r_Until r > r_From r then Some UntilNotAfterFrom
      else if r_TierFrom r < 0 \<or> (r_TierTo r \<noteq> 0 \<and> r_TierTo r \<le> r_TierFrom r)
        then Some InvalidTierBounds
      else if r_SourceURL r = [] then Some MissingSourceURL
      else None)"

definition validateAlias :: "Alias \<Rightarrow> row_error option" where
  "validateAlias a =
     (if a_Alias a = [] \<or> a_Canonical a = [] \<or> a_Provider a = [] then Some MissingAliasField
      else if a_From a = zero_time then Some MissingEffectiveFrom
      else if a_Until a \<noteq> zero_time \<and> \<not> a_Until a > a_From a then Some UntilNotAfterFrom
      else None)"

definition rangesOverlap :: "int \<Rightarrow> int \<Rightarrow> int \<Rightarrow> int \<Rightarrow> bool" where
  "rangesOverlap aFrom aTo bFrom bTo =
     (let aTo' = (if aTo = 0 then max_i64 else aTo);
          bTo' = (if bTo = 0 then max_i64 else bTo)
      in aFrom < bTo' \<and> bFrom < aTo')"

definition periodsOverlap :: "time \<Rightarrow> time \<Rightarrow> time \<Rightarrow> time \<Rightarrow> bool" where
  "periodsOverlap aFrom aUntil bFrom bUntil =
     (if aUntil \<noteq> zero_time \<and> \<not> aUntil > bFrom then False
      else if bUntil \<noteq> zero_time \<and> \<not> bUntil > aFrom then False
      else True)"

definition row_clash :: "Row \<Rightarrow> Row \<Rightarrow> bool" where
  "row_clash a b =
     (if r_Kind a \<noteq> r_Kind b \<or> r_Tier a \<noteq> r_Tier b then False
      else rangesOverlap (r_TierFrom a) (r_TierTo a) (r_TierFrom b) (r_TierTo b)
        \<and> periodsOverlap (r_From a) (r_Until a) (r_From b) (r_Until b))"

definition alias_clash :: "Alias \<Rightarrow> Alias \<Rightarrow> bool" where
  "alias_clash a b = periodsOverlap (a_From a) (a_Until a) (a_From b) (a_Until b)"

text \<open>The first entry, in list order, that clashes with a later one.\<close>

fun first_clash :: "('a \<Rightarrow> 'a \<Rightarrow> bool) \<Rightarrow> 'a list \<Rightarrow> 'a option" where
  "first_clash clash [] = None"
| "first_clash clash (x # xs) = (if list_ex (clash x) xs then Some x else first_clash clash xs)"

fun checkRowOverlaps :: "(modelKey \<times> Row list) list \<Rightarrow> price_error option" where
  "checkRowOverlaps [] = None"
| "checkRowOverlaps ((k, rows) # m) =
     (case first_clash row_clash rows of
        Some a \<Rightarrow> Some (RowsOverlap k (r_Kind a) (r_Tier a))
      | None \<Rightarrow> checkRowOverlaps m)"

fun checkAliasOverlaps :: "(aliasKey \<times> Alias list) list \<Rightarrow> price_error option" where
  "checkAliasOverlaps [] = None"
| "checkAliasOverlaps ((k, as) # m) =
     (case first_clash alias_clash as of
        Some a \<Rightarrow> Some (AliasesOverlap (fst k))
      | None \<Rightarrow> checkAliasOverlaps m)"

definition checkOverlaps :: "Table \<Rightarrow> price_error option" where
  "checkOverlaps t =
     (case checkRowOverlaps (t_rows t) of
        Some e \<Rightarrow> Some e
      | None \<Rightarrow> checkAliasOverlaps (t_aliases t))"

text \<open>\<open>m[k] = append(m[k], v)\<close>\<close>

definition map_append :: "'k \<Rightarrow> 'v \<Rightarrow> ('k \<times> 'v list) list \<Rightarrow> ('k \<times> 'v list) list" where
  "map_append k v m = AList.update k (map_get [] m k @ [v]) m"

fun addRows :: "nat \<Rightarrow> Row list \<Rightarrow> (modelKey \<times> Row list) list
    \<Rightarrow> price_error + (modelKey \<times> Row list) list" where
  "addRows i [] m = Inr m"
| "addRows i (r # rs) m =
     (case validateRow r of
        Some e \<Rightarrow> Inl (RowError i e)
      | None \<Rightarrow> addRows (Suc i) rs (map_append (r_Model r, r_Provider r) r m))"

fun addAliases :: "nat \<Rightarrow> Alias list \<Rightarrow> (aliasKey \<times> Alias list) list
    \<Rightarrow> price_error + (aliasKey \<times> Alias list) list" where
  "addAliases i [] m = Inr m"
| "addAliases i (a # as) m =
     (case validateAlias a of
        Some e \<Rightarrow> Inl (AliasError i e)
      | None \<Rightarrow> addAliases (Suc i) as (map_append (a_Alias a, a_Provider a) a m))"

text \<open>The loop that refuses an alias whose target has no prices; an absent key has no rows.\<close>

definition danglingAlias :: "(modelKey \<times> Row list) list \<Rightarrow> (aliasKey \<times> Alias list) list
    \<Rightarrow> price_error option" where
  "danglingAlias rows aliases =
     map_option (\<lambda>a. AliasDangling (a_Alias a) (a_Canonical a))
       (find (\<lambda>a. map_of rows (a_Canonical a, a_Provider a) = None) (concat (map snd aliases)))"

definition NewTable :: "Row list \<Rightarrow> Alias list \<Rightarrow> price_error + Table" where
  "NewTable rows aliases =
     (case addRows 0 rows [] of
        Inl e \<Rightarrow> Inl e
      | Inr rm \<Rightarrow>
        (case addAliases 0 aliases [] of
           Inl e \<Rightarrow> Inl e
         | Inr am \<Rightarrow>
           (case danglingAlias rm am of
              Some e \<Rightarrow> Inl e
            | None \<Rightarrow>
              (let t = \<lparr>t_rows = rm, t_aliases = am\<rparr>
               in case checkOverlaps t of Some e \<Rightarrow> Inl e | None \<Rightarrow> Inr t))))"

definition rowsFor :: "Table \<Rightarrow> string \<Rightarrow> string \<Rightarrow> Row list" where
  "rowsFor t model provider = map_get [] (t_rows t) (model, provider)"

definition Resolve :: "Table \<Rightarrow> string \<Rightarrow> string \<Rightarrow> time \<Rightarrow> string" where
  "Resolve t model provider now =
     (case find (\<lambda>a. Alias_Covers a now) (map_get [] (t_aliases t) (model, provider)) of
        Some a \<Rightarrow> a_Canonical a
      | None \<Rightarrow> model)"

fun InputTierTotal_loop :: "int \<Rightarrow> counts \<Rightarrow> int" where
  "InputTierTotal_loop acc [] = acc"
| "InputTierTotal_loop acc ((kind, n) # c) =
     InputTierTotal_loop (if n > 0 \<and> CountsTowardInputTier kind then i64 (acc + n) else acc) c"

definition InputTierTotal :: "counts \<Rightarrow> int" where
  "InputTierTotal c = InputTierTotal_loop 0 c"

definition pick :: "Row list \<Rightarrow> kind \<Rightarrow> tier \<Rightarrow> time \<Rightarrow> int \<Rightarrow> Row option" where
  "pick rows kind tier now inputTokens =
     find (\<lambda>r. r_Kind r = kind \<and> r_Tier r = tier \<and> Row_Covers r now inputTokens) rows"

definition sortedKinds :: "counts \<Rightarrow> kind list" where
  "sortedKinds c = sort (map fst c)"

text \<open>
  The loop of \<open>Cost\<close>. \<open>ddiv\<close> is the division of the decimal package; \<open>perMillion\<close> is its divisor.
\<close>

definition perMillion :: decimal where "perMillion = 1000000"

fun Cost_loop :: "(decimal \<Rightarrow> decimal \<Rightarrow> decimal) \<Rightarrow> Row list \<Rightarrow> tier \<Rightarrow> time \<Rightarrow> int \<Rightarrow> counts
    \<Rightarrow> kind list \<Rightarrow> decimal \<Rightarrow> kind list \<Rightarrow> kind list
    \<Rightarrow> price_error + (decimal \<times> kind list \<times> kind list)" where
  "Cost_loop ddiv rows tier now inputTotal c [] acc priced unpriced
     = Inr (acc, priced, unpriced)"
| "Cost_loop ddiv rows tier now inputTotal c (kind # ks) acc priced unpriced =
     (let count = map_get 0 c kind
      in if count = 0 then Cost_loop ddiv rows tier now inputTotal c ks acc priced unpriced
         else if \<not> Billable kind
           then Cost_loop ddiv rows tier now inputTotal c ks acc priced unpriced
         else if count < 0 then Inl (NegativeCount kind count)
         else (case pick rows kind tier now inputTotal of
             None \<Rightarrow> Cost_loop ddiv rows tier now inputTotal c ks acc priced (unpriced @ [kind])
           | Some row \<Rightarrow> Cost_loop ddiv rows tier now inputTotal c ks
               (acc + ddiv (of_int count * r_USDPerMTok row) perMillion)
               (priced @ [kind]) unpriced))"

definition Cost :: "(decimal \<Rightarrow> decimal \<Rightarrow> decimal) \<Rightarrow> Table \<Rightarrow> Request
    \<Rightarrow> price_error + Result" where
  "Cost ddiv t req =
     (let canonical = Resolve t (q_Model req) (q_Provider req) (q_At req)
      in case map_of (t_rows t) (canonical, q_Provider req) of
           None \<Rightarrow> Inr (zero_Result\<lparr>Unpriced := True\<rparr>)
         | Some rows \<Rightarrow>
           (case Cost_loop ddiv rows (q_Tier req) (q_At req) (InputTierTotal (q_Counts req))
                   (q_Counts req) (sortedKinds (q_Counts req)) 0 [] [] of
              Inl e \<Rightarrow> Inl e
            | Inr (acc, priced, unpriced) \<Rightarrow>
                if priced = [] \<and> unpriced \<noteq> []
                then Inr (zero_Result\<lparr>Unpriced := True, UnpricedKinds := unpriced\<rparr>)
                else Inr \<lparr>Cost_of = acc, Unpriced = False, PartiallyPriced = unpriced \<noteq> [],
                          UnpricedKinds = unpriced, PricedKinds = priced\<rparr>))"

definition Rows :: "Table \<Rightarrow> Row list" where
  "Rows t = concat (map snd (t_rows t))"

definition HasActivePrice :: "Table \<Rightarrow> string \<Rightarrow> string \<Rightarrow> time \<Rightarrow> bool" where
  "HasActivePrice t model provider now = list_ex (\<lambda>r. Row_Covers r now 0) (rowsFor t model provider)"

definition ModelProviders :: "Table \<Rightarrow> (string \<times> string) list" where
  "ModelProviders t =
     fold (\<lambda>(key, aliases) out. fold (\<lambda>a out. AList.update (fst key) (a_Provider a) out) aliases out)
       (t_aliases t)
       (fold (\<lambda>(key, rows) out. AList.update (fst key) (snd key) out) (t_rows t) [])"

subsection \<open>Validation\<close>

lemma first_clash_None:
  "first_clash clash xs = None \<longleftrightarrow> sorted_wrt (\<lambda>x y. \<not> clash x y) xs"
  by (induction xs) (auto simp: list_ex_iff)

lemma checkRowOverlaps_None:
  "checkRowOverlaps m = None \<longleftrightarrow>
     (\<forall>(k, rows) \<in> set m. sorted_wrt (\<lambda>x y. \<not> row_clash x y) rows)"
  by (induction m rule: checkRowOverlaps.induct)
    (auto simp: first_clash_None [symmetric] split: option.splits)

lemma checkAliasOverlaps_None:
  "checkAliasOverlaps m = None \<longleftrightarrow>
     (\<forall>(k, as) \<in> set m. sorted_wrt (\<lambda>x y. \<not> alias_clash x y) as)"
  by (induction m rule: checkAliasOverlaps.induct)
    (auto simp: first_clash_None [symmetric] split: option.splits)

text \<open>A map built by appending holds, under each key, the appended values in order, and no empty list.\<close>

definition no_empty :: "('k \<times> 'v list) list \<Rightarrow> bool" where
  "no_empty m \<longleftrightarrow> go_map m \<and> (\<forall>k. map_of m k \<noteq> Some [])"

lemma no_empty_Nil [simp]: "no_empty []"
  by (simp add: no_empty_def)

lemma map_append_no_empty [simp]: "no_empty m \<Longrightarrow> no_empty (map_append k v m)"
  by (auto simp: no_empty_def map_append_def update_conv')

lemma map_append_get [simp]:
  "map_get [] (map_append k v m) k' = (if k' = k then map_get [] m k @ [v] else map_get [] m k')"
  by (simp add: map_append_def)

lemma no_empty_map_of:
  "no_empty m \<Longrightarrow> map_of m k = (if map_get [] m k = [] then None else Some (map_get [] m k))"
  by (auto simp: no_empty_def map_get_def split: option.splits)

lemma no_empty_entry: "no_empty m \<Longrightarrow> (k, vs) \<in> set m \<Longrightarrow> vs = map_get [] m k"
  by (simp add: no_empty_def map_get_mem)

lemma no_empty_entries: "no_empty m \<Longrightarrow> (\<And>k. P (map_get [] m k)) \<Longrightarrow> \<forall>(k, vs) \<in> set m. P vs"
  using no_empty_entry by fastforce

lemma addRows_Inr:
  "addRows i rs m = Inr m' \<Longrightarrow> no_empty m \<Longrightarrow>
     no_empty m' \<and> (\<forall>r \<in> set rs. validateRow r = None) \<and>
     (\<forall>k. map_get [] m' k = map_get [] m k @ filter (\<lambda>r. (r_Model r, r_Provider r) = k) rs)"
proof (induction i rs m rule: addRows.induct)
  case (1 i m)
  then show ?case by simp
next
  case (2 i r rs m)
  then have v: "validateRow r = None"
    and rest: "addRows (Suc i) rs (map_append (r_Model r, r_Provider r) r m) = Inr m'"
    by (auto split: option.splits)
  from "2.IH" [OF v rest] "2.prems"(2) v show ?case by (auto split: if_splits)
qed

lemma addAliases_Inr:
  "addAliases i as m = Inr m' \<Longrightarrow> no_empty m \<Longrightarrow>
     no_empty m' \<and> (\<forall>a \<in> set as. validateAlias a = None) \<and>
     (\<forall>k. map_get [] m' k = map_get [] m k @ filter (\<lambda>a. (a_Alias a, a_Provider a) = k) as)"
proof (induction i as m rule: addAliases.induct)
  case (1 i m)
  then show ?case by simp
next
  case (2 i a as m)
  then have v: "validateAlias a = None"
    and rest: "addAliases (Suc i) as (map_append (a_Alias a, a_Provider a) a m) = Inr m'"
    by (auto split: option.splits)
  from "2.IH" [OF v rest] "2.prems"(2) v show ?case by (auto split: if_splits)
qed

lemma addRows_total: "(\<forall>r \<in> set rs. validateRow r = None) \<Longrightarrow> \<exists>m'. addRows i rs m = Inr m'"
  by (induction i rs m rule: addRows.induct) auto

lemma addAliases_total: "(\<forall>a \<in> set as. validateAlias a = None) \<Longrightarrow> \<exists>m'. addAliases i as m = Inr m'"
  by (induction i as m rule: addAliases.induct) auto

text \<open>What a validated table guarantees, in the form the other lemmas use it.\<close>

definition valid_table :: "Table \<Rightarrow> bool" where
  "valid_table t \<longleftrightarrow>
     no_empty (t_rows t) \<and> no_empty (t_aliases t) \<and>
     (\<forall>m p. \<forall>r \<in> set (rowsFor t m p). validateRow r = None \<and> r_Model r = m \<and> r_Provider r = p) \<and>
     (\<forall>m p. sorted_wrt (\<lambda>x y. \<not> row_clash x y) (rowsFor t m p)) \<and>
     (\<forall>k. sorted_wrt (\<lambda>x y. \<not> alias_clash x y) (map_get [] (t_aliases t) k)) \<and>
     (\<forall>k. \<forall>a \<in> set (map_get [] (t_aliases t) k).
        validateAlias a = None \<and> (a_Alias a, a_Provider a) = k \<and>
        rowsFor t (a_Canonical a) (a_Provider a) \<noteq> [])"

lemma sorted_wrt_map_get:
  assumes "\<forall>(k, vs) \<in> set m. sorted_wrt R vs"
  shows "sorted_wrt R (map_get [] m k)"
  using assms by (auto simp: map_get_def split: option.splits dest: map_of_SomeD)

lemma NewTable_Inr:
  assumes "NewTable rows aliases = Inr t"
  shows "addRows 0 rows [] = Inr (t_rows t)" and "addAliases 0 aliases [] = Inr (t_aliases t)"
    and "danglingAlias (t_rows t) (t_aliases t) = None"
    and "checkRowOverlaps (t_rows t) = None" and "checkAliasOverlaps (t_aliases t) = None"
  using assms
  by (auto simp: NewTable_def checkOverlaps_def Let_def split: sum.splits option.splits)

lemma map_get_concat: "a \<in> set (map_get [] m k) \<Longrightarrow> a \<in> set (concat (map snd m))"
proof -
  assume "a \<in> set (map_get [] m k)"
  then obtain vs where "(k, vs) \<in> set m" "a \<in> set vs"
    by (cases "map_of m k") (auto simp: map_get_def dest: map_of_SomeD)
  then show ?thesis by force
qed

lemma NewTable_valid_table:
  assumes "NewTable rows aliases = Inr t"
  shows "valid_table t"
proof -
  note N = NewTable_Inr [OF assms]
  from addRows_Inr [OF N(1)] have R: "no_empty (t_rows t)" "\<forall>r \<in> set rows. validateRow r = None"
    "\<And>k. map_get [] (t_rows t) k = filter (\<lambda>r. (r_Model r, r_Provider r) = k) rows" by auto
  from addAliases_Inr [OF N(2)] have A: "no_empty (t_aliases t)"
    "\<forall>a \<in> set aliases. validateAlias a = None"
    "\<And>k. map_get [] (t_aliases t) k = filter (\<lambda>a. (a_Alias a, a_Provider a) = k) aliases" by auto
  have target: "rowsFor t (a_Canonical a) (a_Provider a) \<noteq> []"
    if "a \<in> set (map_get [] (t_aliases t) k)" for a k
  proof -
    have "map_of (t_rows t) (a_Canonical a, a_Provider a) \<noteq> None"
      using N(3) map_get_concat [OF that] by (auto simp: danglingAlias_def find_None_iff)
    with no_empty_map_of [OF R(1)] show ?thesis by (auto simp: rowsFor_def split: if_splits)
  qed
  have "sorted_wrt (\<lambda>x y. \<not> row_clash x y) (map_get [] (t_rows t) k)" for k
    using N(4) by (intro sorted_wrt_map_get) (simp add: checkRowOverlaps_None)
  moreover have "sorted_wrt (\<lambda>x y. \<not> alias_clash x y) (map_get [] (t_aliases t) k)" for k
    using N(5) by (intro sorted_wrt_map_get) (simp add: checkAliasOverlaps_None)
  ultimately show ?thesis
    using R A target unfolding valid_table_def rowsFor_def by auto
qed

subsection \<open>At most one rate applies\<close>

text \<open>The point at which a rate is looked up.\<close>

definition row_at :: "Row \<Rightarrow> kind \<times> tier \<times> time \<times> int \<Rightarrow> bool" where
  "row_at r p = (case p of (kind, tier, now, n) \<Rightarrow>
     r_Kind r = kind \<and> r_Tier r = tier \<and> Row_Covers r now n)"

interpretation price_rows: exclusive_cover row_at row_clash "\<lambda>(kind, tier, now, n). n < max_i64"
proof unfold_locales
  fix p a b
  assume ok: "case p of (kind, tier, now, n) \<Rightarrow> n < max_i64" and ab: "row_at a p" "row_at b p"
  obtain kind tier now n where p: "p = (kind, tier, now, n)" by (cases p)
  from ok ab show "row_clash a b"
    unfolding p row_at_def row_clash_def Row_Covers_def rangesOverlap_def periodsOverlap_def
    by (auto simp: Let_def split: if_splits)
qed

interpretation price_aliases: exclusive_cover Alias_Covers alias_clash "\<lambda>now. True"
  by unfold_locales (auto simp: Alias_Covers_def alias_clash_def periodsOverlap_def split: if_splits)

lemma pick_row_at: "pick rows kind tier now n = find (\<lambda>r. row_at r (kind, tier, now, n)) rows"
  by (simp add: pick_def row_at_def)

lemma pick_SomeD:
  "pick rows kind tier now n = Some r \<Longrightarrow>
     r \<in> set rows \<and> r_Kind r = kind \<and> r_Tier r = tier \<and> Row_Covers r now n"
  by (auto simp: pick_def dest: find_SomeD)

lemma valid_table_pick:
  assumes "valid_table t" and "n < max_i64" and "r \<in> set (rowsFor t m p)" and "Row_Covers r now n"
  shows "pick (rowsFor t m p) (r_Kind r) (r_Tier r) now n = Some r"
proof -
  from assms(1) have "sorted_wrt (\<lambda>x y. \<not> row_clash x y) (rowsFor t m p)"
    by (simp add: valid_table_def)
  moreover have "row_at r (r_Kind r, r_Tier r, now, n)" using assms(4) by (simp add: row_at_def)
  ultimately show ?thesis
    unfolding pick_row_at using price_rows.find_covering assms by simp
qed

lemma valid_table_Resolve:
  assumes "valid_table t" and "a \<in> set (map_get [] (t_aliases t) (m, p))" and "Alias_Covers a now"
  shows "Resolve t m p now = a_Canonical a"
proof -
  have "sorted_wrt (\<lambda>x y. \<not> alias_clash x y) (map_get [] (t_aliases t) (m, p))"
    using assms(1) by (simp add: valid_table_def)
  then have "find (\<lambda>x. Alias_Covers x now) (map_get [] (t_aliases t) (m, p)) = Some a"
    using price_aliases.find_covering assms by simp
  then show ?thesis by (simp add: Resolve_def)
qed

lemma valid_table_target:
  "valid_table t \<Longrightarrow> a \<in> set (map_get [] (t_aliases t) k) \<Longrightarrow>
     rowsFor t (a_Canonical a) (a_Provider a) \<noteq> []"
  by (simp add: valid_table_def del: split_paired_All)

subsection \<open>The input total that selects a context tier\<close>

lemma InputTierTotal_loop_eq:
  "InputTierTotal_loop (i64 acc) c
     = i64 (acc + (\<Sum>(k, n)\<leftarrow>c. if n > 0 \<and> CountsTowardInputTier k then n else 0))"
  by (induction "i64 acc" c arbitrary: acc rule: InputTierTotal_loop.induct)
    (auto simp: i64_add_left add.assoc)

lemma InputTierTotal_eq:
  "InputTierTotal c = i64 (\<Sum>(k, n)\<leftarrow>c. if n > 0 \<and> CountsTowardInputTier k then n else 0)"
proof -
  have "i64 0 = 0" by (simp add: i64_def)
  with InputTierTotal_loop_eq [of 0 c] show ?thesis by (simp add: InputTierTotal_def)
qed

lemma InputTierTotal_loop_update:
  "\<not> CountsTowardInputTier k \<Longrightarrow>
     InputTierTotal_loop acc (AList.update k n c) = InputTierTotal_loop acc c"
  by (induction acc c rule: InputTierTotal_loop.induct) auto

subsection \<open>The cost loop\<close>

definition chargeable :: "kind \<Rightarrow> int \<Rightarrow> bool" where
  "chargeable k n \<longleftrightarrow> n \<noteq> 0 \<and> Billable k"

text \<open>What the loop adds for one billing class: nothing for an unpriced or unbilled one.\<close>

definition charge :: "(decimal \<Rightarrow> decimal \<Rightarrow> decimal) \<Rightarrow> Row list \<Rightarrow> tier \<Rightarrow> time \<Rightarrow> int
    \<Rightarrow> kind \<Rightarrow> int \<Rightarrow> decimal" where
  "charge ddiv rows tier now tot k n =
     (if chargeable k n
      then (case pick rows k tier now tot of
              None \<Rightarrow> 0
            | Some r \<Rightarrow> ddiv (of_int n * r_USDPerMTok r) perMillion)
      else 0)"

lemma Cost_loop_Inr:
  assumes "Cost_loop ddiv rows tier now tot c ks acc pr un = Inr (acc', pr', un')"
  shows "acc' = acc + (\<Sum>k\<leftarrow>ks. charge ddiv rows tier now tot k (map_get 0 c k))
    \<and> pr' = pr @ filter (\<lambda>k. chargeable k (map_get 0 c k) \<and> pick rows k tier now tot \<noteq> None) ks
    \<and> un' = un @ filter (\<lambda>k. chargeable k (map_get 0 c k) \<and> pick rows k tier now tot = None) ks
    \<and> (\<forall>k \<in> set ks. Billable k \<longrightarrow> 0 \<le> map_get 0 c k)"
  using assms
proof (induction ddiv rows tier now tot c ks acc pr un rule: Cost_loop.induct)
  case (1 ddiv rows tier now tot c acc pr un)
  then show ?case by simp
next
  case (2 ddiv rows tier now tot c k ks acc pr un)
  show ?case
  proof (cases "chargeable k (map_get 0 c k)")
    case False
    with "2.prems" "2.IH"(1,2) show ?thesis
      by (auto simp: chargeable_def charge_def Let_def split: if_splits)
  next
    case True
    with "2.prems" have pos: "0 < map_get 0 c k"
      by (auto simp: chargeable_def Let_def split: if_splits)
    with True "2.prems" "2.IH"(3,4) show ?thesis
      by (cases "pick rows k tier now tot") (auto simp: chargeable_def charge_def Let_def add.assoc)
  qed
qed

lemma Cost_loop_total:
  "(\<forall>k \<in> set ks. Billable k \<longrightarrow> 0 \<le> map_get 0 c k) \<Longrightarrow>
     \<exists>x. Cost_loop ddiv rows tier now tot c ks acc pr un = Inr x"
  by (induction ddiv rows tier now tot c ks acc pr un rule: Cost_loop.induct)
    (auto simp: Let_def split: option.splits)

lemma Cost_loop_filter:
  "Cost_loop ddiv rows tier now tot c ks acc pr un
     = Cost_loop ddiv rows tier now tot c (filter (\<lambda>k. chargeable k (map_get 0 c k)) ks) acc pr un"
  by (induction ddiv rows tier now tot c ks acc pr un rule: Cost_loop.induct)
    (auto simp: chargeable_def Let_def split: option.splits)

lemma Cost_loop_cong:
  "(\<And>k. k \<in> set ks \<Longrightarrow> map_get 0 c k = map_get 0 c' k) \<Longrightarrow>
   Cost_loop ddiv rows tier now tot c ks acc pr un = Cost_loop ddiv rows tier now tot c' ks acc pr un"
  by (induction ddiv rows tier now tot c ks acc pr un rule: Cost_loop.induct)
    (auto simp: Let_def split: option.splits)

subsection \<open>Decimal division\<close>

text \<open>
  The decimal package documents that a division is rounded to sixteen digits after the point: the
  result is a multiple of \<open>10^-16\<close> within half a unit of the quotient. This is all the cost
  calculation relies on.
\<close>

definition scaled :: "nat \<Rightarrow> decimal \<Rightarrow> bool" where
  "scaled d x \<longleftrightarrow> x * 10 ^ d \<in> \<int>"

locale decimal_division =
  fixes ddiv :: "decimal \<Rightarrow> decimal \<Rightarrow> decimal"
  assumes ddiv_scaled: "b \<noteq> 0 \<Longrightarrow> scaled 16 (ddiv a b)"
    and ddiv_close: "b \<noteq> 0 \<Longrightarrow> \<bar>ddiv a b - a / b\<bar> * 10 ^ 16 \<le> 1 / 2"
begin

lemma ddiv_exact:
  assumes "b \<noteq> 0" and "scaled 16 (a / b)"
  shows "ddiv a b = a / b"
proof -
  from ddiv_scaled [OF assms(1), of a] assms(2) have "(ddiv a b - a / b) * 10 ^ 16 \<in> \<int>"
    unfolding scaled_def left_diff_distrib by (rule Ints_diff)
  then obtain z :: int where z: "(ddiv a b - a / b) * 10 ^ 16 = of_int z" by (rule Ints_cases)
  have "\<bar>of_int z :: rat\<bar> \<le> 1 / 2"
    using ddiv_close [OF assms(1), of a] by (simp only: z [symmetric] abs_mult) simp
  then have "z = 0" by linarith
  with z have "(ddiv a b - a / b) * 10 ^ 16 = 0" by (simp only: of_int_0)
  then have "ddiv a b - a / b = 0" by (simp only: mult_eq_0_iff) simp
  then show ?thesis by simp
qed

lemma ddiv_nonneg:
  assumes "0 \<le> a" and "0 < b"
  shows "0 \<le> ddiv a b"
proof -
  from ddiv_scaled [of b a] assms(2) obtain z :: int where z: "ddiv a b * 10 ^ 16 = of_int z"
    unfolding scaled_def by (auto elim: Ints_cases)
  have "0 \<le> a / b" using assms by simp
  moreover have "a / b - ddiv a b \<le> \<bar>ddiv a b - a / b\<bar>" by linarith
  ultimately have "- ddiv a b * 10 ^ 16 \<le> \<bar>ddiv a b - a / b\<bar> * 10 ^ 16"
    by (intro mult_right_mono) simp_all
  also have "\<dots> \<le> 1 / 2" using ddiv_close [of b a] assms(2) by simp
  finally have "- (of_int z :: rat) \<le> 1 / 2" using z by simp
  then have "0 \<le> z" by linarith
  with z show ?thesis by (metis of_int_0_le_iff zero_le_mult_iff zero_less_numeral zero_less_power
        not_less order_less_le)
qed

text \<open>A count times a rate of at most ten decimals, per million, is exact.\<close>

lemma charge_exact:
  assumes "scaled 10 rate"
  shows "ddiv (of_int n * rate) perMillion = of_int n * rate / perMillion"
proof (rule ddiv_exact)
  have "of_int n * rate / perMillion * 10 ^ 16 = of_int n * (rate * 10 ^ 10)"
    by (simp add: perMillion_def)
  then show "scaled 16 (of_int n * rate / perMillion)"
    using assms by (simp add: scaled_def Ints_mult)
qed (simp add: perMillion_def)

lemma charge_nonneg: "0 \<le> n \<Longrightarrow> 0 \<le> rate \<Longrightarrow> 0 \<le> ddiv (of_int n * rate) perMillion"
  by (rule ddiv_nonneg) (simp_all add: perMillion_def)

end

text \<open>Rounding half away from zero to sixteen digits is such a division.\<close>

definition div16 :: "decimal \<Rightarrow> decimal \<Rightarrow> decimal" where
  "div16 a b = of_int (round_half_away (a / b * 10000000000000000)) / 10000000000000000"

lemma round_half_away_close: "\<bar>of_int (round_half_away x) - x\<bar> \<le> 1 / 2"
  by (auto simp: round_half_away_def abs_if) linarith+

interpretation dec16: decimal_division div16
proof unfold_locales
  fix a b :: decimal
  show "scaled 16 (div16 a b)" by (simp add: scaled_def div16_def)
  have "(div16 a b - a / b) * 10 ^ 16
      = of_int (round_half_away (a / b * 10000000000000000)) - a / b * 10000000000000000"
    by (simp add: div16_def left_diff_distrib)
  moreover have "\<bar>div16 a b - a / b\<bar> * 10 ^ 16 = \<bar>(div16 a b - a / b) * 10 ^ 16\<bar>"
    by (simp only: abs_mult) simp
  ultimately show "\<bar>div16 a b - a / b\<bar> * 10 ^ 16 \<le> 1 / 2"
    by (simp only: round_half_away_close)
qed

subsection \<open>The cost of a request\<close>

lemma Cost_Inr_priced:
  assumes "Cost ddiv t req = Inr res" and "\<not> Unpriced res"
  obtains rows where "map_of (t_rows t) (Resolve t (q_Model req) (q_Provider req) (q_At req),
        q_Provider req) = Some rows"
    and "Cost_loop ddiv rows (q_Tier req) (q_At req) (InputTierTotal (q_Counts req))
        (q_Counts req) (sortedKinds (q_Counts req)) 0 [] []
        = Inr (Cost_of res, PricedKinds res, UnpricedKinds res)"
    and "PartiallyPriced res \<longleftrightarrow> UnpricedKinds res \<noteq> []"
  using assms
  by (auto simp: Cost_def Let_def zero_Result_def split: option.splits sum.splits if_splits)

lemma map_of_rowsFor: "map_of (t_rows t) (m, p) = Some rows \<Longrightarrow> rowsFor t m p = rows"
  by (simp add: rowsFor_def map_get_def)

lemma set_sortedKinds [simp]: "set (sortedKinds c) = fst ` set c"
  by (simp add: sortedKinds_def)

lemma sum_sortedKinds:
  fixes f :: "kind \<Rightarrow> int \<Rightarrow> decimal"
  shows "go_map c \<Longrightarrow> (\<Sum>k\<leftarrow>sortedKinds c. f k (map_get 0 c k)) = (\<Sum>(k, n)\<leftarrow>c. f k n)"
  using sum_list_sort [of "\<lambda>k. f k (map_get 0 c k)" "map fst c"] sum_list_keys [of c f 0]
  by (simp add: sortedKinds_def)

lemma Cost_of_sum:
  assumes "Cost ddiv t req = Inr res" and "\<not> Unpriced res" and "go_map (q_Counts req)"
  shows "Cost_of res = (\<Sum>(k, n)\<leftarrow>q_Counts req.
           charge ddiv (rowsFor t (Resolve t (q_Model req) (q_Provider req) (q_At req))
             (q_Provider req)) (q_Tier req) (q_At req) (InputTierTotal (q_Counts req)) k n)"
  using assms(1,2)
proof (rule Cost_Inr_priced)
  fix rows
  assume "map_of (t_rows t) (Resolve t (q_Model req) (q_Provider req) (q_At req),
        q_Provider req) = Some rows"
    and loop: "Cost_loop ddiv rows (q_Tier req) (q_At req) (InputTierTotal (q_Counts req))
        (q_Counts req) (sortedKinds (q_Counts req)) 0 [] []
        = Inr (Cost_of res, PricedKinds res, UnpricedKinds res)"
  with Cost_loop_Inr [OF loop] show ?thesis
    by (simp add: map_of_rowsFor sum_sortedKinds [OF assms(3)])
qed

text \<open>Rates as published: what the specification charges for one billing class.\<close>

definition exact_charge :: "Row list \<Rightarrow> tier \<Rightarrow> time \<Rightarrow> int \<Rightarrow> kind \<Rightarrow> int \<Rightarrow> decimal" where
  "exact_charge rows tier now tot k n =
     (if n \<noteq> 0 \<and> k \<noteq> KindReasoning
      then (case pick rows k tier now tot of
              None \<Rightarrow> 0
            | Some r \<Rightarrow> of_int n * r_USDPerMTok r / 1000000)
      else 0)"

lemma charge_exact_charge:
  assumes "decimal_division ddiv" and "\<forall>r \<in> set rows. scaled 10 (r_USDPerMTok r)"
  shows "charge ddiv rows tier now tot k n = exact_charge rows tier now tot k n"
  using decimal_division.charge_exact [OF assms(1)] assms(2)
  by (auto simp: charge_def exact_charge_def chargeable_def Billable_def perMillion_def
      split: option.splits dest: pick_SomeD)

lemma charge_row_nonneg:
  assumes "decimal_division ddiv" and "\<forall>r \<in> set rows. 0 \<le> r_USDPerMTok r"
    and "Billable k \<Longrightarrow> 0 \<le> n"
  shows "0 \<le> charge ddiv rows tier now tot k n"
  using decimal_division.charge_nonneg [OF assms(1)] assms(2,3)
  by (auto simp: charge_def chargeable_def split: option.splits dest: pick_SomeD)

lemma validateRow_rate: "validateRow r = None \<Longrightarrow> 0 \<le> r_USDPerMTok r"
  by (auto simp: validateRow_def not_less split: if_splits)

subsection \<open>Sample table for the witnesses\<close>

text \<open>One model with two context tiers, a cached rate and an alias.\<close>

definition sample_row :: "kind \<Rightarrow> decimal \<Rightarrow> int \<Rightarrow> int \<Rightarrow> Row" where
  "sample_row k rate lo hi = \<lparr>r_ID = [], r_Model = ''m'', r_Provider = ''openai'', r_Kind = k,
     r_Tier = TierStandard, r_USDPerMTok = rate, r_TierFrom = lo, r_TierTo = hi, r_From = 1,
     r_Until = zero_time, r_SourceURL = ''u'', r_FetchedAt = 1\<rparr>"

definition sample_rows :: "Row list" where
  "sample_rows = [sample_row KindInput (5 / 2) 0 272000, sample_row KindInput 5 272000 0,
     sample_row KindOutput 15 0 0]"

definition sample_alias :: Alias where
  "sample_alias = \<lparr>a_Alias = ''latest'', a_Canonical = ''m'', a_Provider = ''openai'', a_From = 1,
     a_Until = zero_time\<rparr>"

definition sample_table :: Table where
  "sample_table = \<lparr>t_rows = [((''m'', ''openai''), sample_rows)],
     t_aliases = [((''latest'', ''openai''), [sample_alias])]\<rparr>"

lemmas sample_defs = sample_rows_def sample_row_def sample_alias_def sample_table_def

lemma sample_rows_valid: "\<forall>r \<in> set sample_rows. validateRow r = None"
  by (simp add: sample_defs validateRow_def Kind_Valid_def AllKinds_def kind_defs Tier_Valid_def
      AllTiers_def tier_defs zero_time_def)

lemma sample_no_clash: "first_clash row_clash sample_rows = None"
  by (simp add: sample_defs row_clash_def rangesOverlap_def kind_defs max_i64_def)

lemma sample_NewTable: "NewTable sample_rows [sample_alias] = Inr sample_table"
proof -
  have "addRows 0 sample_rows [] = Inr [((''m'', ''openai''), sample_rows)]"
    using sample_rows_valid by (simp add: sample_defs map_append_def map_get_def)
  moreover have "addAliases 0 [sample_alias] [] = Inr [((''latest'', ''openai''), [sample_alias])]"
    by (simp add: sample_defs validateAlias_def map_append_def zero_time_def)
  ultimately show ?thesis
    using sample_no_clash
    by (simp add: NewTable_def danglingAlias_def checkOverlaps_def sample_alias_def sample_table_def)
qed

lemma sample_rowsFor: "rowsFor sample_table ''m'' ''openai'' = sample_rows"
  by (simp add: rowsFor_def map_get_def sample_table_def)

lemma sample_Resolve: "Resolve sample_table ''latest'' ''openai'' 7 = ''m''"
  by (simp add: Resolve_def map_get_def sample_table_def sample_alias_def Alias_Covers_def)

lemma sample_map_of: "map_of (t_rows sample_table) (''m'', ''openai'') = Some sample_rows"
  by (simp add: sample_table_def)

subsection \<open>Properties\<close>

text \<open>
  In a table that validation accepted, at most one rate applies: whichever row of a model covers
  an instant and an input total below the largest 64-bit value, it is the row the cost calculation
  picks for its billing class and tier. The order of the rows in the price files is irrelevant.
\<close>

theorem pick_unique:
  assumes "NewTable rows aliases = Inr t"
    and "r \<in> set (rowsFor t m p)" and "Row_Covers r now n" and "n < max_i64"
  shows "pick (rowsFor t m p) (r_Kind r) (r_Tier r) now n = Some r"
  using NewTable_valid_table [OF assms(1)] assms(4,2,3) by (rule valid_table_pick)

theorem pick_unique_witness:
  "NewTable sample_rows [sample_alias] = Inr sample_table \<and>
   pick (rowsFor sample_table ''m'' ''openai'') KindInput TierStandard 7 300000
     = Some (sample_row KindInput 5 272000 0)"
proof -
  have "pick (rowsFor sample_table ''m'' ''openai'') (r_Kind (sample_row KindInput 5 272000 0))
      (r_Tier (sample_row KindInput 5 272000 0)) 7 300000 = Some (sample_row KindInput 5 272000 0)"
    by (rule pick_unique [OF sample_NewTable])
      (simp_all add: rowsFor_def map_get_def sample_table_def sample_rows_def sample_row_def
        Row_Covers_def max_i64_def)
  then show ?thesis by (simp add: sample_NewTable) (simp add: sample_row_def)
qed

text \<open>
  Validation accepts a price list exactly when every row and every alias is well formed, every
  alias points at a model of its provider that has a row, no two rows of a model overlap in billing
  class, tier, context range and period, and no two mappings of an alias overlap in time.
\<close>

theorem NewTable_accepts_iff:
  "(\<exists>t. NewTable rows aliases = Inr t) \<longleftrightarrow>
     (\<forall>r \<in> set rows. validateRow r = None) \<and> (\<forall>a \<in> set aliases. validateAlias a = None) \<and>
     (\<forall>a \<in> set aliases. \<exists>r \<in> set rows. r_Model r = a_Canonical a \<and> r_Provider r = a_Provider a) \<and>
     (\<forall>k. sorted_wrt (\<lambda>x y. \<not> row_clash x y) (filter (\<lambda>r. (r_Model r, r_Provider r) = k) rows)) \<and>
     (\<forall>k. sorted_wrt (\<lambda>x y. \<not> alias_clash x y)
       (filter (\<lambda>a. (a_Alias a, a_Provider a) = k) aliases))"
  (is "?L \<longleftrightarrow> ?R")
proof
  assume ?L
  then obtain t where t: "NewTable rows aliases = Inr t" by blast
  note N = NewTable_Inr [OF t]
  from addRows_Inr [OF N(1)] addAliases_Inr [OF N(2)] NewTable_valid_table [OF t]
  have "\<forall>a \<in> set aliases. rowsFor t (a_Canonical a) (a_Provider a) \<noteq> []"
    and R: "\<And>k. map_get [] (t_rows t) k = filter (\<lambda>r. (r_Model r, r_Provider r) = k) rows"
    unfolding valid_table_def by auto
  then have "\<forall>a \<in> set aliases. \<exists>r \<in> set rows. r_Model r = a_Canonical a \<and> r_Provider r = a_Provider a"
    by (fastforce simp: rowsFor_def filter_empty_conv)
  with addRows_Inr [OF N(1)] addAliases_Inr [OF N(2)] NewTable_valid_table [OF t] show ?R
    unfolding valid_table_def rowsFor_def by auto
next
  assume R: ?R
  then obtain rm am where rm: "addRows 0 rows [] = Inr rm" and am: "addAliases 0 aliases [] = Inr am"
    using addRows_total addAliases_total by meson
  note rm' = addRows_Inr [OF rm no_empty_Nil] and am' = addAliases_Inr [OF am no_empty_Nil]
  have "map_of rm (a_Canonical a, a_Provider a) \<noteq> None" if "a \<in> set (concat (map snd am))" for a
  proof -
    from that obtain k as where "(k, as) \<in> set am" "a \<in> set as" by auto
    moreover have "map_get [] am k = filter (\<lambda>a. (a_Alias a, a_Provider a) = k) aliases"
      using am' by (metis map_get_Nil append_Nil)
    ultimately have "a \<in> set aliases"
      using conjunct1 [OF am'] no_empty_entry [of am k as] by (metis filter_is_subset subsetD)
    with R have "filter (\<lambda>r. (r_Model r, r_Provider r) = (a_Canonical a, a_Provider a)) rows \<noteq> []"
      by (auto simp: filter_empty_conv)
    with rm' no_empty_map_of [of rm] show ?thesis by auto
  qed
  then have "danglingAlias rm am = None" by (auto simp: danglingAlias_def find_None_iff)
  moreover have "checkRowOverlaps rm = None"
    unfolding checkRowOverlaps_None using R rm' by (intro no_empty_entries) (simp_all del: split_paired_All)
  moreover have "checkAliasOverlaps am = None"
    unfolding checkAliasOverlaps_None using R am' by (intro no_empty_entries) (simp_all del: split_paired_All)
  ultimately show ?L using rm am by (simp add: NewTable_def checkOverlaps_def)
qed

theorem NewTable_accepts_iff_witness:
  "(\<exists>t. NewTable sample_rows [sample_alias] = Inr t) \<and>
   list_all (\<lambda>r. validateRow r = None) sample_rows"
  using NewTable_accepts_iff [of sample_rows "[sample_alias]"] sample_NewTable
  unfolding list_all_iff by blast

lemma rowsFor_NewTable:
  assumes "NewTable rows aliases = Inr t"
  shows "rowsFor t m p = filter (\<lambda>r. r_Model r = m \<and> r_Provider r = p) rows"
  using addRows_Inr [OF NewTable_Inr(1) [OF assms]] by (simp add: rowsFor_def)

text \<open>
  A table drops no rate and invents none: the rows it holds for a model and provider are the rows
  of the price list with that model and provider, in the order of the list.
\<close>

theorem table_keeps_rows:
  assumes "NewTable rows aliases = Inr t"
  shows "rowsFor t m p = filter (\<lambda>r. r_Model r = m \<and> r_Provider r = p) rows"
  using assms by (rule rowsFor_NewTable)

theorem table_keeps_rows_witness:
  "NewTable sample_rows [sample_alias] = Inr sample_table \<and>
   filter (\<lambda>r. r_Model r = ''m'' \<and> r_Provider r = ''openai'') sample_rows = sample_rows"
proof -
  have "rowsFor sample_table ''m'' ''openai''
      = filter (\<lambda>r. r_Model r = ''m'' \<and> r_Provider r = ''openai'') sample_rows"
    by (rule table_keeps_rows [OF sample_NewTable])
  then show ?thesis by (simp only: sample_rowsFor sample_NewTable simp_thms)
qed

text \<open>
  An alias in force at an instant resolves to its canonical model, whichever of the alias's
  mappings is listed first, and that model has prices.
\<close>

theorem Resolve_alias_priced:
  assumes "NewTable rows aliases = Inr t"
    and "a \<in> set aliases" and "Alias_Covers a now"
  shows "Resolve t (a_Alias a) (a_Provider a) now = a_Canonical a
    \<and> rowsFor t (a_Canonical a) (a_Provider a) \<noteq> []"
proof -
  have "a \<in> set (map_get [] (t_aliases t) (a_Alias a, a_Provider a))"
    using addAliases_Inr [OF NewTable_Inr(2) [OF assms(1)]] assms(2) by simp
  with NewTable_valid_table [OF assms(1)] assms(3) show ?thesis
    by (simp add: valid_table_Resolve valid_table_target)
qed

theorem Resolve_alias_priced_witness:
  "Resolve sample_table ''latest'' ''openai'' 7 = ''m'' \<and>
   rowsFor sample_table ''m'' ''openai'' \<noteq> []"
  using Resolve_alias_priced [OF sample_NewTable, of sample_alias 7]
  by (simp add: sample_alias_def Alias_Covers_def)

text \<open>
  C33. The cost is exact. For a request that was priced, from rates of at most ten decimals, the
  figure returned is the sum over the billing classes of count times rate per million tokens, with
  no rounding: the sixteen digits of the decimal division are always enough. Reasoning tokens
  contribute nothing, since they are already inside the output count.
\<close>

theorem cost_exact:
  assumes "decimal_division ddiv"
    and "Cost ddiv t req = Inr res" and "\<not> Unpriced res" and "go_map (q_Counts req)"
    and "\<forall>r \<in> set (rowsFor t (Resolve t (q_Model req) (q_Provider req) (q_At req)) (q_Provider req)).
           scaled 10 (r_USDPerMTok r)"
  shows "Cost_of res = (\<Sum>(k, n)\<leftarrow>q_Counts req.
           exact_charge (rowsFor t (Resolve t (q_Model req) (q_Provider req) (q_At req))
             (q_Provider req)) (q_Tier req) (q_At req) (InputTierTotal (q_Counts req)) k n)"
  using Cost_of_sum [OF assms(2-4)] charge_exact_charge [OF assms(1,5)] by simp

definition sample_request :: Request where
  "sample_request = \<lparr>q_Model = ''latest'', q_Provider = ''openai'', q_Tier = TierStandard, q_At = 7,
     q_Counts = [(KindInput, 300000), (KindOutput, 1000), (KindReasoning, 400)]\<rparr>"

definition sample_result :: Result where
  "sample_result = \<lparr>Cost_of = 303 / 200, Unpriced = False, PartiallyPriced = False,
     UnpricedKinds = [], PricedKinds = [KindInput, KindOutput]\<rparr>"

lemma sample_kinds: "sortedKinds [(KindInput, 300000), (KindOutput, 1000), (KindReasoning, 400)]
    = [KindInput, KindOutput, KindReasoning]"
  by (simp add: sortedKinds_def kind_defs)

lemma sample_div16: "div16 (of_int 300000 * 5) perMillion = 3 / 2"
    "div16 (of_int 1000 * 15) perMillion = 3 / 200"
  using dec16.charge_exact [of 5 300000] dec16.charge_exact [of 15 1000]
  by (simp_all add: scaled_def perMillion_def)

lemma sample_Cost: "Cost div16 sample_table sample_request = Inr sample_result"
proof -
  have tot: "InputTierTotal [(KindInput, 300000), (KindOutput, 1000), (KindReasoning, 400)] = 300000"
    by (simp add: InputTierTotal_def CountsTowardInputTier_def kind_defs i64_def)
  have i: "pick sample_rows KindInput TierStandard 7 300000 = Some (sample_row KindInput 5 272000 0)"
    and o': "pick sample_rows KindOutput TierStandard 7 300000 = Some (sample_row KindOutput 15 0 0)"
    by (simp_all add: pick_def sample_rows_def sample_row_def Row_Covers_def kind_defs)
  have k: "KindInput \<noteq> KindOutput" "KindReasoning \<noteq> KindInput" "KindReasoning \<noteq> KindOutput"
    by (simp_all add: kind_defs)
  show ?thesis
    using sample_div16
    by (simp add: Cost_def sample_request_def sample_Resolve sample_kinds tot Let_def
        sample_map_of map_get_def i o' k k [symmetric] Billable_def sample_result_def)
      (simp add: sample_row_def)
qed

theorem cost_exact_witness:
  "Cost div16 sample_table sample_request = Inr sample_result \<and>
   (\<Sum>(k, n)\<leftarrow>q_Counts sample_request. exact_charge sample_rows TierStandard 7
      (InputTierTotal (q_Counts sample_request)) k n) = 303 / 200"
proof -
  have "decimal_division div16" by unfold_locales
  moreover have "go_map (q_Counts sample_request)"
    by (simp add: sample_request_def kind_defs)
  moreover have "\<forall>r \<in> set (rowsFor sample_table (Resolve sample_table (q_Model sample_request)
      (q_Provider sample_request) (q_At sample_request)) (q_Provider sample_request)).
      scaled 10 (r_USDPerMTok r)"
    by (simp add: sample_request_def sample_Resolve sample_rowsFor sample_rows_def sample_row_def
        scaled_def)
  ultimately have "Cost_of sample_result = (\<Sum>(k, n)\<leftarrow>q_Counts sample_request.
      exact_charge (rowsFor sample_table (Resolve sample_table (q_Model sample_request)
        (q_Provider sample_request) (q_At sample_request)) (q_Provider sample_request))
        (q_Tier sample_request) (q_At sample_request) (InputTierTotal (q_Counts sample_request)) k n)"
    using sample_Cost by (intro cost_exact) (simp_all add: sample_result_def)
  then show ?thesis
    using sample_Cost by (simp add: sample_request_def sample_Resolve sample_rowsFor sample_result_def)
qed

lemma map_of_NewTable:
  assumes "NewTable rows aliases = Inr t"
  shows "map_of (t_rows t) (m, p) = (if rowsFor t m p = [] then None else Some (rowsFor t m p))"
  using no_empty_map_of [of "t_rows t" "(m, p)"] NewTable_valid_table [OF assms]
  by (simp add: valid_table_def rowsFor_def)

lemma Cost_nonneg:
  assumes "decimal_division ddiv" and "NewTable rows aliases = Inr t"
    and "Cost ddiv t req = Inr res"
  shows "0 \<le> Cost_of res"
proof (cases "Unpriced res")
  case True
  then show ?thesis using assms(3)
    by (auto simp: Cost_def Let_def zero_Result_def split: option.splits sum.splits if_splits)
next
  case False
  with assms(3) show ?thesis
  proof (rule Cost_Inr_priced)
    fix rs
    assume rs: "map_of (t_rows t) (Resolve t (q_Model req) (q_Provider req) (q_At req),
          q_Provider req) = Some rs"
      and loop: "Cost_loop ddiv rs (q_Tier req) (q_At req) (InputTierTotal (q_Counts req))
          (q_Counts req) (sortedKinds (q_Counts req)) 0 [] []
          = Inr (Cost_of res, PricedKinds res, UnpricedKinds res)"
    have "\<forall>r \<in> set rs. 0 \<le> r_USDPerMTok r"
      using NewTable_valid_table [OF assms(2)] map_of_rowsFor [OF rs] validateRow_rate
      unfolding valid_table_def by blast
    with Cost_loop_Inr [OF loop] show ?thesis
      by (auto intro!: sum_list_nonneg charge_row_nonneg [OF assms(1)])
  qed
qed

text \<open>
  A cost is never negative: validation refuses negative rates and the calculation refuses
  negative counts, so a reservation or a settlement computed here can only consume budget.
\<close>

theorem cost_nonneg:
  assumes "decimal_division ddiv" and "NewTable rows aliases = Inr t"
    and "Cost ddiv t req = Inr res"
  shows "0 \<le> Cost_of res"
  using assms by (rule Cost_nonneg)

theorem cost_nonneg_witness: "Cost div16 sample_table sample_request = Inr sample_result
    \<and> 0 \<le> Cost_of sample_result"
  using cost_nonneg [OF _ sample_NewTable sample_Cost] sample_Cost dec16.decimal_division_axioms
  by simp

text \<open>
  Thinking tokens are not billed twice: whatever reasoning count a usage block carries, even a
  negative or an enormous one, the result of the cost calculation is the same.
\<close>

theorem cost_ignores_reasoning:
  "Cost ddiv t (req\<lparr>q_Counts := AList.update KindReasoning n c\<rparr>) = Cost ddiv t (req\<lparr>q_Counts := c\<rparr>)"
proof -
  let ?c = "AList.update KindReasoning n c"
  let ?P = "\<lambda>c k. chargeable k (map_get 0 c k)"
  have r: "\<not> ?P c KindReasoning" for c by (simp add: chargeable_def Billable_def)
  have same: "?P ?c = ?P c" by (auto simp: fun_eq_iff chargeable_def Billable_def)
  have "mset (filter (?P ?c) (map fst ?c)) = mset (filter (?P c) (map fst c))"
    unfolding same by (simp add: update_keys r)
  then have "filter (?P ?c) (sortedKinds ?c) = filter (?P c) (sortedKinds c)"
    by (simp add: sortedKinds_def filter_sort properties_for_sort)
  moreover have "Cost_loop ddiv rows tier now tot ?c (filter (?P c) ks) acc pr un
      = Cost_loop ddiv rows tier now tot c (filter (?P c) ks) acc pr un" for rows tier now tot ks acc pr un
    by (rule Cost_loop_cong) (auto simp: r)
  ultimately have loop: "Cost_loop ddiv rows tier now tot ?c (sortedKinds ?c) acc pr un
      = Cost_loop ddiv rows tier now tot c (sortedKinds c) acc pr un" for rows tier now tot acc pr un
    using Cost_loop_filter by metis
  have "InputTierTotal ?c = InputTierTotal c"
    by (simp add: InputTierTotal_def InputTierTotal_loop_update CountsTowardInputTier_def kind_defs)
  then show ?thesis by (simp add: Cost_def loop split: option.split)
qed

lemma Cost_error_iff:
  assumes "NewTable rows aliases = Inr t" and "go_map (q_Counts req)"
  shows "(\<exists>e. Cost ddiv t req = Inl e) \<longleftrightarrow>
    rowsFor t (Resolve t (q_Model req) (q_Provider req) (q_At req)) (q_Provider req) \<noteq> [] \<and>
    (\<exists>(k, n) \<in> set (q_Counts req). Billable k \<and> n < 0)"
proof -
  let ?c = "q_Counts req"
  have neg: "(\<forall>k \<in> set (sortedKinds ?c). Billable k \<longrightarrow> 0 \<le> map_get 0 ?c k)
      \<longleftrightarrow> \<not> (\<exists>(k, n) \<in> set ?c. Billable k \<and> n < 0)"
    using map_get_mem [OF assms(2)] by (fastforce simp: not_less)
  have loop: "(\<exists>e. Cost_loop ddiv rs tr now tot ?c (sortedKinds ?c) acc pr un = Inl e)
      \<longleftrightarrow> (\<exists>(k, n) \<in> set ?c. Billable k \<and> n < 0)" for rs tr now tot acc pr un
  proof (cases "Cost_loop ddiv rs tr now tot ?c (sortedKinds ?c) acc pr un")
    case (Inl e)
    then have "\<not> (\<forall>k \<in> set (sortedKinds ?c). Billable k \<longrightarrow> 0 \<le> map_get 0 ?c k)"
      using Cost_loop_total by (metis Inl_Inr_False)
    with Inl neg show ?thesis by blast
  next
    case (Inr x)
    then have "\<forall>k \<in> set (sortedKinds ?c). Billable k \<longrightarrow> 0 \<le> map_get 0 ?c k"
      using Cost_loop_Inr by (cases x) blast
    with Inr neg show ?thesis by simp
  qed
  let ?rs = "rowsFor t (Resolve t (q_Model req) (q_Provider req) (q_At req)) (q_Provider req)"
  have "(\<exists>e. Cost ddiv t req = Inl e) \<longleftrightarrow> ?rs \<noteq> [] \<and>
      (\<exists>e. Cost_loop ddiv ?rs (q_Tier req) (q_At req) (InputTierTotal ?c) ?c (sortedKinds ?c) 0 [] []
        = Inl e)"
    by (auto simp: Cost_def Let_def map_of_NewTable [OF assms(1)] split: sum.splits)
  then show ?thesis by (simp only: loop)
qed

lemma cost_total:
  assumes "NewTable rows aliases = Inr t" and "go_map (q_Counts req)"
    and "\<forall>(k, n) \<in> set (q_Counts req). 0 \<le> n"
  shows "\<exists>res. Cost ddiv t req = Inr res"
proof (cases "Cost ddiv t req")
  case (Inl e)
  then show ?thesis using Cost_error_iff [OF assms(1,2), of ddiv] assms(3) by fastforce
qed simp

text \<open>
  The calculation fails exactly when the model has prices and some billable class has a negative
  count: there is no other error path, and reasoning counts never cause one.
\<close>

theorem cost_error_iff:
  assumes "NewTable rows aliases = Inr t" and "go_map (q_Counts req)"
  shows "(\<exists>e. Cost ddiv t req = Inl e) \<longleftrightarrow>
    rowsFor t (Resolve t (q_Model req) (q_Provider req) (q_At req)) (q_Provider req) \<noteq> [] \<and>
    (\<exists>(k, n) \<in> set (q_Counts req). Billable k \<and> n < 0)"
  using assms by (rule Cost_error_iff)

theorem cost_error_iff_witness:
  "\<exists>e. Cost div16 sample_table (sample_request\<lparr>q_Counts := [(KindOutput, -1)]\<rparr>) = Inl e"
proof -
  let ?req = "sample_request\<lparr>q_Counts := [(KindOutput, -1)]\<rparr>"
  have "rowsFor sample_table (Resolve sample_table (q_Model ?req) (q_Provider ?req) (q_At ?req))
      (q_Provider ?req) \<noteq> []"
    by (simp add: sample_request_def sample_Resolve sample_rowsFor) (simp add: sample_rows_def)
  moreover have "go_map (q_Counts ?req)" by simp
  ultimately show ?thesis
    using cost_error_iff [OF sample_NewTable, of ?req div16]
    by (simp add: Billable_def kind_defs)
qed

text \<open>
  Unknown is never reported as free. A successful calculation reports a request as unpriced
  exactly when the model has no row at all, or when it used some billable class and no class it used
  has an applicable rate; as partially priced exactly when some used class has a rate and some other
  has none; and it lists precisely the classes without a rate.
\<close>

theorem cost_classification:
  assumes "NewTable rows aliases = Inr t" and "go_map (q_Counts req)" and "Cost ddiv t req = Inr res"
  defines "rs \<equiv> rowsFor t (Resolve t (q_Model req) (q_Provider req) (q_At req)) (q_Provider req)"
  defines "used \<equiv> {k. \<exists>n. (k, n) \<in> set (q_Counts req) \<and> n \<noteq> 0 \<and> Billable k}"
  defines "rated \<equiv> {k. pick rs k (q_Tier req) (q_At req) (InputTierTotal (q_Counts req)) \<noteq> None}"
  shows "(Unpriced res \<longleftrightarrow> rs = [] \<or> used \<noteq> {} \<and> used \<inter> rated = {}) \<and>
    (PartiallyPriced res \<longleftrightarrow> rs \<noteq> [] \<and> used \<inter> rated \<noteq> {} \<and> used - rated \<noteq> {}) \<and>
    set (UnpricedKinds res) = (if rs = [] then {} else used - rated)"
proof -
  let ?c = "q_Counts req"
  have used: "set (filter (\<lambda>k. chargeable k (map_get 0 ?c k) \<and> Q k) (sortedKinds ?c)) = {k \<in> used. Q k}"
    for Q
    using map_get_mem [OF assms(2)] unfolding used_def chargeable_def by force
  show ?thesis
  proof (cases "rs = []")
    case True
    then show ?thesis using assms(3)
      by (auto simp: Cost_def Let_def map_of_NewTable [OF assms(1)] rs_def zero_Result_def)
  next
    case False
    then obtain acc pr un where
      loop: "Cost_loop ddiv rs (q_Tier req) (q_At req) (InputTierTotal ?c) ?c (sortedKinds ?c) 0 [] []
        = Inr (acc, pr, un)"
      and r: "res = (if pr = [] \<and> un \<noteq> [] then zero_Result\<lparr>Unpriced := True, UnpricedKinds := un\<rparr>
         else \<lparr>Cost_of = acc, Unpriced = False, PartiallyPriced = un \<noteq> [], UnpricedKinds = un,
               PricedKinds = pr\<rparr>)"
      using assms(3)
      by (auto simp: Cost_def Let_def map_of_NewTable [OF assms(1)] rs_def
          split: sum.splits if_splits)
    have "set pr = used \<inter> rated" and un: "set un = used - rated"
      using Cost_loop_Inr [OF loop] used unfolding rated_def by auto
    then have "pr = [] \<longleftrightarrow> used \<inter> rated = {}" "un = [] \<longleftrightarrow> used - rated = {}"
      by (metis set_empty)+
    with r un False show ?thesis by (auto simp: zero_Result_def)
  qed
qed

theorem cost_classification_witness:
  "\<not> Unpriced sample_result \<and>
   {k. \<exists>n. (k, n) \<in> set (q_Counts sample_request) \<and> n \<noteq> 0 \<and> Billable k}
     - {k. pick sample_rows k TierStandard 7 (InputTierTotal (q_Counts sample_request)) \<noteq> None} = {}"
proof -
  have g: "go_map (q_Counts sample_request)" by (simp add: sample_request_def kind_defs)
  have rs: "rowsFor sample_table (Resolve sample_table (q_Model sample_request)
      (q_Provider sample_request) 7) (q_Provider sample_request) = sample_rows"
    by (simp add: sample_request_def sample_Resolve sample_rowsFor)
  have ne: "sample_rows \<noteq> []" by (simp add: sample_rows_def)
  have tr: "q_Tier sample_request = TierStandard" "q_At sample_request = 7"
    by (simp_all add: sample_request_def)
  have "UnpricedKinds sample_result = []" "\<not> Unpriced sample_result"
    by (simp_all add: sample_result_def)
  with cost_classification [OF sample_NewTable g sample_Cost] show ?thesis
    unfolding tr rs using ne by simp
qed

end
