(* ===== verification/Price_Estimate.thy ===== *)
theory Price_Estimate
  imports Price_Table
begin

text \<open>
  Package \<open>pricing\<close>, files \<open>guard.go\<close>, \<open>estimate.go\<close>, \<open>snapshot.go\<close> and \<open>yaml.go\<close>: the pre-flight
  estimate a reservation is taken at, the guard band around context thresholds, loading a price
  directory and swapping it in.

  The lemmas show that the guard only ever raises an estimate, that an estimate within the guard
  factor of the true count reserves at least at the true context tier, that an estimate never fails
  on a validated table, and that a failed reload leaves the running table in place.
\<close>

subsection \<open>Double precision\<close>

text \<open>
  IEEE 754 binary64, as Go's \<open>float64\<close>: finite values are rationals, a product is rounded to the
  nearest representable value with ties to even, subnormals and overflow included.
\<close>

datatype float64 = NaN | PInf | NInf | Fin rat

lemma ceiling_half:
  fixes y :: rat
  assumes "2 \<le> \<lceil>y\<rceil>"
  shows "\<lceil>y / 2\<rceil> < \<lceil>y\<rceil>"
proof -
  have "y \<le> of_int \<lceil>y\<rceil>" by (rule le_of_int_ceiling)
  moreover have "(2 :: rat) \<le> of_int \<lceil>y\<rceil>" using assms by (metis of_int_le_iff of_int_numeral)
  ultimately have "y / 2 \<le> of_int \<lceil>y\<rceil> - 1" by linarith
  then have "y / 2 \<le> of_int (\<lceil>y\<rceil> - 1)" by (simp only: of_int_diff of_int_1)
  then show ?thesis using ceiling_le_iff [of "y / 2" "\<lceil>y\<rceil> - 1"] by linarith
qed

function flog2 :: "rat \<Rightarrow> int" where
  "flog2 x = (if 2 \<le> x then 1 + flog2 (x / 2) else if 0 < x \<and> x < 1 then flog2 (2 * x) - 1 else 0)"
  by pat_completeness auto
termination
proof (relation "measure (\<lambda>x. if 2 \<le> x then nat \<lfloor>x\<rfloor> else if 0 < x \<and> x < 1 then nat \<lceil>1 / x\<rceil> else 0)")
  fix x :: rat
  assume "2 \<le> x"
  then have "\<lfloor>x / 2\<rfloor> < \<lfloor>x\<rfloor>" "2 \<le> \<lfloor>x\<rfloor>" by linarith+
  with \<open>2 \<le> x\<close> show "(x / 2, x) \<in> measure (\<lambda>x. if 2 \<le> x then nat \<lfloor>x\<rfloor>
      else if 0 < x \<and> x < 1 then nat \<lceil>1 / x\<rceil> else 0)"
    by (auto simp: nat_less_eq_zless)
next
  fix x :: rat
  assume a: "\<not> 2 \<le> x" "0 < x \<and> x < 1"
  then have y: "1 < 1 / x" by (simp add: field_simps)
  then have "2 \<le> \<lceil>1 / x\<rceil>" using less_ceiling_iff [of 1 "1 / x"] by simp
  moreover from this have "\<lceil>1 / x / 2\<rceil> < \<lceil>1 / x\<rceil>" by (rule ceiling_half)
  then have "\<lceil>1 / (2 * x)\<rceil> < \<lceil>1 / x\<rceil>" by (simp add: mult.commute)
  ultimately show "(2 * x, x) \<in> measure (\<lambda>x. if 2 \<le> x then nat \<lfloor>x\<rfloor>
      else if 0 < x \<and> x < 1 then nat \<lceil>1 / x\<rceil> else 0)"
    using a by (auto simp: nat_less_eq_zless)
qed simp

declare flog2.simps [simp del]

definition round_even :: "rat \<Rightarrow> int" where
  "round_even x =
     (let lo = \<lfloor>x\<rfloor>; d = x - of_int lo
      in if d < 1 / 2 then lo else if 1 / 2 < d then lo + 1 else if even lo then lo else lo + 1)"

definition fround :: "rat \<Rightarrow> float64" where
  "fround x =
     (if x = 0 then Fin 0
      else let e = max (flog2 \<bar>x\<bar> - 52) (-1074);
               r = of_int (round_even (x / 2 powi e)) * 2 powi e
           in if \<bar>r\<bar> < 2 ^ 1024 then Fin r else if 0 < r then PInf else NInf)"

definition fsign :: "float64 \<Rightarrow> int" where
  "fsign a = (case a of NaN \<Rightarrow> 0 | PInf \<Rightarrow> 1 | NInf \<Rightarrow> -1
     | Fin x \<Rightarrow> if 0 < x then 1 else if x < 0 then -1 else 0)"

definition fmul :: "float64 \<Rightarrow> float64 \<Rightarrow> float64" where
  "fmul a b =
     (case (a, b) of
        (Fin x, Fin y) \<Rightarrow> fround (x * y)
      | (NaN, _) \<Rightarrow> NaN
      | (_, NaN) \<Rightarrow> NaN
      | _ \<Rightarrow> (let s = fsign a * fsign b in if s = 0 then NaN else if 0 < s then PInf else NInf))"

fun fge :: "float64 \<Rightarrow> float64 \<Rightarrow> bool" where
  "fge NaN _ = False"
| "fge _ NaN = False"
| "fge PInf _ = True"
| "fge _ NInf = True"
| "fge (Fin x) (Fin y) = (y \<le> x)"
| "fge _ _ = False"

definition float_of_int :: "int \<Rightarrow> float64" where
  "float_of_int n = fround (of_int n)"

subsection \<open>The guard band (guard.go)\<close>

definition TierGuardFactor :: float64 where "TierGuardFactor = Fin (3 / 4)"

fun GuardedTierTotal_loop :: "int \<Rightarrow> float64 \<Rightarrow> int list \<Rightarrow> int \<Rightarrow> int" where
  "GuardedTierTotal_loop estimate factor [] guarded = guarded"
| "GuardedTierTotal_loop estimate factor (threshold # ts) guarded =
     (if threshold \<le> 0 \<or> estimate \<ge> threshold then GuardedTierTotal_loop estimate factor ts guarded
      else if fge (float_of_int estimate) (fmul factor (float_of_int threshold))
        then GuardedTierTotal_loop estimate factor ts (max guarded threshold)
      else GuardedTierTotal_loop estimate factor ts guarded)"

definition GuardedTierTotal :: "int \<Rightarrow> int list \<Rightarrow> float64 \<Rightarrow> int" where
  "GuardedTierTotal estimate thresholds factor =
     GuardedTierTotal_loop estimate factor thresholds estimate"

fun Thresholds_loop :: "tier \<Rightarrow> Row list \<Rightarrow> int list \<Rightarrow> int list" where
  "Thresholds_loop tier [] out = out"
| "Thresholds_loop tier (r # rs) out =
     Thresholds_loop tier rs
       (if r_Tier r = tier \<and> r_TierFrom r > 0 \<and> r_TierFrom r \<notin> set out
        then out @ [r_TierFrom r] else out)"

definition Thresholds :: "Table \<Rightarrow> string \<Rightarrow> string \<Rightarrow> tier \<Rightarrow> int list" where
  "Thresholds t model provider tier = Thresholds_loop tier (rowsFor t model provider) []"

subsection \<open>The estimate (estimate.go)\<close>

definition charsPerToken :: int where "charsPerToken = 4"

definition EstimateInputTokens :: "int \<Rightarrow> int" where
  "EstimateInputTokens promptBytes =
     (if promptBytes \<le> 0 then 0 else i64 (promptBytes div charsPerToken + 1))"

record EstimateRequest =
  e_Model :: string
  e_Provider :: string
  e_Tier :: tier
  e_At :: time
  e_PromptBytes :: int
  e_MaxTokens :: int
  e_DefaultMaxTokens :: int
  e_GuardFactor :: float64

text \<open>\<open>guard <= 0\<close> is false of a NaN.\<close>

definition fle0 :: "float64 \<Rightarrow> bool" where
  "fle0 f = (case f of NaN \<Rightarrow> False | PInf \<Rightarrow> False | NInf \<Rightarrow> True | Fin x \<Rightarrow> x \<le> 0)"

definition estimateCounts :: "Table \<Rightarrow> EstimateRequest \<Rightarrow> counts" where
  "estimateCounts t req =
     (let inputTokens = EstimateInputTokens (e_PromptBytes req);
          outputTokens = (if e_MaxTokens req \<le> 0 then e_DefaultMaxTokens req else e_MaxTokens req);
          guard = (if fle0 (e_GuardFactor req) then TierGuardFactor else e_GuardFactor req);
          guarded = GuardedTierTotal inputTokens
            (Thresholds t (e_Model req) (e_Provider req) (e_Tier req)) guard
      in [(KindInput, guarded), (KindOutput, outputTokens)])"

definition Estimate :: "(decimal \<Rightarrow> decimal \<Rightarrow> decimal) \<Rightarrow> Table \<Rightarrow> EstimateRequest
    \<Rightarrow> price_error + (decimal \<times> Result)" where
  "Estimate ddiv t req =
     (case Cost ddiv t \<lparr>q_Model = e_Model req, q_Provider = e_Provider req, q_Tier = e_Tier req,
             q_At = e_At req, q_Counts = estimateCounts t req\<rparr> of
        Inl e \<Rightarrow> Inl e
      | Inr res \<Rightarrow> Inr (Cost_of res, res))"

subsection \<open>Price files (yaml.go)\<close>

record yamlPrice =
  yp_Kind :: string
  yp_Tier :: string
  yp_TierFrom :: int
  yp_TierTo :: int
  yp_USDPerMTok :: string
  yp_EffectiveFrom :: time
  yp_EffectiveUntil :: time
  yp_SourceURL :: string

record yamlModel =
  ym_Model :: string
  ym_SourceURL :: string
  ym_FetchedAt :: time
  ym_ContextWindow :: int
  ym_MaxOutputTokens :: int
  ym_Prices :: "yamlPrice list"

record yamlAlias =
  ya_Alias :: string
  ya_Canonical :: string
  ya_EffectiveFrom :: time
  ya_EffectiveUntil :: time

record price_file =
  f_Provider :: string
  f_Models :: "yamlModel list"
  f_Aliases :: "yamlAlias list"

datatype load_error = ReadingDir string | NoYamlFiles string | ReadingFile string | Parsing string
  | NoProvider string | ModelNoName string | ModelNoSource string string
  | ModelNoFetchedAt string string | BadRate string string string string
  | TableError price_error

text \<open>2020-01-01T00:00:00Z, in nanoseconds since 1970.\<close>

definition defaultEffectiveFrom :: time where
  "defaultEffectiveFrom = 1577836800000000000"

text \<open>\<open>parseDec\<close> is \<open>decimal.NewFromString\<close>.\<close>

definition convertPrice :: "(string \<Rightarrow> decimal option) \<Rightarrow> string \<Rightarrow> string \<Rightarrow> yamlModel \<Rightarrow> yamlPrice
    \<Rightarrow> load_error + Row" where
  "convertPrice parseDec name provider m p =
     (case parseDec (yp_USDPerMTok p) of
        None \<Rightarrow> Inl (BadRate name (ym_Model m) (yp_Kind p) (yp_USDPerMTok p))
      | Some amount \<Rightarrow> Inr
          \<lparr>r_ID = [], r_Model = ym_Model m, r_Provider = provider, r_Kind = yp_Kind p,
           r_Tier = (if yp_Tier p = [] then TierStandard else yp_Tier p),
           r_USDPerMTok = amount, r_TierFrom = yp_TierFrom p, r_TierTo = yp_TierTo p,
           r_From = (if yp_EffectiveFrom p = zero_time then defaultEffectiveFrom
                     else yp_EffectiveFrom p),
           r_Until = yp_EffectiveUntil p,
           r_SourceURL = (if yp_SourceURL p = [] then ym_SourceURL m else yp_SourceURL p),
           r_FetchedAt = ym_FetchedAt m\<rparr>)"

fun convertPrices :: "(string \<Rightarrow> decimal option) \<Rightarrow> string \<Rightarrow> string \<Rightarrow> yamlModel \<Rightarrow> yamlPrice list
    \<Rightarrow> Row list \<Rightarrow> load_error + Row list" where
  "convertPrices parseDec name provider m [] rows = Inr rows"
| "convertPrices parseDec name provider m (p # ps) rows =
     (case convertPrice parseDec name provider m p of
        Inl e \<Rightarrow> Inl e
      | Inr r \<Rightarrow> convertPrices parseDec name provider m ps (rows @ [r]))"

fun convertModels :: "(string \<Rightarrow> decimal option) \<Rightarrow> string \<Rightarrow> string \<Rightarrow> yamlModel list \<Rightarrow> Row list
    \<Rightarrow> load_error + Row list" where
  "convertModels parseDec name provider [] rows = Inr rows"
| "convertModels parseDec name provider (m # ms) rows =
     (if ym_Model m = [] then Inl (ModelNoName name)
      else if ym_SourceURL m = [] then Inl (ModelNoSource name (ym_Model m))
      else if ym_FetchedAt m = zero_time then Inl (ModelNoFetchedAt name (ym_Model m))
      else (case convertPrices parseDec name provider m (ym_Prices m) rows of
              Inl e \<Rightarrow> Inl e
            | Inr rows' \<Rightarrow> convertModels parseDec name provider ms rows'))"

definition convertAlias :: "string \<Rightarrow> yamlAlias \<Rightarrow> Alias" where
  "convertAlias provider a =
     \<lparr>a_Alias = ya_Alias a, a_Canonical = ya_Canonical a, a_Provider = provider,
      a_From = (if ya_EffectiveFrom a = zero_time then defaultEffectiveFrom
                else ya_EffectiveFrom a),
      a_Until = ya_EffectiveUntil a\<rparr>"

definition convert :: "(string \<Rightarrow> decimal option) \<Rightarrow> price_file \<Rightarrow> string
    \<Rightarrow> load_error + (Row list \<times> Alias list)" where
  "convert parseDec f name =
     (case convertModels parseDec name (f_Provider f) (f_Models f) [] of
        Inl e \<Rightarrow> Inl e
      | Inr rows \<Rightarrow> Inr (rows, map (convertAlias (f_Provider f)) (f_Aliases f)))"

text \<open>
  A file system as \<open>LoadFS\<close> uses it: the entries of a directory with their kind, and the bytes of a
  file of it. \<open>Price_Loader\<close> bundles the two third-party parsers: \<open>decodeYaml\<close> is the strict YAML decoder.
\<close>

record FS =
  ReadDir :: "string \<Rightarrow> (string \<times> bool) list option"
  ReadFile :: "string \<Rightarrow> string \<Rightarrow> string option"

record Price_Loader =
  decodeYaml :: "string \<Rightarrow> price_file option"
  NewFromString :: "string \<Rightarrow> decimal option"

definition path_Ext :: "string \<Rightarrow> string" where
  "path_Ext p =
     (let tl = takeWhile (\<lambda>c. c \<noteq> CHR ''.'' \<and> c \<noteq> CHR ''/'') (rev p)
      in case drop (length tl) (rev p) of
           [] \<Rightarrow> []
         | c # _ \<Rightarrow> if c = CHR ''.'' then CHR ''.'' # rev tl else [])"

definition yamlNames :: "(string \<times> bool) list \<Rightarrow> string list" where
  "yamlNames entries =
     sort (map fst (filter (\<lambda>(name, isDir). \<not> isDir \<and> path_Ext name = ''.yaml'') entries))"

fun loadFiles :: "Price_Loader \<Rightarrow> FS \<Rightarrow> string \<Rightarrow> string list \<Rightarrow> Row list \<Rightarrow> Alias list
    \<Rightarrow> load_error + (Row list \<times> Alias list)" where
  "loadFiles L fsys dir [] rows aliases = Inr (rows, aliases)"
| "loadFiles L fsys dir (name # names) rows aliases =
     (case ReadFile fsys dir name of
        None \<Rightarrow> Inl (ReadingFile name)
      | Some raw \<Rightarrow>
        (case decodeYaml L raw of
           None \<Rightarrow> Inl (Parsing name)
         | Some f \<Rightarrow>
           if f_Provider f = [] then Inl (NoProvider name)
           else (case convert (NewFromString L) f name of
                   Inl e \<Rightarrow> Inl e
                 | Inr (fileRows, fileAliases) \<Rightarrow>
                     loadFiles L fsys dir names (rows @ fileRows) (aliases @ fileAliases))))"

definition LoadFS :: "Price_Loader \<Rightarrow> FS \<Rightarrow> string \<Rightarrow> load_error + Table" where
  "LoadFS L fsys dir =
     (case ReadDir fsys dir of
        None \<Rightarrow> Inl (ReadingDir dir)
      | Some entries \<Rightarrow>
        (let names = yamlNames entries
         in if names = [] then Inl (NoYamlFiles dir)
            else (case loadFiles L fsys dir names [] [] of
                    Inl e \<Rightarrow> Inl e
                  | Inr (rows, aliases) \<Rightarrow>
                      (case NewTable rows aliases of
                         Inl e \<Rightarrow> Inl (TableError e)
                       | Inr t \<Rightarrow> Inr t))))"

subsection \<open>The table in force (snapshot.go)\<close>

record Snapshot = current :: Table

definition NewSnapshot :: "Table \<Rightarrow> Snapshot" where
  "NewSnapshot t = \<lparr>current = t\<rparr>"

definition ReloadFS :: "Price_Loader \<Rightarrow> Snapshot \<Rightarrow> FS \<Rightarrow> string \<Rightarrow> load_error option \<times> Snapshot" where
  "ReloadFS L s fsys dir =
     (case LoadFS L fsys dir of
        Inl e \<Rightarrow> (Some e, s)
      | Inr t \<Rightarrow> (None, s\<lparr>current := t\<rparr>))"

subsection \<open>Rounding\<close>

lemma flog2_bounds: "0 < x \<Longrightarrow> 2 powi flog2 x \<le> x \<and> x < 2 powi (flog2 x + 1)"
proof (induction x rule: flog2.induct)
  case (1 x)
  consider "2 \<le> x" | "x < 1" | "1 \<le> x" "x < 2" by linarith
  then show ?case
  proof cases
    case 1
    with "1.IH"(1) have "2 powi flog2 (x / 2) \<le> x / 2 \<and> x / 2 < 2 powi (flog2 (x / 2) + 1)" by simp
    with 1 show ?thesis by (simp add: flog2.simps [of x] power_int_add)
  next
    case 2
    with "1.IH"(2) "1.prems"
    have "2 powi flog2 (2 * x) \<le> 2 * x \<and> 2 * x < 2 powi (flog2 (2 * x) + 1)" by simp
    with 2 "1.prems" show ?thesis by (simp add: flog2.simps [of x] power_int_add power_int_diff)
  next
    case 3
    then show ?thesis by (simp add: flog2.simps [of x])
  qed
qed

lemma round_even_of_int [simp]: "round_even (of_int n) = n"
  by (simp add: round_even_def)

lemma powi_quotient: "k \<le> e \<Longrightarrow> 2 powi e / 2 powi k = (2 :: rat) ^ nat (e - k)"
  using power_int_diff [of "2 :: rat" e k] by (simp add: power_int_def)

text \<open>A product of an integer below \<open>2^53\<close> and a power of two down to \<open>2^-1074\<close> is representable.\<close>

lemma fround_exact:
  assumes m: "\<bar>m\<bar> < 2 ^ 53" and e: "-1074 \<le> e" "e \<le> 900"
  shows "fround (of_int m * 2 powi e) = Fin (of_int m * 2 powi e)"
proof (cases "m = 0")
  case True
  then show ?thesis by (simp add: fround_def)
next
  case False
  let ?x = "of_int m * 2 powi e :: rat"
  let ?k = "max (flog2 \<bar>?x\<bar> - 52) (-1074)"
  have "0 < \<bar>?x\<bar>" using False by simp
  then have "2 powi flog2 \<bar>?x\<bar> \<le> \<bar>?x\<bar>" using flog2_bounds by blast
  also have bnd: "\<bar>?x\<bar> < 2 powi (53 + e)"
  proof -
    have "\<bar>of_int m :: rat\<bar> < 2 ^ 53" using m by (simp flip: of_int_abs)
    then show ?thesis by (simp add: abs_mult power_int_add)
  qed
  finally have "flog2 \<bar>?x\<bar> < 53 + e"
    by (rule contrapos_pp) (simp add: not_less power_int_increasing)
  then have ke: "?k \<le> e" using e by simp
  then have "2 powi e / 2 powi ?k = (2 :: rat) ^ nat (e - ?k)" by (rule powi_quotient)
  then have "?x / 2 powi ?k = of_int (m * 2 ^ nat (e - ?k))"
    by (metis of_int_mult of_int_power of_int_numeral times_divide_eq_right)
  then have r: "of_int (round_even (?x / 2 powi ?k)) * 2 powi ?k = ?x"
    using round_even_of_int by (metis nonzero_eq_divide_eq power_int_not_zero zero_neq_numeral)
  have "\<bar>?x\<bar> < 2 ^ 1024"
  proof -
    have "(2 :: rat) powi (53 + e) \<le> 2 powi 1024" using e by (intro power_int_increasing) simp_all
    with bnd show ?thesis by simp
  qed
  with False r show ?thesis by (simp add: fround_def Let_def)
qed

lemma float_of_int_exact: "\<bar>n\<bar> < 2 ^ 53 \<Longrightarrow> float_of_int n = Fin (of_int n)"
  using fround_exact [of n 0] by (simp add: float_of_int_def)

text \<open>The default factor is exact on every threshold below \<open>2^51\<close>.\<close>

lemma default_guard_exact:
  assumes "0 \<le> n" and "n < 2 ^ 51"
  shows "fmul TierGuardFactor (float_of_int n) = Fin (3 / 4 * of_int n)"
proof -
  have "fround (of_int (3 * n) * 2 powi (-2)) = Fin (of_int (3 * n) * 2 powi (-2))"
    using assms by (intro fround_exact) simp_all
  moreover have "of_int (3 * n) * 2 powi (-2) = (3 / 4 * of_int n :: rat)"
    by (simp add: power_int_def power2_eq_square)
  ultimately show ?thesis
    using assms by (simp add: TierGuardFactor_def fmul_def float_of_int_exact)
qed

subsection \<open>The guard only raises\<close>

lemma GuardedTierTotal_loop_ge: "g \<le> GuardedTierTotal_loop est f ts g"
  by (induction est f ts g rule: GuardedTierTotal_loop.induct) (auto intro: order_trans)

lemma GuardedTierTotal_loop_in: "GuardedTierTotal_loop est f ts g \<in> insert g (set ts)"
proof (induction est f ts g rule: GuardedTierTotal_loop.induct)
  case (2 est f t ts g)
  then show ?case
    by (cases "t \<le> 0 \<or> t \<le> est"; cases "fge (float_of_int est) (fmul f (float_of_int t))")
      (auto simp: max_def split: if_splits)
qed simp

lemma GuardedTierTotal_loop_lifts:
  assumes "th \<in> set ts" and "0 < th" and "est < th"
    and "fge (float_of_int est) (fmul f (float_of_int th))"
  shows "th \<le> GuardedTierTotal_loop est f ts g"
  using assms
proof (induction est f ts g rule: GuardedTierTotal_loop.induct)
  case (2 est f t ts g)
  show ?case
  proof (cases "t = th")
    case True
    with "2.prems" show ?thesis
      using GuardedTierTotal_loop_ge [of "max g th" est f ts] by simp
  next
    case False
    with 2 show ?thesis by simp
  qed
qed simp

lemma Thresholds_loop_set:
  "set (Thresholds_loop tier rs out)
     = set out \<union> {r_TierFrom r | r. r \<in> set rs \<and> r_Tier r = tier \<and> 0 < r_TierFrom r}"
  by (induction tier rs out rule: Thresholds_loop.induct) auto

lemma Thresholds_loop_distinct: "distinct out \<Longrightarrow> distinct (Thresholds_loop tier rs out)"
  by (induction tier rs out rule: Thresholds_loop.induct) auto

lemma set_Thresholds:
  "set (Thresholds t m p tier)
     = {r_TierFrom r | r. r \<in> set (rowsFor t m p) \<and> r_Tier r = tier \<and> 0 < r_TierFrom r}"
  by (simp add: Thresholds_def Thresholds_loop_set)

lemma GuardedTierTotal_crosses:
  assumes "th \<in> set ts" and "0 < th" and "th < 2 ^ 51" and "0 \<le> est" and "est < 2 ^ 53"
    and "3 * th \<le> 4 * est"
  shows "th \<le> GuardedTierTotal est ts TierGuardFactor"
proof (cases "th \<le> est")
  case True
  then show ?thesis
    using GuardedTierTotal_loop_ge [of est est TierGuardFactor ts] by (simp add: GuardedTierTotal_def)
next
  case False
  have "(of_int (3 * th) :: rat) \<le> of_int (4 * est)" using assms(6) by (simp only: of_int_le_iff)
  then have "(3 / 4 * of_int th :: rat) \<le> of_int est" by simp
  then have "fge (float_of_int est) (fmul TierGuardFactor (float_of_int th))"
    unfolding float_of_int_exact [of est, simplified abs_of_nonneg [OF assms(4)], OF assms(5)]
      default_guard_exact [OF less_imp_le [OF assms(2)] assms(3)] by simp
  with False assms show ?thesis
    unfolding GuardedTierTotal_def by (intro GuardedTierTotal_loop_lifts) simp_all
qed

subsection \<open>Loading\<close>

lemma convertPrices_Inr:
  "convertPrices pd name pr m ps rows = Inr rows' \<Longrightarrow>
     (\<exists>rs. map (convertPrice pd name pr m) ps = map Inr rs \<and> rows' = rows @ rs)"
proof (induction pd name pr m ps rows rule: convertPrices.induct)
  case (2 pd name pr m p ps rows)
  then obtain r where r: "convertPrice pd name pr m p = Inr r" by (auto split: sum.splits)
  with 2 obtain rs where "map (convertPrice pd name pr m) ps = map Inr rs" "rows' = rows @ r # rs"
    by auto
  with r show ?case by (intro exI [of _ "r # rs"]) simp
qed simp

lemma convertModels_Inr:
  "convertModels pd name pr ms rows = Inr rows' \<Longrightarrow>
     set rows \<subseteq> set rows' \<and>
     (\<forall>m \<in> set ms. \<forall>p \<in> set (ym_Prices m). \<exists>r \<in> set rows'. convertPrice pd name pr m p = Inr r)"
proof (induction pd name pr ms rows rule: convertModels.induct)
  case (2 pd name pr m ms rows)
  then obtain mid where mid: "convertPrices pd name pr m (ym_Prices m) rows = Inr mid"
    and rest: "convertModels pd name pr ms mid = Inr rows'"
    by (auto split: if_splits sum.splits)
  from 2 mid rest have IH: "set mid \<subseteq> set rows'"
    "\<forall>m \<in> set ms. \<forall>p \<in> set (ym_Prices m). \<exists>r \<in> set rows'. convertPrice pd name pr m p = Inr r"
    by (auto split: if_splits)
  from convertPrices_Inr [OF mid] obtain rs
    where rs: "map (convertPrice pd name pr m) (ym_Prices m) = map Inr rs" "mid = rows @ rs" by blast
  have "\<exists>r \<in> set rows'. convertPrice pd name pr m p = Inr r" if "p \<in> set (ym_Prices m)" for p
  proof -
    have "convertPrice pd name pr m p \<in> set (map Inr rs)" using that by (simp flip: rs(1))
    with IH(1) rs(2) show ?thesis by auto
  qed
  with IH rs(2) show ?case by auto
qed simp

lemma loadFiles_Inr:
  "loadFiles L fsys dir names rows aliases = Inr (rows', aliases') \<Longrightarrow>
     set rows \<subseteq> set rows' \<and>
     (\<forall>name \<in> set names. \<exists>raw f. ReadFile fsys dir name = Some raw \<and> decodeYaml L raw = Some f \<and>
        (\<forall>m \<in> set (f_Models f). \<forall>p \<in> set (ym_Prices m). \<exists>r \<in> set rows'.
           convertPrice (NewFromString L) name (f_Provider f) m p = Inr r))"
proof (induction L fsys dir names rows aliases rule: loadFiles.induct)
  case (2 L fsys dir name names rows aliases)
  then obtain raw f fr fa where
    f: "ReadFile fsys dir name = Some raw" "decodeYaml L raw = Some f" "f_Provider f \<noteq> []"
       "convert (NewFromString L) f name = Inr (fr, fa)"
    and rest: "loadFiles L fsys dir names (rows @ fr) (aliases @ fa) = Inr (rows', aliases')"
    by (auto split: option.splits if_splits sum.splits)
  from f(4) have "convertModels (NewFromString L) name (f_Provider f) (f_Models f) [] = Inr fr"
    by (auto simp: convert_def split: sum.splits)
  from convertModels_Inr [OF this] "2.IH" [OF f(1,2,3,4) _ rest] f show ?case by fastforce
qed simp

lemma LoadFS_Inr:
  assumes "LoadFS L fsys dir = Inr t"
  obtains entries rows aliases where "ReadDir fsys dir = Some entries"
    and "loadFiles L fsys dir (yamlNames entries) [] [] = Inr (rows, aliases)"
    and "NewTable rows aliases = Inr t"
  using assms by (auto simp: LoadFS_def Let_def split: option.splits if_splits sum.splits)

lemma convertPrice_Inr:
  "convertPrice pd name pr m p = Inr r \<Longrightarrow>
     pd (yp_USDPerMTok p) = Some (r_USDPerMTok r) \<and> r_Model r = ym_Model m \<and> r_Provider r = pr \<and>
     r_Kind r = yp_Kind p \<and> r_TierFrom r = yp_TierFrom p \<and> r_TierTo r = yp_TierTo p"
  by (auto simp: convertPrice_def split: option.splits)

subsection \<open>Properties\<close>



text \<open>
  C38. A reservation can always be computed. Against a validated table, whatever prompt length and
  output ceiling the client sends, and whatever guard factor is configured, the estimate succeeds with
  a non-negative amount, which prices at least the estimated input tokens.
\<close>

theorem estimate_total:
  assumes "decimal_division ddiv" and "NewTable rows aliases = Inr t"
    and "in_i64 (e_PromptBytes req)" and "0 \<le> e_DefaultMaxTokens req"
  shows "\<exists>amount res. Estimate ddiv t req = Inr (amount, res) \<and> amount = Cost_of res \<and> 0 \<le> amount
    \<and> EstimateInputTokens (e_PromptBytes req) \<le> map_get 0 (estimateCounts t req) KindInput"
proof -
  let ?q = "\<lparr>q_Model = e_Model req, q_Provider = e_Provider req, q_Tier = e_Tier req,
             q_At = e_At req, q_Counts = estimateCounts t req\<rparr>"
  have "0 \<le> EstimateInputTokens (e_PromptBytes req)"
    using assms(3) by (auto simp: EstimateInputTokens_def charsPerToken_def max_i64_def
        min_i64_def i64_id)
  moreover have ge: "est \<le> GuardedTierTotal est ts f" for est ts f
    using GuardedTierTotal_loop_ge by (simp add: GuardedTierTotal_def)
  ultimately have nn: "\<forall>(k, n) \<in> set (estimateCounts t req). 0 \<le> n"
    using assms(4) order_trans by (fastforce simp: estimateCounts_def Let_def)
  have g: "go_map (q_Counts ?q)" by (simp add: estimateCounts_def Let_def kind_defs)
  obtain res where res: "Cost ddiv t ?q = Inr res"
    using cost_total [OF assms(2) g, of ddiv] nn by auto
  have "EstimateInputTokens (e_PromptBytes req) \<le> map_get 0 (estimateCounts t req) KindInput"
    using ge by (simp add: estimateCounts_def Let_def map_get_def)
  with res Cost_nonneg [OF assms(1,2) res] show ?thesis by (auto simp: Estimate_def)
qed

theorem estimate_total_witness:
  "\<exists>amount res. Estimate div16 sample_table \<lparr>e_Model = ''m'', e_Provider = ''openai'',
     e_Tier = TierStandard, e_At = 7, e_PromptBytes = 900, e_MaxTokens = 0, e_DefaultMaxTokens = 1000,
     e_GuardFactor = NaN\<rparr> = Inr (amount, res) \<and> 0 \<le> amount"
  using estimate_total [OF dec16.decimal_division_axioms sample_NewTable,
      of "\<lparr>e_Model = ''m'', e_Provider = ''openai'', e_Tier = TierStandard, e_At = 7,
        e_PromptBytes = 900, e_MaxTokens = 0, e_DefaultMaxTokens = 1000, e_GuardFactor = NaN\<rparr>"]
  by (auto simp: max_i64_def min_i64_def)

text \<open>
  Loading is all or nothing. When a directory loads, every \<open>.yaml\<close> entry of it was read and
  decoded, and every price written in any of them is in the table, with its rate, its billing class
  and its context range, under its model and provider: no file and no line is skipped.
\<close>

theorem load_keeps_every_price:
  assumes "LoadFS L fsys dir = Inr t"
  shows "\<exists>entries. ReadDir fsys dir = Some entries \<and>
    (\<forall>(name, isDir) \<in> set entries. \<not> isDir \<and> path_Ext name = ''.yaml'' \<longrightarrow>
      (\<exists>raw f. ReadFile fsys dir name = Some raw \<and> decodeYaml L raw = Some f \<and>
        (\<forall>m \<in> set (f_Models f). \<forall>p \<in> set (ym_Prices m).
          \<exists>r \<in> set (rowsFor t (ym_Model m) (f_Provider f)).
            NewFromString L (yp_USDPerMTok p) = Some (r_USDPerMTok r) \<and> r_Kind r = yp_Kind p \<and>
            r_TierFrom r = yp_TierFrom p \<and> r_TierTo r = yp_TierTo p)))"
  using assms
proof (rule LoadFS_Inr)
  fix entries rows aliases
  assume e: "ReadDir fsys dir = Some entries" and t: "NewTable rows aliases = Inr t"
    and l: "loadFiles L fsys dir (yamlNames entries) [] [] = Inr (rows, aliases)"
  have in_table: "r \<in> set (rowsFor t (r_Model r) (r_Provider r))" if "r \<in> set rows" for r
    using that rowsFor_NewTable [OF t] by simp
  have "\<exists>raw f. ReadFile fsys dir name = Some raw \<and> decodeYaml L raw = Some f \<and>
      (\<forall>m \<in> set (f_Models f). \<forall>p \<in> set (ym_Prices m).
        \<exists>r \<in> set (rowsFor t (ym_Model m) (f_Provider f)).
          NewFromString L (yp_USDPerMTok p) = Some (r_USDPerMTok r) \<and> r_Kind r = yp_Kind p \<and>
          r_TierFrom r = yp_TierFrom p \<and> r_TierTo r = yp_TierTo p)"
    if "(name, isDir) \<in> set entries" "\<not> isDir" "path_Ext name = ''.yaml''" for name isDir
  proof -
    from that have "name \<in> set (yamlNames entries)" by (force simp: yamlNames_def)
    with loadFiles_Inr [OF l] obtain raw f where f: "ReadFile fsys dir name = Some raw"
      "decodeYaml L raw = Some f" and rows: "\<forall>m \<in> set (f_Models f). \<forall>p \<in> set (ym_Prices m).
        \<exists>r \<in> set rows. convertPrice (NewFromString L) name (f_Provider f) m p = Inr r" by blast
    have "\<exists>r \<in> set (rowsFor t (ym_Model m) (f_Provider f)).
          NewFromString L (yp_USDPerMTok p) = Some (r_USDPerMTok r) \<and> r_Kind r = yp_Kind p \<and>
          r_TierFrom r = yp_TierFrom p \<and> r_TierTo r = yp_TierTo p"
      if "m \<in> set (f_Models f)" "p \<in> set (ym_Prices m)" for m p
    proof -
      from rows that obtain r where r: "r \<in> set rows"
        "convertPrice (NewFromString L) name (f_Provider f) m p = Inr r" by blast
      from convertPrice_Inr [OF r(2)] in_table [OF r(1)] show ?thesis by auto
    qed
    with f show ?thesis by blast
  qed
  with e show ?thesis by auto
qed

text \<open>A directory with one price file, for the witnesses.\<close>

definition sample_loader :: Price_Loader where
  "sample_loader = \<lparr>decodeYaml = (\<lambda>raw. if raw = ''ok'' then Some
       \<lparr>f_Provider = ''openai'', f_Models = [\<lparr>ym_Model = ''m'', ym_SourceURL = ''u'', ym_FetchedAt = 1,
         ym_ContextWindow = 0, ym_MaxOutputTokens = 0, ym_Prices = [\<lparr>yp_Kind = ''input'', yp_Tier = [],
           yp_TierFrom = 0, yp_TierTo = 0, yp_USDPerMTok = ''2'', yp_EffectiveFrom = zero_time,
           yp_EffectiveUntil = zero_time, yp_SourceURL = []\<rparr>]\<rparr>],
        f_Aliases = []\<rparr> else None),
     NewFromString = (\<lambda>s. if s = ''2'' then Some 2 else None)\<rparr>"

definition sample_fs :: "string \<Rightarrow> FS" where
  "sample_fs body = \<lparr>ReadDir = (\<lambda>_. Some [(''p.yaml'', False), (''README.md'', False)]),
     ReadFile = (\<lambda>_ _. Some body)\<rparr>"

definition loaded_row :: Row where
  "loaded_row = \<lparr>r_ID = [], r_Model = ''m'', r_Provider = ''openai'', r_Kind = ''input'',
     r_Tier = TierStandard, r_USDPerMTok = 2, r_TierFrom = 0, r_TierTo = 0,
     r_From = defaultEffectiveFrom, r_Until = zero_time, r_SourceURL = ''u'', r_FetchedAt = 1\<rparr>"

lemma sample_names: "yamlNames [(''p.yaml'', False), (''README.md'', False)] = [''p.yaml'']"
  by (simp add: yamlNames_def path_Ext_def)

lemma sample_LoadFS: "LoadFS sample_loader (sample_fs ''ok'') d
    = Inr \<lparr>t_rows = [((''m'', ''openai''), [loaded_row])], t_aliases = []\<rparr>"
proof -
  have "loadFiles sample_loader (sample_fs ''ok'') d [''p.yaml''] [] [] = Inr ([loaded_row], [])"
    by (simp add: sample_loader_def sample_fs_def convert_def convertPrice_def loaded_row_def
        zero_time_def)
  moreover have "NewTable [loaded_row] [] = Inr \<lparr>t_rows = [((''m'', ''openai''), [loaded_row])],
      t_aliases = []\<rparr>"
    by (simp add: NewTable_def loaded_row_def validateRow_def Kind_Valid_def AllKinds_def kind_defs
        Tier_Valid_def AllTiers_def tier_defs zero_time_def defaultEffectiveFrom_def map_append_def
        map_get_def danglingAlias_def checkOverlaps_def)
  ultimately show ?thesis
    by (simp add: LoadFS_def sample_fs_def sample_names Let_def)
qed

theorem load_keeps_every_price_witness:
  "\<exists>entries. ReadDir (sample_fs ''ok'') ''d'' = Some entries \<and> entries \<noteq> []"
  using load_keeps_every_price [OF sample_LoadFS] by (auto simp: sample_fs_def)

text \<open>
  C39. Reloading can never take pricing down. After any sequence of reload attempts, from whatever
  directories, the table in force is the one the last successful attempt loaded, or the initial one
  when none succeeded; and it is always a validated table.
\<close>

definition reloads :: "Price_Loader \<Rightarrow> (FS \<times> string) list \<Rightarrow> Snapshot \<Rightarrow> Snapshot" where
  "reloads L = fold (\<lambda>(fsys, dir) s. snd (ReloadFS L s fsys dir))"

lemma reloads_current:
  "current (reloads L rs s)
     = last (current s # concat (map (\<lambda>(fsys, dir). case LoadFS L fsys dir of Inl e \<Rightarrow> [] | Inr t \<Rightarrow> [t]) rs))"
  by (induction rs arbitrary: s) (auto simp: reloads_def ReloadFS_def split: sum.splits)

theorem reload_never_breaks:
  assumes "NewTable rows aliases = Inr t0"
  shows "current (reloads L rs (NewSnapshot t0))
      = last (t0 # concat (map (\<lambda>(fsys, dir). case LoadFS L fsys dir of Inl e \<Rightarrow> [] | Inr t \<Rightarrow> [t]) rs))
    \<and> (\<exists>rows' aliases'. NewTable rows' aliases' = Inr (current (reloads L rs (NewSnapshot t0))))"
proof -
  let ?ts = "t0 # concat (map (\<lambda>(fsys, dir). case LoadFS L fsys dir of Inl e \<Rightarrow> [] | Inr t \<Rightarrow> [t]) rs)"
  have "\<exists>rows' aliases'. NewTable rows' aliases' = Inr t" if "t \<in> set ?ts" for t
  proof (cases "t = t0")
    case False
    with that obtain fsys dir where "LoadFS L fsys dir = Inr t" by (auto split: sum.splits)
    then show ?thesis by (rule LoadFS_Inr) blast
  qed (use assms in blast)
  moreover have "last ?ts \<in> set ?ts" by (rule last_in_set) simp
  ultimately show ?thesis by (simp only: reloads_current) (simp add: NewSnapshot_def)
qed

theorem reload_never_breaks_witness:
  "current (reloads sample_loader [(sample_fs ''ok'', ''d''), (sample_fs ''broken'', ''d'')]
     (NewSnapshot sample_table)) = \<lparr>t_rows = [((''m'', ''openai''), [loaded_row])], t_aliases = []\<rparr>"
proof -
  have "\<exists>e. LoadFS sample_loader (sample_fs ''broken'') ''d'' = Inl e"
    by (simp add: LoadFS_def sample_fs_def sample_names Let_def) (simp add: sample_loader_def)
  then show ?thesis
    using reload_never_breaks [OF sample_NewTable, of sample_loader
        "[(sample_fs ''ok'', ''d''), (sample_fs ''broken'', ''d'')]"]
    by (auto simp: sample_LoadFS)
qed

end
