(* ===== verification/Json.thy ===== *)
theory Json
  imports Prelude
begin

text \<open>
  What the program uses of the standard library's JSON decoder: documents, and decoding a document
  into a struct field by field.

  A body is its document, or no document when the bytes are not JSON; \<open>json_parse\<close> reads the bytes. Bytes
  above 127 inside strings are kept (the decoder replaces the ones that are not UTF-8), and the
  decoder's limit of ten thousand nested values is not modelled. A number keeps its literal,
  because an integer field accepts only a literal that is an integer of its width. Object members stay
  in the order of the text, duplicates included: the decoder stores them one after the other, so a
  later member overwrites, or merges into, an earlier one. The decoder reports a type mismatch after
  it has finished the document; every caller discards what was decoded then, so a failure is None.
\<close>

datatype json = JNull | JBool bool | JNum string | JStr string | JArr "json list"
  | JObj "(string \<times> json) list"

type_synonym body = "json option"

subsection \<open>Syntax\<close>

definition is_digit :: "char \<Rightarrow> bool" where
  "is_digit c \<longleftrightarrow> CHR ''0'' \<le> c \<and> c \<le> CHR ''9''"

definition skip_ws :: "string \<Rightarrow> string" where
  "skip_ws = dropWhile (\<lambda>c. c \<in> {CHR '' '', CHR 0x09, CHR 0x0A, CHR 0x0D})"

definition hex_value :: "char \<Rightarrow> nat option" where
  "hex_value c =
     (if is_digit c then Some (of_char c - 48)
      else if CHR ''a'' \<le> c \<and> c \<le> CHR ''f'' then Some (of_char c - 87)
      else if CHR ''A'' \<le> c \<and> c \<le> CHR ''F'' then Some (of_char c - 55)
      else None)"

fun hex4 :: "string \<Rightarrow> nat option" where
  "hex4 (a # b # c # d # _) =
     (case (hex_value a, hex_value b, hex_value c, hex_value d) of
        (Some w, Some x, Some y, Some z) \<Rightarrow> Some (4096 * w + 256 * x + 16 * y + z)
      | _ \<Rightarrow> None)"
| "hex4 _ = None"

definition utf8 :: "nat \<Rightarrow> string" where
  "utf8 n = map char_of
     (if n < 128 then [n]
      else if n < 2048 then [192 + n div 64, 128 + n mod 64]
      else if n < 65536 then [224 + n div 4096, 128 + n div 64 mod 64, 128 + n mod 64]
      else [240 + n div 262144, 128 + n div 4096 mod 64, 128 + n div 64 mod 64, 128 + n mod 64])"

text \<open>
  A \<open>\u\<close> escape, without its first two characters: the characters it denotes and how many more were
  read; a surrogate pair is one code point, a lone surrogate the replacement character.
\<close>

definition unicode_escape :: "string \<Rightarrow> (string \<times> nat) option" where
  "unicode_escape s =
     (case hex4 s of
        None \<Rightarrow> None
      | Some n \<Rightarrow>
        if 0xD800 \<le> n \<and> n < 0xDC00
        then (case (if has_prefix [CHR 0x5C, CHR ''u''] (drop 4 s) then hex4 (drop 6 s) else None) of
                Some m \<Rightarrow> if 0xDC00 \<le> m \<and> m < 0xE000
                  then Some (utf8 (0x10000 + (n - 0xD800) * 1024 + (m - 0xDC00)), 10)
                  else Some (utf8 0xFFFD, 4)
              | None \<Rightarrow> Some (utf8 0xFFFD, 4))
        else if 0xDC00 \<le> n \<and> n < 0xE000 then Some (utf8 0xFFFD, 4)
        else Some (utf8 n, 4))"

definition simple_escape :: "char \<Rightarrow> char option" where
  "simple_escape c =
     (if c = CHR 0x22 \<or> c = CHR 0x5C \<or> c = CHR ''/'' then Some c
      else if c = CHR ''b'' then Some (CHR 0x08) else if c = CHR ''f'' then Some (CHR 0x0C)
      else if c = CHR ''n'' then Some (CHR 0x0A) else if c = CHR ''r'' then Some (CHR 0x0D)
      else if c = CHR ''t'' then Some (CHR 0x09) else None)"

text \<open>
  The parsers take fuel. A string consumes a character per call, and a value, an element or a member at
  least one character per three calls, so three times the length of the text is always enough.
\<close>

fun p_string :: "nat \<Rightarrow> string \<Rightarrow> (string \<times> string) option" where
  "p_string 0 s = None"
| "p_string (Suc n) s =
     (case s of
        [] \<Rightarrow> None
      | c # cs \<Rightarrow>
        if c = CHR 0x22 then Some ([], cs)
        else if c = CHR 0x5C then
          (case cs of
             [] \<Rightarrow> None
           | e # es \<Rightarrow>
             if e = CHR ''u'' then
               (case unicode_escape es of
                  None \<Rightarrow> None
                | Some (u, k) \<Rightarrow> map_option (\<lambda>(x, r). (u @ x, r)) (p_string n (drop k es)))
             else (case simple_escape e of
                     None \<Rightarrow> None
                   | Some u \<Rightarrow> map_option (\<lambda>(x, r). (u # x, r)) (p_string n es)))
        else if of_char c < (32 :: nat) then None
        else map_option (\<lambda>(x, r). (c # x, r)) (p_string n cs))"

definition p_number :: "string \<Rightarrow> (string \<times> string) option" where
  "p_number s =
     (let sg = takeWhile (\<lambda>c. c = CHR ''-'') (take 1 s);
          s1 = drop (length sg) s;
          ip = (if take 1 s1 = ''0'' then ''0'' else takeWhile is_digit s1);
          s2 = drop (length ip) s1;
          fp = (if take 1 s2 = ''.'' \<and> takeWhile is_digit (drop 1 s2) \<noteq> []
                then CHR ''.'' # takeWhile is_digit (drop 1 s2) else []);
          s3 = drop (length fp) s2;
          e = (if take 1 s3 = ''e'' \<or> take 1 s3 = ''E'' then
                 (let s4 = drop 1 s3;
                      es = takeWhile (\<lambda>c. c = CHR ''+'' \<or> c = CHR ''-'') (take 1 s4);
                      ds = takeWhile is_digit (drop (length es) s4)
                  in if ds = [] then [] else take 1 s3 @ es @ ds)
               else [])
      in if ip = [] then None else Some (sg @ ip @ fp @ e, drop (length e) s3))"

fun p_value :: "nat \<Rightarrow> string \<Rightarrow> (json \<times> string) option"
and p_elems :: "nat \<Rightarrow> string \<Rightarrow> (json list \<times> string) option"
and p_members :: "nat \<Rightarrow> string \<Rightarrow> ((string \<times> json) list \<times> string) option" where
  "p_value 0 s = None"
| "p_value (Suc n) s =
     (case skip_ws s of
        [] \<Rightarrow> None
      | c # cs \<Rightarrow>
        if c = CHR 0x22 then map_option (\<lambda>(x, r). (JStr x, r)) (p_string (Suc (length cs)) cs)
        else if c = CHR ''{'' then
          (case skip_ws cs of
             d # ds \<Rightarrow> if d = CHR ''}'' then Some (JObj [], ds)
                       else map_option (\<lambda>(x, r). (JObj x, r)) (p_members n cs)
           | [] \<Rightarrow> None)
        else if c = CHR ''['' then
          (case skip_ws cs of
             d # ds \<Rightarrow> if d = CHR '']'' then Some (JArr [], ds)
                       else map_option (\<lambda>(x, r). (JArr x, r)) (p_elems n cs)
           | [] \<Rightarrow> None)
        else if has_prefix ''true'' (c # cs) then Some (JBool True, drop 3 cs)
        else if has_prefix ''false'' (c # cs) then Some (JBool False, drop 4 cs)
        else if has_prefix ''null'' (c # cs) then Some (JNull, drop 3 cs)
        else map_option (\<lambda>(x, r). (JNum x, r)) (p_number (c # cs)))"
| "p_elems 0 s = None"
| "p_elems (Suc n) s =
     (case p_value n s of
        None \<Rightarrow> None
      | Some (v, r) \<Rightarrow>
        (case skip_ws r of
           [] \<Rightarrow> None
         | c # cs \<Rightarrow>
           if c = CHR '']'' then Some ([v], cs)
           else if c = CHR '','' then map_option (\<lambda>(x, r). (v # x, r)) (p_elems n cs)
           else None))"
| "p_members 0 s = None"
| "p_members (Suc n) s =
     (case skip_ws s of
        [] \<Rightarrow> None
      | q # qs \<Rightarrow>
        if q \<noteq> CHR 0x22 then None
        else (case p_string (Suc (length qs)) qs of
           None \<Rightarrow> None
         | Some (k, r) \<Rightarrow>
           (case skip_ws r of
              [] \<Rightarrow> None
            | c # cs \<Rightarrow>
              if c \<noteq> CHR '':'' then None
              else (case p_value n cs of
                 None \<Rightarrow> None
               | Some (v, r2) \<Rightarrow>
                 (case skip_ws r2 of
                    [] \<Rightarrow> None
                  | d # ds \<Rightarrow>
                    if d = CHR ''}'' then Some ([(k, v)], ds)
                    else if d = CHR '','' then map_option (\<lambda>(x, r). ((k, v) # x, r)) (p_members n ds)
                    else None)))))"

definition json_parse :: "string \<Rightarrow> body" where
  "json_parse s =
     (case p_value (3 * length s + 3) s of
        Some (v, r) \<Rightarrow> if skip_ws r = [] then Some v else None
      | None \<Rightarrow> None)"

subsection \<open>Integer literals\<close>

fun digits_value :: "int \<Rightarrow> string \<Rightarrow> int option" where
  "digits_value acc [] = Some acc"
| "digits_value acc (c # cs) =
     (if CHR ''0'' \<le> c \<and> c \<le> CHR ''9''
      then digits_value (10 * acc + (of_char c - of_char (CHR ''0''))) cs else None)"

definition ParseInt :: "string \<Rightarrow> int option" where
  "ParseInt lit =
     (let v = (case lit of
                 [] \<Rightarrow> None
               | c # cs \<Rightarrow>
                   if c = CHR ''-'' then (if cs = [] then None else map_option uminus (digits_value 0 cs))
                   else digits_value 0 lit)
      in case v of
           None \<Rightarrow> None
         | Some n \<Rightarrow> if in_i64 n then Some n else None)"

lemma ParseInt_range: "ParseInt lit = Some n \<Longrightarrow> in_i64 n"
  by (auto simp: ParseInt_def Let_def split: option.splits if_splits)

subsection \<open>Structs\<close>

text \<open>
  Member names match a field exactly or, failing that, under simple case folding, where the long s
  and the Kelvin sign fold to letters.
\<close>

fun foldName :: "string \<Rightarrow> string" where
  "foldName [] = []"
| "foldName [c] = [lower_char c]"
| "foldName [c, d] =
     (if of_char c = (197 :: nat) \<and> of_char d = (191 :: nat) then [CHR ''s'']
      else [lower_char c, lower_char d])"
| "foldName (c # d # e # s) =
     (if of_char c = (197 :: nat) \<and> of_char d = (191 :: nat) then CHR ''s'' # foldName (e # s)
      else if of_char c = (226 :: nat) \<and> of_char d = (132 :: nat) \<and> of_char e = (170 :: nat)
        then CHR ''k'' # foldName s
      else lower_char c # foldName (d # e # s))"

type_synonym 's field = "string \<times> (json \<Rightarrow> 's \<Rightarrow> 's option)"

definition find_field :: "'s field list \<Rightarrow> string \<Rightarrow> (json \<Rightarrow> 's \<Rightarrow> 's option) option" where
  "find_field fs k =
     (case map_of fs k of
        Some f \<Rightarrow> Some f
      | None \<Rightarrow> map_option snd (find (\<lambda>(name, _). foldName name = foldName k) fs))"

fun dec_members :: "'s field list \<Rightarrow> (string \<times> json) list \<Rightarrow> 's \<Rightarrow> 's option" where
  "dec_members fs [] s = Some s"
| "dec_members fs ((k, v) # kvs) s =
     (case find_field fs k of
        None \<Rightarrow> dec_members fs kvs s
      | Some f \<Rightarrow> (case f v s of None \<Rightarrow> None | Some s' \<Rightarrow> dec_members fs kvs s'))"

definition dec_struct :: "'s field list \<Rightarrow> json \<Rightarrow> 's \<Rightarrow> 's option" where
  "dec_struct fs j s =
     (case j of JObj kvs \<Rightarrow> dec_members fs kvs s | JNull \<Rightarrow> Some s | _ \<Rightarrow> None)"

definition dec_int :: "(int \<Rightarrow> 's \<Rightarrow> 's) \<Rightarrow> json \<Rightarrow> 's \<Rightarrow> 's option" where
  "dec_int put j s =
     (case j of
        JNull \<Rightarrow> Some s
      | JNum lit \<Rightarrow> map_option (\<lambda>n. put n s) (ParseInt lit)
      | _ \<Rightarrow> None)"

definition dec_string :: "(string \<Rightarrow> 's \<Rightarrow> 's) \<Rightarrow> json \<Rightarrow> 's \<Rightarrow> 's option" where
  "dec_string put j s = (case j of JNull \<Rightarrow> Some s | JStr x \<Rightarrow> Some (put x s) | _ \<Rightarrow> None)"

definition dec_bool :: "(bool \<Rightarrow> 's \<Rightarrow> 's) \<Rightarrow> json \<Rightarrow> 's \<Rightarrow> 's option" where
  "dec_bool put j s = (case j of JNull \<Rightarrow> Some s | JBool b \<Rightarrow> Some (put b s) | _ \<Rightarrow> None)"

text \<open>A raw message keeps whatever document the member has, a null included.\<close>

definition dec_raw :: "(json \<Rightarrow> 's \<Rightarrow> 's) \<Rightarrow> json \<Rightarrow> 's \<Rightarrow> 's option" where
  "dec_raw put j s = Some (put j s)"

text \<open>A pointer is set to nil by a null, and otherwise decoded into what it already points at.\<close>

definition dec_ptr :: "('s \<Rightarrow> 'a option) \<Rightarrow> ('a option \<Rightarrow> 's \<Rightarrow> 's) \<Rightarrow> 'a \<Rightarrow> (json \<Rightarrow> 'a \<Rightarrow> 'a option)
    \<Rightarrow> json \<Rightarrow> 's \<Rightarrow> 's option" where
  "dec_ptr get put zero dec j s =
     (case j of
        JNull \<Rightarrow> Some (put None s)
      | _ \<Rightarrow> map_option (\<lambda>x. put (Some x) s)
               (dec j (case get s of None \<Rightarrow> zero | Some x \<Rightarrow> x)))"

text \<open>A value that is not behind a pointer and not null-aware: a nested struct.\<close>

definition dec_nested :: "('s \<Rightarrow> 'a) \<Rightarrow> ('a \<Rightarrow> 's \<Rightarrow> 's) \<Rightarrow> (json \<Rightarrow> 'a \<Rightarrow> 'a option)
    \<Rightarrow> json \<Rightarrow> 's \<Rightarrow> 's option" where
  "dec_nested get put dec j s = map_option (\<lambda>x. put x s) (dec j (get s))"

text \<open>
  A slice is decoded element by element into fresh elements; a null makes it nil. (When one member
  occurs twice in an object, the decoder may reuse elements of the slice the first occurrence left;
  the model gives the second occurrence fresh ones.)
\<close>

fun dec_elems :: "'a \<Rightarrow> (json \<Rightarrow> 'a \<Rightarrow> 'a option) \<Rightarrow> json list \<Rightarrow> 'a list option" where
  "dec_elems zero dec [] = Some []"
| "dec_elems zero dec (j # js) =
     (case dec j zero of
        None \<Rightarrow> None
      | Some x \<Rightarrow> map_option (\<lambda>xs. x # xs) (dec_elems zero dec js))"

definition dec_slice :: "('a list \<Rightarrow> 's \<Rightarrow> 's) \<Rightarrow> 'a \<Rightarrow> (json \<Rightarrow> 'a \<Rightarrow> 'a option)
    \<Rightarrow> json \<Rightarrow> 's \<Rightarrow> 's option" where
  "dec_slice put zero dec j s =
     (case j of
        JNull \<Rightarrow> Some (put [] s)
      | JArr js \<Rightarrow> map_option (\<lambda>xs. put xs s) (dec_elems zero dec js)
      | _ \<Rightarrow> None)"

text \<open>\<open>json.Unmarshal\<close> into a zero struct.\<close>

definition Unmarshal :: "(json \<Rightarrow> 's \<Rightarrow> 's option) \<Rightarrow> 's \<Rightarrow> body \<Rightarrow> 's option" where
  "Unmarshal dec zero b = (case b of None \<Rightarrow> None | Some j \<Rightarrow> dec j zero)"

text \<open>\<open>json.Unmarshal\<close> into a \<open>map[string]json.RawMessage\<close>; a null leaves the map nil.\<close>

fun raw_members :: "(string \<times> json) list \<Rightarrow> (string \<times> json) list \<Rightarrow> (string \<times> json) list" where
  "raw_members [] m = m"
| "raw_members ((k, v) # kvs) m = raw_members kvs (AList.update k v m)"

definition raw_map :: "body \<Rightarrow> (string \<times> json) list option" where
  "raw_map b =
     (case b of Some (JObj kvs) \<Rightarrow> Some (raw_members kvs []) | Some JNull \<Rightarrow> Some [] | _ \<Rightarrow> None)"

subsection \<open>Invariants of a decoded struct\<close>

text \<open>A property every field decoder keeps holds of the decoded struct.\<close>

lemma dec_members_inv:
  assumes "\<And>name f j s s'. (name, f) \<in> set fs \<Longrightarrow> P s \<Longrightarrow> f j s = Some s' \<Longrightarrow> P s'"
  shows "dec_members fs kvs s = Some s' \<Longrightarrow> P s \<Longrightarrow> P s'"
proof (induction kvs arbitrary: s)
  case (Cons kv kvs)
  obtain k v where kv: "kv = (k, v)" by (cases kv)
  show ?case
  proof (cases "find_field fs k")
    case None
    with Cons kv show ?thesis by simp
  next
    case (Some f)
    then obtain name where f: "(name, f) \<in> set fs"
      by (auto simp: find_field_def split: option.splits dest: map_of_SomeD find_SomeD)
    from Some Cons.prems kv obtain s1 where s1: "f v s = Some s1" "dec_members fs kvs s1 = Some s'"
      by (auto split: option.splits)
    from assms [OF f Cons.prems(2) s1(1)] Cons.IH [OF s1(2)] show ?thesis by simp
  qed
qed simp

lemma dec_struct_inv:
  assumes "dec_struct fs j s = Some s'" and "P s"
    and "\<And>name f j s s'. (name, f) \<in> set fs \<Longrightarrow> P s \<Longrightarrow> f j s = Some s' \<Longrightarrow> P s'"
  shows "P s'"
proof (cases j)
  case (JObj kvs)
  with assms(1) have "dec_members fs kvs s = Some s'" by (simp add: dec_struct_def)
  with assms(3) show ?thesis using assms(2) by (rule dec_members_inv)
qed (use assms(1,2) in \<open>simp_all add: dec_struct_def\<close>)

lemma dec_int_inv:
  "dec_int put j s = Some s' \<Longrightarrow> P s \<Longrightarrow> (\<And>n. in_i64 n \<Longrightarrow> P (put n s)) \<Longrightarrow> P s'"
  by (auto simp: dec_int_def split: json.splits dest: ParseInt_range)

lemma raw_members_go_map [simp]: "go_map m \<Longrightarrow> go_map (raw_members kvs m)"
  by (induction kvs m rule: raw_members.induct) auto

lemma raw_map_go_map: "raw_map b = Some m \<Longrightarrow> go_map m"
  by (auto simp: raw_map_def split: option.splits json.splits)

text \<open>A field of a struct is decided by the members that fold to its name alone, in their order.\<close>

lemma find_field_folded:
  assumes "distinct (map (foldName \<circ> fst) fs)"
  shows "find_field fs k = map_of (map (\<lambda>(n, f). (foldName n, f)) fs) (foldName k)"
  using assms
proof (induction fs)
  case (Cons nf fs)
  obtain n f where nf: "nf = (n, f)" by (cases nf)
  have notin: "map_of fs k = None" if "foldName n = foldName k"
    using Cons.prems that nf by (force simp: map_of_eq_None_iff)
  show ?case
  proof (cases "foldName n = foldName k")
    case True
    with notin show ?thesis by (simp add: nf find_field_def)
  next
    case False
    then have "find_field (nf # fs) k = find_field fs k" by (cases "map_of fs k") (auto simp: nf find_field_def)
    also have "\<dots> = map_of (map (\<lambda>(n, f). (foldName n, f)) fs) (foldName k)" using Cons by simp
    finally show ?thesis using False by (simp add: nf)
  qed
qed (simp add: find_field_def)

lemma dec_members_get:
  assumes "distinct (map (foldName \<circ> fst) fs)" "(name, f) \<in> set fs"
    and "\<And>v s s'. f v s = Some s' \<Longrightarrow> get s' = step v (get s)"
    and "\<And>n g v s s'. (n, g) \<in> set fs \<Longrightarrow> n \<noteq> name \<Longrightarrow> g v s = Some s' \<Longrightarrow> get s' = get s"
  shows "dec_members fs kvs s = Some s'
    \<Longrightarrow> get s' = fold step (map snd (filter (\<lambda>(k, _). foldName k = foldName name) kvs)) (get s)"
proof (induction kvs arbitrary: s)
  case (Cons kv kvs)
  obtain k v where kv: "kv = (k, v)" by (cases kv)
  have dn: "distinct (map fst (map (\<lambda>(n, f). (foldName n, f)) fs))"
    using assms(1) by (simp add: comp_def case_prod_unfold)
  show ?case
  proof (cases "find_field fs k")
    case None
    then have "foldName k \<noteq> foldName name"
      using assms(2) by (force simp: find_field_folded [OF assms(1)] map_of_eq_None_iff)
    with Cons None kv show ?thesis by simp
  next
    case (Some g)
    with Cons.prems kv obtain s1 where s1: "g v s = Some s1" "dec_members fs kvs s1 = Some s'"
      by (auto split: option.splits)
    from Some obtain n where n: "(n, g) \<in> set fs" "foldName n = foldName k"
      by (auto simp: find_field_folded [OF assms(1)] dest!: map_of_SomeD)
    have "get s1 = (if foldName k = foldName name then step v (get s) else get s)"
    proof (cases "n = name")
      case True
      have "(foldName name, f) \<in> set (map (\<lambda>(n, f). (foldName n, f)) fs)"
        "(foldName name, g) \<in> set (map (\<lambda>(n, f). (foldName n, f)) fs)" using assms(2) n True by force+
      with dn have "g = f" by (metis Some_eq_map_of_iff option.inject)
      with True n(2) assms(3) s1(1) show ?thesis by simp
    next
      case False
      moreover have "foldName n \<noteq> foldName name"
      proof
        assume "foldName n = foldName name"
        with assms(1) n(1) assms(2) have "(n, g) = (name, f)"
          by (metis (mono_tags, lifting) comp_apply distinct_map fst_conv inj_onD)
        with False show False by simp
      qed
      ultimately show ?thesis using assms(4) [OF n(1) _ s1(1)] n(2) by simp
    qed
    with Cons.IH [OF s1(2)] kv show ?thesis by simp
  qed
qed simp

end
