(* ===== verification/Normalise.thy ===== *)
theory Normalise
  imports Price_Table Json
begin

text \<open>
  Package \<open>pricing\<close>, file \<open>normalise.go\<close>: translating the usage block of each provider's response into
  billing classes.

  The lemmas show the accounting identity of each provider (which counts are subsets of a total and
  which are separate from it), that every count handed to the price table is non-negative, and that
  the cost calculation therefore never fails on a provider's usage.
\<close>

datatype usage_error = UsageParse | ErrNoUsage

record Normalised =
  Counts :: counts
  Degraded :: bool
  ParseErrors :: int

definition zero_Normalised :: Normalised where
  "zero_Normalised = \<lparr>Counts = [], Degraded = False, ParseErrors = 0\<rparr>"

definition degrade :: "Normalised \<Rightarrow> Normalised" where
  "degrade n = n\<lparr>Degraded := True, ParseErrors := ParseErrors n + 1\<rparr>"

definition set_count :: "kind \<Rightarrow> int \<Rightarrow> Normalised \<Rightarrow> Normalised" where
  "set_count k v n = n\<lparr>Counts := AList.update k v (Counts n)\<rparr>"

fun clampNegative_loop :: "counts \<Rightarrow> Normalised \<Rightarrow> Normalised" where
  "clampNegative_loop [] n = n"
| "clampNegative_loop ((kind, v) # c) n =
     clampNegative_loop c (if v < 0 then set_count kind 0 (degrade n) else n)"

definition clampNegative :: "Normalised \<Rightarrow> Normalised" where
  "clampNegative n = clampNegative_loop (Counts n) n"

subsection \<open>OpenAI\<close>

record openai_cache = oc_Cached :: int  oc_CacheWrite :: int
record openai_reason = or_Reasoning :: int

record openai_usage =
  ou_PromptTokens :: int
  ou_CompletionTokens :: int
  ou_InputTokens :: int
  ou_OutputTokens :: int
  ou_PromptDetails :: "openai_cache option"
  ou_InputDetails :: "openai_cache option"
  ou_CompletionDetails :: "openai_reason option"
  ou_OutputDetails :: "openai_reason option"

definition zero_openai_usage :: openai_usage where
  "zero_openai_usage = \<lparr>ou_PromptTokens = 0, ou_CompletionTokens = 0, ou_InputTokens = 0,
     ou_OutputTokens = 0, ou_PromptDetails = None, ou_InputDetails = None,
     ou_CompletionDetails = None, ou_OutputDetails = None\<rparr>"

definition dec_openai_cache :: "json \<Rightarrow> openai_cache \<Rightarrow> openai_cache option" where
  "dec_openai_cache = dec_struct
     [(''cached_tokens'', dec_int (\<lambda>n s. s\<lparr>oc_Cached := n\<rparr>)),
      (''cache_write_tokens'', dec_int (\<lambda>n s. s\<lparr>oc_CacheWrite := n\<rparr>))]"

definition dec_openai_reason :: "json \<Rightarrow> openai_reason \<Rightarrow> openai_reason option" where
  "dec_openai_reason = dec_struct
     [(''reasoning_tokens'', dec_int (\<lambda>n s. s\<lparr>or_Reasoning := n\<rparr>))]"

abbreviation zero_cache :: openai_cache where "zero_cache \<equiv> \<lparr>oc_Cached = 0, oc_CacheWrite = 0\<rparr>"
abbreviation zero_reason :: openai_reason where "zero_reason \<equiv> \<lparr>or_Reasoning = 0\<rparr>"

definition dec_openai_usage :: "json \<Rightarrow> openai_usage \<Rightarrow> openai_usage option" where
  "dec_openai_usage = dec_struct
     [(''prompt_tokens'', dec_int (\<lambda>n s. s\<lparr>ou_PromptTokens := n\<rparr>)),
      (''completion_tokens'', dec_int (\<lambda>n s. s\<lparr>ou_CompletionTokens := n\<rparr>)),
      (''input_tokens'', dec_int (\<lambda>n s. s\<lparr>ou_InputTokens := n\<rparr>)),
      (''output_tokens'', dec_int (\<lambda>n s. s\<lparr>ou_OutputTokens := n\<rparr>)),
      (''prompt_tokens_details'', dec_ptr ou_PromptDetails (\<lambda>x s. s\<lparr>ou_PromptDetails := x\<rparr>)
         zero_cache dec_openai_cache),
      (''input_tokens_details'', dec_ptr ou_InputDetails (\<lambda>x s. s\<lparr>ou_InputDetails := x\<rparr>)
         zero_cache dec_openai_cache),
      (''completion_tokens_details'', dec_ptr ou_CompletionDetails
         (\<lambda>x s. s\<lparr>ou_CompletionDetails := x\<rparr>) zero_reason dec_openai_reason),
      (''output_tokens_details'', dec_ptr ou_OutputDetails (\<lambda>x s. s\<lparr>ou_OutputDetails := x\<rparr>)
         zero_reason dec_openai_reason)]"

text \<open>The anonymous body struct has one pointer member, so it is an option.\<close>

definition usage_member :: "string \<Rightarrow> 'u \<Rightarrow> (json \<Rightarrow> 'u \<Rightarrow> 'u option) \<Rightarrow> body \<Rightarrow> 'u option option" where
  "usage_member name zero dec = Unmarshal (dec_struct [(name, dec_ptr id (\<lambda>x _. x) zero dec)]) None"

definition openai_body :: "body \<Rightarrow> openai_usage option option" where
  "openai_body = usage_member ''usage'' zero_openai_usage dec_openai_usage"

definition openai_prompt :: "openai_usage \<Rightarrow> int" where
  "openai_prompt u = (if ou_PromptTokens u = 0 then ou_InputTokens u else ou_PromptTokens u)"

definition openai_output :: "openai_usage \<Rightarrow> int" where
  "openai_output u = (if ou_CompletionTokens u = 0 then ou_OutputTokens u else ou_CompletionTokens u)"

definition openai_cached :: "openai_usage \<Rightarrow> int \<times> int" where
  "openai_cached u =
     (case ou_PromptDetails u of
        Some d \<Rightarrow> (oc_Cached d, oc_CacheWrite d)
      | None \<Rightarrow> (case ou_InputDetails u of
          Some d \<Rightarrow> (oc_Cached d, oc_CacheWrite d)
        | None \<Rightarrow> (0, 0)))"

definition openai_reasoning :: "openai_usage \<Rightarrow> int" where
  "openai_reasoning u =
     (case ou_CompletionDetails u of
        Some d \<Rightarrow> or_Reasoning d
      | None \<Rightarrow> (case ou_OutputDetails u of Some d \<Rightarrow> or_Reasoning d | None \<Rightarrow> 0))"

definition openai_counts :: "openai_usage \<Rightarrow> Normalised" where
  "openai_counts u =
     (let promptTotal = openai_prompt u;
          outputTotal = openai_output u;
          (cached, cacheWrite) = openai_cached u;
          reasoning = openai_reasoning u;
          plain = i64 (i64 (promptTotal - cached) - cacheWrite);
          out = (if plain < 0 then degrade zero_Normalised else zero_Normalised);
          plain' = (if plain < 0 then 0 else plain);
          out = set_count KindInput plain' out;
          out = set_count KindCachedRead cached out;
          out = set_count KindCacheWrite5m cacheWrite out;
          out = set_count KindOutput outputTotal out;
          out = set_count KindReasoning reasoning out;
          out = (if reasoning > outputTotal then degrade out else out)
      in clampNegative out)"

definition NormaliseOpenAI :: "body \<Rightarrow> usage_error + Normalised" where
  "NormaliseOpenAI payload =
     (case openai_body payload of
        None \<Rightarrow> Inl UsageParse
      | Some None \<Rightarrow> Inl ErrNoUsage
      | Some (Some u) \<Rightarrow> Inr (openai_counts u))"

subsection \<open>Anthropic\<close>

record anthropic_creation = ac_5m :: int  ac_1h :: int

record anthropic_usage =
  au_InputTokens :: int
  au_OutputTokens :: int
  au_CacheRead :: int
  au_CacheCreationTokens :: int
  au_CacheCreation :: "anthropic_creation option"

definition zero_anthropic_usage :: anthropic_usage where
  "zero_anthropic_usage = \<lparr>au_InputTokens = 0, au_OutputTokens = 0, au_CacheRead = 0,
     au_CacheCreationTokens = 0, au_CacheCreation = None\<rparr>"

definition dec_anthropic_usage :: "json \<Rightarrow> anthropic_usage \<Rightarrow> anthropic_usage option" where
  "dec_anthropic_usage = dec_struct
     [(''input_tokens'', dec_int (\<lambda>n s. s\<lparr>au_InputTokens := n\<rparr>)),
      (''output_tokens'', dec_int (\<lambda>n s. s\<lparr>au_OutputTokens := n\<rparr>)),
      (''cache_read_input_tokens'', dec_int (\<lambda>n s. s\<lparr>au_CacheRead := n\<rparr>)),
      (''cache_creation_input_tokens'', dec_int (\<lambda>n s. s\<lparr>au_CacheCreationTokens := n\<rparr>)),
      (''cache_creation'', dec_ptr au_CacheCreation (\<lambda>x s. s\<lparr>au_CacheCreation := x\<rparr>)
         \<lparr>ac_5m = 0, ac_1h = 0\<rparr>
         (dec_struct
           [(''ephemeral_5m_input_tokens'', dec_int (\<lambda>n s. s\<lparr>ac_5m := n\<rparr>)),
            (''ephemeral_1h_input_tokens'', dec_int (\<lambda>n s. s\<lparr>ac_1h := n\<rparr>))]))]"

definition anthropic_body :: "body \<Rightarrow> anthropic_usage option option" where
  "anthropic_body = usage_member ''usage'' zero_anthropic_usage dec_anthropic_usage"

definition anthropic_counts :: "anthropic_usage \<Rightarrow> Normalised" where
  "anthropic_counts u =
     (let out = set_count KindOutput (au_OutputTokens u)
            (set_count KindCachedRead (au_CacheRead u)
              (set_count KindInput (au_InputTokens u) zero_Normalised));
          out = (case au_CacheCreation u of
              Some c \<Rightarrow>
                (let split = i64 (ac_5m c + ac_1h c)
                 in if au_CacheCreationTokens u \<noteq> 0 \<and> split \<noteq> au_CacheCreationTokens u
                    then set_count KindCacheWrite1h 0
                           (set_count KindCacheWrite5m (au_CacheCreationTokens u) (degrade out))
                    else set_count KindCacheWrite1h (ac_1h c)
                           (set_count KindCacheWrite5m (ac_5m c) out))
            | None \<Rightarrow>
                if au_CacheCreationTokens u > 0
                then set_count KindCacheWrite5m (au_CacheCreationTokens u) (degrade out)
                else out)
      in clampNegative out)"

definition NormaliseAnthropic :: "body \<Rightarrow> usage_error + Normalised" where
  "NormaliseAnthropic payload =
     (case anthropic_body payload of
        None \<Rightarrow> Inl UsageParse
      | Some None \<Rightarrow> Inl ErrNoUsage
      | Some (Some u) \<Rightarrow> Inr (anthropic_counts u))"

subsection \<open>Google\<close>

record google_usage =
  gu_Prompt :: int
  gu_Candidates :: int
  gu_Cached :: int
  gu_Thoughts :: int
  gu_Total :: int

definition zero_google_usage :: google_usage where
  "zero_google_usage = \<lparr>gu_Prompt = 0, gu_Candidates = 0, gu_Cached = 0, gu_Thoughts = 0, gu_Total = 0\<rparr>"

definition dec_google_usage :: "json \<Rightarrow> google_usage \<Rightarrow> google_usage option" where
  "dec_google_usage = dec_struct
     [(''promptTokenCount'', dec_int (\<lambda>n s. s\<lparr>gu_Prompt := n\<rparr>)),
      (''candidatesTokenCount'', dec_int (\<lambda>n s. s\<lparr>gu_Candidates := n\<rparr>)),
      (''cachedContentTokenCount'', dec_int (\<lambda>n s. s\<lparr>gu_Cached := n\<rparr>)),
      (''thoughtsTokenCount'', dec_int (\<lambda>n s. s\<lparr>gu_Thoughts := n\<rparr>)),
      (''totalTokenCount'', dec_int (\<lambda>n s. s\<lparr>gu_Total := n\<rparr>))]"

definition google_body :: "body \<Rightarrow> google_usage option option" where
  "google_body = usage_member ''usageMetadata'' zero_google_usage dec_google_usage"

definition google_counts :: "google_usage \<Rightarrow> Normalised" where
  "google_counts u =
     (let plain = i64 (gu_Prompt u - gu_Cached u);
          out = (if plain < 0 then degrade zero_Normalised else zero_Normalised);
          plain' = (if plain < 0 then 0 else plain);
          out = set_count KindInput plain' out;
          out = set_count KindCachedRead (gu_Cached u) out;
          out = set_count KindOutput (i64 (gu_Candidates u + gu_Thoughts u)) out;
          out = set_count KindReasoning (gu_Thoughts u) out
      in clampNegative out)"

definition NormaliseGoogle :: "body \<Rightarrow> usage_error + Normalised" where
  "NormaliseGoogle payload =
     (case google_body payload of
        None \<Rightarrow> Inl UsageParse
      | Some None \<Rightarrow> Inl ErrNoUsage
      | Some (Some u) \<Rightarrow> Inr (google_counts u))"

subsection \<open>Clamping\<close>

lemma set_count_Counts [simp]: "Counts (set_count k v n) = AList.update k v (Counts n)"
  by (simp add: set_count_def)

lemma degrade_Counts [simp]: "Counts (degrade n) = Counts n" "Degraded (degrade n)"
  by (simp_all add: degrade_def)

lemma set_count_Degraded [simp]: "Degraded (set_count k v n) = Degraded n"
  by (simp add: set_count_def)

lemma update_middle: "k \<notin> fst ` set pre \<Longrightarrow> AList.update k w (pre @ (k, v) # c) = pre @ (k, w) # c"
  by (induction pre) auto

lemma clampNegative_loop_eq:
  "Counts n = pre @ c \<Longrightarrow> go_map (pre @ c) \<Longrightarrow>
     Counts (clampNegative_loop c n) = pre @ map (\<lambda>(k, v). (k, max 0 v)) c \<and>
     (Degraded (clampNegative_loop c n) \<longleftrightarrow> Degraded n \<or> (\<exists>(k, v) \<in> set c. v < 0))"
proof (induction c n arbitrary: pre rule: clampNegative_loop.induct)
  case (2 kind v c n)
  let ?n = "if v < 0 then set_count kind 0 (degrade n) else n"
  have "kind \<notin> fst ` set pre" using "2.prems"(2) by force
  with "2.prems"(1) have "Counts ?n = (pre @ [(kind, max 0 v)]) @ c" by (simp add: update_middle)
  moreover have "go_map ((pre @ [(kind, max 0 v)]) @ c)" using "2.prems"(2) by auto
  ultimately show ?case using "2.IH" [of "pre @ [(kind, max 0 v)]"] by auto
qed simp

lemma clampNegative_eq:
  assumes "go_map (Counts n)"
  shows "Counts (clampNegative n) = map (\<lambda>(k, v). (k, max 0 v)) (Counts n)"
    and "Degraded (clampNegative n) \<longleftrightarrow> Degraded n \<or> (\<exists>(k, v) \<in> set (Counts n). v < 0)"
  using clampNegative_loop_eq [of n "[]" "Counts n"] assms by (simp_all add: clampNegative_def)

lemma map_fst_clamped [simp]: "map (fst \<circ> (\<lambda>(k, v). (k, f v))) m = map fst m"
  by (simp add: comp_def case_prod_unfold)

definition sound_counts :: "counts \<Rightarrow> bool" where
  "sound_counts c \<longleftrightarrow> go_map c \<and> (\<forall>(k, n) \<in> set c. 0 \<le> n)"

lemma clampNegative_sound: "go_map (Counts n) \<Longrightarrow> sound_counts (Counts (clampNegative n))"
  by (auto simp: sound_counts_def clampNegative_eq)

lemma openai_sound: "sound_counts (Counts (openai_counts u))"
  unfolding openai_counts_def Let_def case_prod_unfold
  by (rule clampNegative_sound) (simp add: zero_Normalised_def)

lemma anthropic_sound: "sound_counts (Counts (anthropic_counts u))"
  unfolding anthropic_counts_def Let_def
  by (rule clampNegative_sound) (simp add: zero_Normalised_def split: option.split)

lemma google_sound: "sound_counts (Counts (google_counts u))"
  unfolding google_counts_def Let_def
  by (rule clampNegative_sound) (simp add: zero_Normalised_def)

lemma normalised_sound:
  "NormaliseOpenAI b = Inr n \<Longrightarrow> sound_counts (Counts n)"
  "NormaliseAnthropic b = Inr n \<Longrightarrow> sound_counts (Counts n)"
  "NormaliseGoogle b = Inr n \<Longrightarrow> sound_counts (Counts n)"
  by (auto simp: NormaliseOpenAI_def NormaliseAnthropic_def NormaliseGoogle_def openai_sound
      anthropic_sound google_sound split: option.splits)

lemma sound_counts_cost:
  assumes "NewTable rows aliases = Inr t" and "sound_counts (q_Counts req)"
  shows "\<exists>res. Cost ddiv t req = Inr res"
  using cost_total [OF assms(1)] assms(2) by (simp add: sound_counts_def)

subsection \<open>The identities\<close>

definition openai_in_range :: "openai_usage \<Rightarrow> bool" where
  "openai_in_range u \<longleftrightarrow> in_i64 (ou_PromptTokens u) \<and> in_i64 (ou_InputTokens u)"

lemma zero_in_i64 [simp]: "in_i64 0"
  by (simp add: min_i64_def max_i64_def)

lemma dec_ptr_inv:
  "dec_ptr get put zero dec j s = Some s' \<Longrightarrow> P s \<Longrightarrow> (\<And>x. P (put x s)) \<Longrightarrow> P s'"
  by (auto simp: dec_ptr_def split: json.splits)

lemma dec_openai_usage_range:
  assumes "dec_openai_usage j u = Some u'" and "openai_in_range u"
  shows "openai_in_range u'"
  using assms unfolding dec_openai_usage_def
  by (rule dec_struct_inv)
    (auto elim!: dec_int_inv dec_ptr_inv simp: openai_in_range_def)

lemma usage_member_inv:
  assumes "usage_member name zero dec b = Some (Some u)" and "P zero"
    and "\<And>j s s'. P s \<Longrightarrow> dec j s = Some s' \<Longrightarrow> P s'"
  shows "P u"
proof -
  let ?P = "\<lambda>x. case x of None \<Rightarrow> True | Some u \<Rightarrow> P u"
  from assms(1) obtain j where
    "dec_struct [(name, dec_ptr id (\<lambda>x _. x) zero dec)] j None = Some (Some u)"
    by (auto simp: usage_member_def Unmarshal_def split: option.splits)
  then have "?P (Some u)"
    by (rule dec_struct_inv [where P = ?P])
      (auto simp: dec_ptr_def assms(2) split: json.splits option.splits
        intro: assms(3) [OF assms(2)] assms(3))
  then show ?thesis by simp
qed

lemma openai_prompt_range:
  assumes "openai_body b = Some (Some u)"
  shows "in_i64 (openai_prompt u)"
proof -
  have "openai_in_range u"
    using assms unfolding openai_body_def
    by (rule usage_member_inv)
      (auto simp: openai_in_range_def zero_openai_usage_def dest: dec_openai_usage_range)
  then show ?thesis by (simp add: openai_in_range_def openai_prompt_def)
qed

lemma openai_counts_clean:
  assumes "\<not> Degraded (openai_counts u)"
  shows "Counts (openai_counts u) =
      [(KindInput, i64 (i64 (openai_prompt u - fst (openai_cached u)) - snd (openai_cached u))),
       (KindCachedRead, fst (openai_cached u)), (KindCacheWrite5m, snd (openai_cached u)),
       (KindOutput, openai_output u), (KindReasoning, openai_reasoning u)]
    \<and> openai_reasoning u \<le> openai_output u"
  using assms unfolding openai_counts_def Let_def case_prod_unfold
  by (auto simp: clampNegative_eq zero_Normalised_def kind_defs split: if_splits)

lemma i64_period: "i64 (x - 18446744073709551616) = i64 x"
proof -
  have "(x - 18446744073709551616 + 9223372036854775808) mod 18446744073709551616
      = (x + 9223372036854775808 - 18446744073709551616) mod 18446744073709551616" by simp
  also have "\<dots> = (x + 9223372036854775808) mod 18446744073709551616" by (rule minus_mod_self2)
  finally show ?thesis by (simp only: i64_def)
qed

lemma i64_undo: "i64 (i64 (i64 (p - c) - w) + c + w) = i64 p"
proof -
  have "i64 (i64 (i64 (p - c) - w) + c + w) = i64 (i64 (p - c) - w + (c + w))"
    using i64_add_left by (simp add: add.assoc)
  also have "\<dots> = i64 (i64 (p - c) + c)" by (simp add: algebra_simps)
  also have "\<dots> = i64 (p - c + c)" by (rule i64_add_left)
  finally show ?thesis by simp
qed

text \<open>
  OpenAI's cached and cache-write tokens are parts of the prompt, and are billed once. When a usage
  block is taken without degradation, the plain input, the cached reads and the cache writes add up to
  the prompt total the provider reported (in 64-bit arithmetic), the output is its completion total,
  and the reasoning tokens are within it.
\<close>

theorem openai_prompt_split:
  assumes "openai_body b = Some (Some u)" and "NormaliseOpenAI b = Inr n" and "\<not> Degraded n"
  shows "i64 (map_get 0 (Counts n) KindInput + map_get 0 (Counts n) KindCachedRead
        + map_get 0 (Counts n) KindCacheWrite5m) = openai_prompt u
    \<and> map_get 0 (Counts n) KindOutput = openai_output u
    \<and> map_get 0 (Counts n) KindReasoning \<le> map_get 0 (Counts n) KindOutput"
proof -
  from assms have "n = openai_counts u" by (simp add: NormaliseOpenAI_def)
  with openai_counts_clean [of u] assms(3) show ?thesis
    using i64_id [OF openai_prompt_range [OF assms(1)]]
    by (simp add: map_get_def kind_defs i64_undo)
qed

text \<open>
  Anthropic's flat cache-write total is never lost. Whatever time-to-live breakdown accompanies it,
  when the block's figures are non-negative and the flat total is stated, the two cache-write counts add
  up to it; input, cached reads and output are taken as they are, since Anthropic reports them
  separately.
\<close>

theorem anthropic_total_kept:
  assumes "anthropic_body b = Some (Some u)" and "NormaliseAnthropic b = Inr n"
    and "0 < au_CacheCreationTokens u"
    and "0 \<le> au_InputTokens u" and "0 \<le> au_CacheRead u" and "0 \<le> au_OutputTokens u"
    and "\<forall>c. au_CacheCreation u = Some c \<longrightarrow> 0 \<le> ac_5m c \<and> 0 \<le> ac_1h c
           \<and> ac_5m c \<le> max_i64 \<and> ac_1h c \<le> max_i64"
  shows "map_get 0 (Counts n) KindCacheWrite5m + map_get 0 (Counts n) KindCacheWrite1h
        = au_CacheCreationTokens u
    \<and> map_get 0 (Counts n) KindInput = au_InputTokens u
    \<and> map_get 0 (Counts n) KindCachedRead = au_CacheRead u
    \<and> map_get 0 (Counts n) KindOutput = au_OutputTokens u"
proof -
  have n: "n = anthropic_counts u" using assms(1,2) by (simp add: NormaliseAnthropic_def)
  have sum: "a + b = au_CacheCreationTokens u"
    if "i64 (a + b) = au_CacheCreationTokens u" "0 \<le> a" "0 \<le> b" "a \<le> max_i64" "b \<le> max_i64" for a b
  proof (rule ccontr)
    assume "a + b \<noteq> au_CacheCreationTokens u"
    with that(1) have "\<not> in_i64 (a + b)" using i64_id [of "a + b"] by metis
    with that(2,3) have "max_i64 < a + b" by (simp add: min_i64_def)
    with that(4,5) have "i64 (a + b - 18446744073709551616) < 0"
      by (subst i64_id) (simp_all add: max_i64_def min_i64_def)
    then have "i64 (a + b) < 0" by (simp only: i64_period)
    with that(1) assms(3) show False by simp
  qed
  show ?thesis
  proof (cases "au_CacheCreation u")
    case None
    with assms(3-6) show ?thesis
      unfolding n anthropic_counts_def Let_def
      by (simp add: clampNegative_eq zero_Normalised_def map_get_def kind_defs)
  next
    case (Some c)
    with assms(7) sum [of "ac_5m c" "ac_1h c"] assms(3-6) show ?thesis
      unfolding n anthropic_counts_def Let_def
      by (simp add: clampNegative_eq zero_Normalised_def map_get_def kind_defs)
  qed
qed

text \<open>
  Google goes both ways: cached content is part of the prompt, thoughts are separate from the
  candidates. In a block taken without degradation, plain input and cached reads add up to the prompt
  and the output is candidates plus thoughts (in 64-bit arithmetic).
\<close>

theorem google_both_ways:
  assumes "google_body b = Some (Some u)" and "NormaliseGoogle b = Inr n" and "\<not> Degraded n"
  shows "i64 (map_get 0 (Counts n) KindInput + map_get 0 (Counts n) KindCachedRead) = i64 (gu_Prompt u)
    \<and> map_get 0 (Counts n) KindOutput = i64 (gu_Candidates u + gu_Thoughts u)
    \<and> map_get 0 (Counts n) KindReasoning = gu_Thoughts u"
proof -
  have n: "n = google_counts u" using assms(1,2) by (simp add: NormaliseGoogle_def)
  have "Counts n = [(KindInput, i64 (gu_Prompt u - gu_Cached u)), (KindCachedRead, gu_Cached u),
      (KindOutput, i64 (gu_Candidates u + gu_Thoughts u)), (KindReasoning, gu_Thoughts u)]"
    using assms(3) unfolding n google_counts_def Let_def
    by (auto simp: clampNegative_eq zero_Normalised_def kind_defs split: if_splits)
  moreover have "i64 (i64 (gu_Prompt u - gu_Cached u) + gu_Cached u) = i64 (gu_Prompt u)"
    by (simp add: i64_add_left)
  ultimately show ?thesis by (simp add: map_get_def kind_defs)
qed

text \<open>
  An absurd usage block is never free. Whatever a provider sends, if it has a usage block that
  decodes, the counts taken from it are non-negative, and pricing them against a validated table
  succeeds: the error that would be recorded as a zero cost cannot arise.
\<close>

theorem provider_usage_always_priced:
  assumes "NewTable rows aliases = Inr t"
    and "NormaliseOpenAI b = Inr n \<or> NormaliseAnthropic b = Inr n \<or> NormaliseGoogle b = Inr n"
    and "q_Counts req = Counts n"
  shows "(\<forall>(k, v) \<in> set (Counts n). 0 \<le> v) \<and> (\<exists>res. Cost ddiv t req = Inr res)"
proof -
  have "sound_counts (Counts n)" using assms(2) normalised_sound by blast
  with sound_counts_cost [OF assms(1), of req] assms(3) show ?thesis by (auto simp: sound_counts_def)
qed

subsection \<open>Witnesses\<close>

definition sample_openai :: body where
  "sample_openai = Some (JObj [(''usage'', JObj [(''prompt_tokens'', JNum ''100''),
     (''completion_tokens'', JNum ''20''), (''prompt_tokens_details'', JObj
       [(''cached_tokens'', JNum ''30'')])])])"

lemma ParseInt_samples: "ParseInt ''100'' = Some 100" "ParseInt ''20'' = Some 20"
    "ParseInt ''30'' = Some 30" "ParseInt ''-7'' = Some (-7)"
  by (simp_all add: ParseInt_def max_i64_def min_i64_def)

lemma find_field_samples:
  "find_field ((k, f) # fs) k = Some f"
  "k \<noteq> k' \<Longrightarrow> k' \<in> fst ` set fs \<Longrightarrow> find_field ((k, f) # fs) k' = find_field fs k'"
  by (auto simp: find_field_def split: option.splits dest: weak_map_of_SomeI)

lemma sample_openai_body: "openai_body sample_openai = Some (Some
    (zero_openai_usage\<lparr>ou_PromptTokens := 100, ou_CompletionTokens := 20,
       ou_PromptDetails := Some \<lparr>oc_Cached = 30, oc_CacheWrite = 0\<rparr>\<rparr>))"
  by (simp add: openai_body_def usage_member_def Unmarshal_def sample_openai_def dec_struct_def
      dec_openai_usage_def dec_openai_cache_def find_field_samples dec_ptr_def dec_int_def
      ParseInt_samples zero_openai_usage_def)

theorem openai_prompt_split_witness:
  "map_get 0 (Counts (openai_counts (zero_openai_usage\<lparr>ou_PromptTokens := 100,
     ou_CompletionTokens := 20, ou_PromptDetails := Some \<lparr>oc_Cached = 30, oc_CacheWrite = 0\<rparr>\<rparr>)))
     KindOutput = 20"
proof -
  let ?u = "zero_openai_usage\<lparr>ou_PromptTokens := 100, ou_CompletionTokens := 20,
     ou_PromptDetails := Some \<lparr>oc_Cached = 30, oc_CacheWrite = 0\<rparr>\<rparr>"
  have n: "NormaliseOpenAI sample_openai = Inr (openai_counts ?u)"
    by (simp add: NormaliseOpenAI_def sample_openai_body)
  have "openai_prompt ?u = 100" "openai_output ?u = 20" "openai_cached ?u = (30, 0)"
      "openai_reasoning ?u = 0"
    by (simp_all add: openai_prompt_def openai_output_def openai_cached_def openai_reasoning_def
        zero_openai_usage_def)
  then have "\<not> Degraded (openai_counts ?u)" and o: "openai_output ?u = 20"
    unfolding openai_counts_def Let_def case_prod_unfold
    by (simp_all add: clampNegative_eq zero_Normalised_def kind_defs i64_def)
  with openai_prompt_split [OF sample_openai_body n] show ?thesis by simp
qed

definition sample_anthropic :: body where
  "sample_anthropic = Some (JObj [(''usage'', JObj [(''input_tokens'', JNum ''100''),
     (''cache_creation_input_tokens'', JNum ''30'')])])"

lemma sample_anthropic_body: "anthropic_body sample_anthropic = Some (Some
    (zero_anthropic_usage\<lparr>au_InputTokens := 100, au_CacheCreationTokens := 30\<rparr>))"
  by (simp add: anthropic_body_def usage_member_def Unmarshal_def sample_anthropic_def dec_struct_def
      dec_anthropic_usage_def find_field_samples dec_ptr_def dec_int_def
      ParseInt_samples zero_anthropic_usage_def)

theorem anthropic_total_kept_witness:
  "\<exists>n. NormaliseAnthropic sample_anthropic = Inr n \<and>
     map_get 0 (Counts n) KindCacheWrite5m + map_get 0 (Counts n) KindCacheWrite1h = 30"
proof -
  obtain n where n: "NormaliseAnthropic sample_anthropic = Inr n"
    by (simp add: NormaliseAnthropic_def sample_anthropic_body)
  with anthropic_total_kept [OF sample_anthropic_body n] show ?thesis
    by (simp add: zero_anthropic_usage_def)
qed

definition sample_google :: body where
  "sample_google = Some (JObj [(''usageMetadata'', JObj [(''promptTokenCount'', JNum ''100''),
     (''candidatesTokenCount'', JNum ''20''), (''thoughtsTokenCount'', JNum ''30'')])])"

lemma sample_google_body: "google_body sample_google = Some (Some
    \<lparr>gu_Prompt = 100, gu_Candidates = 20, gu_Cached = 0, gu_Thoughts = 30, gu_Total = 0\<rparr>)"
  by (simp add: google_body_def usage_member_def Unmarshal_def sample_google_def dec_struct_def
      dec_google_usage_def find_field_samples dec_ptr_def dec_int_def
      ParseInt_samples zero_google_usage_def)

theorem google_both_ways_witness:
  "\<exists>n. NormaliseGoogle sample_google = Inr n \<and> map_get 0 (Counts n) KindOutput = 50"
proof -
  let ?u = "\<lparr>gu_Prompt = 100, gu_Candidates = 20, gu_Cached = 0, gu_Thoughts = 30, gu_Total = 0\<rparr>"
  have n: "NormaliseGoogle sample_google = Inr (google_counts ?u)"
    by (simp add: NormaliseGoogle_def sample_google_body)
  have "\<not> Degraded (google_counts ?u)"
    unfolding google_counts_def Let_def
    by (simp add: clampNegative_eq zero_Normalised_def kind_defs i64_def)
  with google_both_ways [OF sample_google_body n] n show ?thesis by (auto simp: i64_def)
qed

theorem provider_usage_always_priced_witness:
  "\<exists>n res. NormaliseGoogle (Some (JObj [(''usageMetadata'', JObj [(''candidatesTokenCount'', JNum ''-7'')])]))
     = Inr n \<and> Cost div16 sample_table (sample_request\<lparr>q_Counts := Counts n\<rparr>) = Inr res"
proof -
  let ?b = "Some (JObj [(''usageMetadata'', JObj [(''candidatesTokenCount'', JNum ''-7'')])])"
  obtain n where n: "NormaliseGoogle ?b = Inr n"
    by (simp add: NormaliseGoogle_def google_body_def usage_member_def Unmarshal_def dec_struct_def
      dec_google_usage_def find_field_samples dec_ptr_def dec_int_def ParseInt_samples zero_google_usage_def)
  with provider_usage_always_priced [OF sample_NewTable, of ?b n "sample_request\<lparr>q_Counts := Counts n\<rparr>"]
  show ?thesis by auto
qed

end
