(* ===== verification/Store.thy ===== *)
theory Store
  imports Normalise
begin

text \<open>
  Package \<open>store\<close>: the tables of the database with the constraints of the migrations, and the
  operations of \<open>keys.go\<close> and \<open>usage.go\<close>.

  A table is the list of its rows. An \<open>UPDATE ... WHERE\<close> rewrites the rows its predicate selects, and a
  statement that breaks a constraint is an error of its transaction. A transaction is one step on the
  database: it either replaces the database or leaves it. What the driver may do is a parameter of
  every operation: it may fail to begin, fail any statement with a SQLSTATE, or report a failed commit,
  and a failed commit may or may not have been applied by the server.
\<close>

subsection \<open>Rows\<close>

type_synonym uuid = nat
type_synonym date = int
type_synonym bytes = string

record virtual_key =
  vk_id :: uuid
  vk_hash :: bytes
  vk_prefix :: string
  vk_label :: string
  vk_metadata :: "(string \<times> string) list"
  vk_allowed_models :: "string list option"
  vk_disconnect_policy :: string
  vk_drain_timeout_ms :: "int option"
  vk_revoked_at :: "time option"
  vk_created_at :: time

record key_budget =
  kb_key_id :: uuid
  kb_window_start :: date
  kb_limit_usd :: "num10 option"
  kb_spent_usd :: num10
  kb_reserved_usd :: num10

datatype res_state = Pending | Settled | Expired

record reservation =
  rv_id :: uuid
  rv_key_id :: uuid
  rv_window_start :: date
  rv_state :: res_state
  rv_estimated_usd :: num10
  rv_actual_usd :: "num10 option"
  rv_expires_at :: time
  rv_overshoot :: bool
  rv_settled_after_expiry :: bool
  rv_created_at :: time
  rv_settled_at :: "time option"

record usage_record =
  ur_id :: uuid
  ur_key_id :: uuid
  ur_reservation_id :: "uuid option"
  ur_request_id :: string
  ur_requested_model :: string
  ur_served_model :: "string option"
  ur_provider :: string
  ur_service_tier :: string
  ur_provider_request_id :: "string option"
  ur_window_start :: date
  ur_token_detail :: counts
  ur_input_tokens :: int
  ur_cached_read_tokens :: int
  ur_cache_write_tokens :: int
  ur_output_tokens :: int
  ur_reasoning_tokens :: int
  ur_cost_usd :: "num10 option"
  ur_usage_source :: string
  ur_unpriced :: bool
  ur_partially_priced :: bool
  ur_streamed :: bool
  ur_client_disconnected :: bool
  ur_drain_timeout :: bool
  ur_parse_errors :: int
  ur_finish_reason :: "string option"
  ur_status_code :: int
  ur_error_code :: "string option"
  ur_latency_ms :: "int option"
  ur_ttft_us :: "int option"
  ur_created_at :: time

record DB =
  virtual_keys :: "virtual_key list"
  key_budgets :: "key_budget list"
  budget_reservations :: "reservation list"
  usage_records :: "usage_record list"

definition empty_DB :: DB where
  "empty_DB = \<lparr>virtual_keys = [], key_budgets = [], budget_reservations = [], usage_records = []\<rparr>"

subsection \<open>The driver\<close>

record BudgetExceededError =
  be_LimitUSD :: "decimal option"
  be_SpentUSD :: decimal
  be_ReservedUSD :: decimal
  be_WindowResetsAt :: time

datatype store_error = Driver string | NumericOverflow | CheckViolation string | UniqueViolation string
  | ForeignKeyViolation string | ErrKeyNotFound | ErrKeyRevoked | ErrModelNotAllowed
  | ErrBudgetExceeded BudgetExceededError | MetadataKeyEmpty | MetadataTooBig int
  | DrainTooLong int int | DrainNotPositive

text \<open>
  The faults of one connection: the SQLSTATE a call fails with, statements numbered in the order the
  operation issues them.
\<close>

record Conn =
  on_begin :: "string option"
  on_stmt :: "nat \<Rightarrow> string option"
  on_commit :: "string option"
  commit_applied :: bool

definition ok_conn :: Conn where
  "ok_conn = \<lparr>on_begin = None, on_stmt = (\<lambda>_. None), on_commit = None, commit_applied = False\<rparr>"

type_synonym 'a stored = "(store_error + 'a) \<times> DB"

definition commit_tx :: "Conn \<Rightarrow> DB \<Rightarrow> DB \<Rightarrow> 'a \<Rightarrow> 'a stored" where
  "commit_tx c old new out =
     (case on_commit c of
        None \<Rightarrow> (Inr out, new)
      | Some code \<Rightarrow> (Inl (Driver code), if commit_applied c then new else old))"

subsection \<open>Calendar\<close>

text \<open>
  The first day of the month of a day, days counted from 1970-01-01 in the proleptic Gregorian
  calendar, and \<open>date_trunc('month', now() AT TIME ZONE 'UTC')::date\<close>.
\<close>

definition day_of_month :: "date \<Rightarrow> int" where
  "day_of_month d =
     (let z = d + 719468;
          doe = z mod 146097;
          yoe = (doe - doe div 1460 + doe div 36524 - doe div 146096) div 365;
          doy = doe - (365 * yoe + yoe div 4 - yoe div 100);
          mp = (5 * doy + 2) div 153
      in doy - (153 * mp + 2) div 5 + 1)"

definition month_start :: "date \<Rightarrow> date" where
  "month_start d = d - (day_of_month d - 1)"

definition date_of :: "time \<Rightarrow> date" where
  "date_of t = t div 86400000000000"

definition current_month :: "time \<Rightarrow> date" where
  "current_month now = month_start (date_of now)"

subsection \<open>Keys (keys.go)\<close>

record KeyRecord =
  kr_ID :: uuid
  kr_Prefix :: string
  kr_Label :: string
  kr_Metadata :: "(string \<times> string) list"
  kr_AllowedModels :: "string list option"
  kr_DisconnectPolicy :: string
  kr_DrainTimeoutMS :: "int option"
  kr_LimitUSD :: "decimal option"
  kr_RevokedAt :: "time option"
  kr_CreatedAt :: time
  kr_Hash :: bytes

record CreateKeyInput =
  ci_Hash :: bytes
  ci_Prefix :: string
  ci_Label :: string
  ci_Metadata :: "(string \<times> string) list"
  ci_AllowedModels :: "string list option"
  ci_DisconnectPolicy :: string
  ci_DrainTimeoutMS :: "int option"
  ci_LimitUSD :: "decimal option"

record 'a FieldValue =
  fv_Set :: bool
  fv_Null :: bool
  fv_Value :: 'a

record UpdateKeyInput =
  ui_Label :: "string option"
  ui_Metadata :: "(string \<times> string) list FieldValue option"
  ui_AllowedModels :: "string list option FieldValue option"
  ui_DisconnectPolicy :: "string option"
  ui_DrainTimeoutMS :: "int FieldValue option"
  ui_LimitUSD :: "decimal FieldValue option"
  ui_MaxDrainMS :: int

text \<open>The bytes \<open>json.Marshal\<close> spends on one character of a string (valid UTF-8), and on a flat map.\<close>

fun enc_len :: "string \<Rightarrow> int" where
  "enc_len [] = 0"
| "enc_len (c # cs) =
     (let n = of_char c :: nat
      in (if n \<in> {34, 92, 8, 9, 10, 12, 13} then 2
          else if n < 32 \<or> n \<in> {38, 60, 62} then 6
          else if n = 226 \<and> map of_char (take 2 cs) \<in> {[128, 168], [128 :: nat, 169]} then 4
          else 1) + enc_len cs)"

definition metadata_len :: "(string \<times> string) list \<Rightarrow> int" where
  "metadata_len m =
     2 + (\<Sum>(k, v)\<leftarrow>m. enc_len k + enc_len v + 5) + (if m = [] then 0 else int (length m) - 1)"

definition maxMetadataBytes :: int where "maxMetadataBytes = 4096"

definition validateMetadata :: "(string \<times> string) list \<Rightarrow> store_error option" where
  "validateMetadata m =
     (if m = [] then None
      else if list_ex (\<lambda>(k, _). k = []) m then Some MetadataKeyEmpty
      else if metadata_len m > maxMetadataBytes then Some (MetadataTooBig (metadata_len m))
      else None)"

definition scanKeyRow :: "DB \<Rightarrow> bool \<Rightarrow> virtual_key \<Rightarrow> KeyRecord" where
  "scanKeyRow db withHash vk =
     \<lparr>kr_ID = vk_id vk, kr_Prefix = vk_prefix vk, kr_Label = vk_label vk,
      kr_Metadata = vk_metadata vk, kr_AllowedModels = vk_allowed_models vk,
      kr_DisconnectPolicy = vk_disconnect_policy vk, kr_DrainTimeoutMS = vk_drain_timeout_ms vk,
      kr_LimitUSD = (case find (\<lambda>kb. kb_key_id kb = vk_id vk) (key_budgets db) of
          None \<Rightarrow> None | Some kb \<Rightarrow> map_option dec10 (kb_limit_usd kb)),
      kr_RevokedAt = vk_revoked_at vk, kr_CreatedAt = vk_created_at vk,
      kr_Hash = (if withHash then vk_hash vk else [])\<rparr>"

definition scanKey :: "string option \<Rightarrow> DB \<Rightarrow> bool \<Rightarrow> virtual_key option \<Rightarrow> store_error + KeyRecord" where
  "scanKey fault db withHash row =
     (case fault of
        Some e \<Rightarrow> Inl (Driver e)
      | None \<Rightarrow> (case row of None \<Rightarrow> Inl ErrKeyNotFound | Some vk \<Rightarrow> Inr (scanKeyRow db withHash vk)))"

definition FindKeyByHash :: "string option \<Rightarrow> DB \<Rightarrow> bytes \<Rightarrow> store_error + KeyRecord" where
  "FindKeyByHash fault db hash =
     scanKey fault db True (find (\<lambda>vk. vk_hash vk = hash) (virtual_keys db))"

definition keyByID :: "string option \<Rightarrow> DB \<Rightarrow> uuid \<Rightarrow> store_error + KeyRecord" where
  "keyByID fault db i = scanKey fault db False (find (\<lambda>vk. vk_id vk = i) (virtual_keys db))"

definition ListKeys :: "string option \<Rightarrow> DB \<Rightarrow> store_error + KeyRecord list" where
  "ListKeys fault db =
     (case fault of
        Some e \<Rightarrow> Inl (Driver e)
      | None \<Rightarrow> Inr (map (scanKeyRow db False)
          (rev (sort_key vk_created_at (rev (virtual_keys db))))))"

text \<open>Column and table constraints of the migrations.\<close>

definition checkVirtualKey :: "virtual_key \<Rightarrow> store_error option" where
  "checkVirtualKey vk =
     (if vk_disconnect_policy vk \<noteq> ''cancel'' \<and> vk_disconnect_policy vk \<noteq> ''drain''
        then Some (CheckViolation ''virtual_keys_disconnect_policy_check'')
      else if \<exists>ms \<in> set_option (vk_drain_timeout_ms vk). ms \<le> 0
        then Some (CheckViolation ''virtual_keys_drain_timeout_positive'')
      else if \<exists>ms \<in> set_option (vk_drain_timeout_ms vk). 2147483647 < ms then Some NumericOverflow
      else if vk_prefix vk = [] then Some (CheckViolation ''virtual_keys_key_prefix_nonempty'')
      else None)"

definition checkBudget :: "key_budget \<Rightarrow> store_error option" where
  "checkBudget kb =
     (if (\<exists>l \<in> set_option (kb_limit_usd kb). \<not> fits10 l) \<or> \<not> fits10 (kb_spent_usd kb)
         \<or> \<not> fits10 (kb_reserved_usd kb) then Some NumericOverflow
      else if \<exists>l \<in> set_option (kb_limit_usd kb). l < 0
        then Some (CheckViolation ''key_budgets_limit_non_negative'')
      else if kb_spent_usd kb < 0 then Some (CheckViolation ''key_budgets_spent_non_negative'')
      else if kb_reserved_usd kb < 0 then Some (CheckViolation ''key_budgets_reserved_non_negative'')
      else None)"

definition insertKey :: "virtual_key \<Rightarrow> DB \<Rightarrow> store_error + DB" where
  "insertKey vk db =
     (case checkVirtualKey vk of
        Some e \<Rightarrow> Inl e
      | None \<Rightarrow>
        if list_ex (\<lambda>x. vk_id x = vk_id vk) (virtual_keys db) then Inl (UniqueViolation ''virtual_keys_pkey'')
        else if list_ex (\<lambda>x. vk_hash x = vk_hash vk) (virtual_keys db)
          then Inl (UniqueViolation ''virtual_keys_key_hash_key'')
        else Inr (db\<lparr>virtual_keys := virtual_keys db @ [vk]\<rparr>))"

definition insertBudget :: "key_budget \<Rightarrow> DB \<Rightarrow> store_error + DB" where
  "insertBudget kb db =
     (case checkBudget kb of
        Some e \<Rightarrow> Inl e
      | None \<Rightarrow>
        if list_ex (\<lambda>x. kb_key_id x = kb_key_id kb) (key_budgets db)
          then Inl (UniqueViolation ''key_budgets_pkey'')
        else if \<not> list_ex (\<lambda>x. vk_id x = kb_key_id kb) (virtual_keys db)
          then Inl (ForeignKeyViolation ''key_budgets_key_id_fkey'')
        else Inr (db\<lparr>key_budgets := key_budgets db @ [kb]\<rparr>))"

text \<open>\<open>i\<close> is the identifier \<open>uuid.New\<close> returned. The last statement reads the key back after the commit.\<close>

definition CreateKey :: "Conn \<Rightarrow> time \<Rightarrow> uuid \<Rightarrow> CreateKeyInput \<Rightarrow> DB \<Rightarrow> KeyRecord stored" where
  "CreateKey c now i inp db =
     (case validateMetadata (ci_Metadata inp) of
        Some e \<Rightarrow> (Inl e, db)
      | None \<Rightarrow>
     (case on_begin c of Some e \<Rightarrow> (Inl (Driver e), db) | None \<Rightarrow>
     (case on_stmt c 0 of Some e \<Rightarrow> (Inl (Driver e), db) | None \<Rightarrow>
     (case insertKey
          \<lparr>vk_id = i, vk_hash = ci_Hash inp, vk_prefix = ci_Prefix inp, vk_label = ci_Label inp,
           vk_metadata = ci_Metadata inp, vk_allowed_models = ci_AllowedModels inp,
           vk_disconnect_policy = (if ci_DisconnectPolicy inp = [] then ''cancel''
             else ci_DisconnectPolicy inp),
           vk_drain_timeout_ms = ci_DrainTimeoutMS inp, vk_revoked_at = None, vk_created_at = now\<rparr> db of
        Inl e \<Rightarrow> (Inl e, db)
      | Inr db1 \<Rightarrow>
     (case on_stmt c 1 of Some e \<Rightarrow> (Inl (Driver e), db) | None \<Rightarrow>
     (case insertBudget
          \<lparr>kb_key_id = i, kb_window_start = current_month now,
           kb_limit_usd = map_option num10 (ci_LimitUSD inp), kb_spent_usd = 0, kb_reserved_usd = 0\<rparr> db1 of
        Inl e \<Rightarrow> (Inl e, db)
      | Inr db2 \<Rightarrow>
     (case commit_tx c db db2 () of
        (Inl e, db3) \<Rightarrow> (Inl e, db3)
      | (Inr _, db3) \<Rightarrow> (keyByID (on_stmt c 2) db3 i, db3))))))))"

definition RevokeKey :: "string option \<Rightarrow> time \<Rightarrow> uuid \<Rightarrow> DB \<Rightarrow> unit stored" where
  "RevokeKey fault now i db =
     (case fault of
        Some e \<Rightarrow> (Inl (Driver e), db)
      | None \<Rightarrow>
        if list_ex (\<lambda>vk. vk_id vk = i) (virtual_keys db)
        then (Inr (), db\<lparr>virtual_keys := update_where (\<lambda>vk. vk_id vk = i)
               (\<lambda>vk. vk\<lparr>vk_revoked_at := (case vk_revoked_at vk of None \<Rightarrow> Some now | Some t \<Rightarrow> Some t)\<rparr>)
               (virtual_keys db)\<rparr>)
        else (Inl ErrKeyNotFound, db))"

text \<open>
  One \<open>UPDATE virtual_keys SET ... WHERE id = i\<close> of \<open>UpdateKey\<close>, skipped when the field is absent;
  \<open>n\<close> is its number.
\<close>

definition updateKeyField :: "Conn \<Rightarrow> nat \<Rightarrow> uuid \<Rightarrow> (virtual_key \<Rightarrow> virtual_key) option \<Rightarrow> DB
    \<Rightarrow> store_error + DB" where
  "updateKeyField c n i f db =
     (case f of
        None \<Rightarrow> Inr db
      | Some g \<Rightarrow>
        (case on_stmt c n of Some e \<Rightarrow> Inl (Driver e) | None \<Rightarrow>
        (case find (\<lambda>vk. vk_id vk = i \<and> checkVirtualKey (g vk) \<noteq> None) (virtual_keys db) of
           Some vk \<Rightarrow> Inl (the (checkVirtualKey (g vk)))
         | None \<Rightarrow> Inr (db\<lparr>virtual_keys := update_where (\<lambda>vk. vk_id vk = i) g (virtual_keys db)\<rparr>))))"

definition updateLimit :: "Conn \<Rightarrow> nat \<Rightarrow> uuid \<Rightarrow> num10 option option \<Rightarrow> DB \<Rightarrow> store_error + DB" where
  "updateLimit c n i l db =
     (case l of
        None \<Rightarrow> Inr db
      | Some v \<Rightarrow>
        (case on_stmt c n of Some e \<Rightarrow> Inl (Driver e) | None \<Rightarrow>
        (case find (\<lambda>kb. kb_key_id kb = i \<and> checkBudget (kb\<lparr>kb_limit_usd := v\<rparr>) \<noteq> None) (key_budgets db) of
           Some kb \<Rightarrow> Inl (the (checkBudget (kb\<lparr>kb_limit_usd := v\<rparr>)))
         | None \<Rightarrow> Inr (db\<lparr>key_budgets := update_where (\<lambda>kb. kb_key_id kb = i)
             (\<lambda>kb. kb\<lparr>kb_limit_usd := v\<rparr>) (key_budgets db)\<rparr>))))"

definition set_field :: "'a FieldValue option \<Rightarrow> ('a option \<Rightarrow> 'b) \<Rightarrow> 'b option" where
  "set_field f g =
     (case f of
        None \<Rightarrow> None
      | Some v \<Rightarrow> if fv_Set v then Some (g (if fv_Null v then None else Some (fv_Value v))) else None)"

definition validateUpdate :: "UpdateKeyInput \<Rightarrow> store_error option" where
  "validateUpdate inp =
     (case set_field (ui_Metadata inp) (\<lambda>m. m) of
        Some (Some m) \<Rightarrow> validateMetadata m
      | _ \<Rightarrow> None)"

definition validateDrain :: "UpdateKeyInput \<Rightarrow> store_error option" where
  "validateDrain inp =
     (case set_field (ui_DrainTimeoutMS inp) (\<lambda>v. v) of
        Some (Some v) \<Rightarrow>
          if ui_MaxDrainMS inp > 0 \<and> v > ui_MaxDrainMS inp then Some (DrainTooLong v (ui_MaxDrainMS inp))
          else if v \<le> 0 then Some DrainNotPositive
          else None
      | _ \<Rightarrow> None)"

definition applyUpdate :: "Conn \<Rightarrow> uuid \<Rightarrow> UpdateKeyInput \<Rightarrow> DB \<Rightarrow> store_error + DB" where
  "applyUpdate c i inp db =
     (case updateKeyField c 1 i (map_option (\<lambda>l vk. vk\<lparr>vk_label := l\<rparr>) (ui_Label inp)) db of
        Inl e \<Rightarrow> Inl e | Inr db1 \<Rightarrow>
     (case updateKeyField c 2 i
          (map_option (\<lambda>p vk. vk\<lparr>vk_disconnect_policy := p\<rparr>) (ui_DisconnectPolicy inp)) db1 of
        Inl e \<Rightarrow> Inl e | Inr db2 \<Rightarrow>
     (case updateKeyField c 3 i (set_field (ui_Metadata inp)
          (\<lambda>m vk. vk\<lparr>vk_metadata := (case m of None \<Rightarrow> [] | Some x \<Rightarrow> x)\<rparr>)) db2 of
        Inl e \<Rightarrow> Inl e | Inr db3 \<Rightarrow>
     (case updateKeyField c 4 i (set_field (ui_AllowedModels inp)
          (\<lambda>m vk. vk\<lparr>vk_allowed_models := (case m of None \<Rightarrow> None | Some None \<Rightarrow> Some []
             | Some (Some x) \<Rightarrow> Some x)\<rparr>)) db3 of
        Inl e \<Rightarrow> Inl e | Inr db4 \<Rightarrow>
     (case updateKeyField c 5 i (set_field (ui_DrainTimeoutMS inp)
          (\<lambda>v vk. vk\<lparr>vk_drain_timeout_ms := v\<rparr>)) db4 of
        Inl e \<Rightarrow> Inl e | Inr db5 \<Rightarrow>
      updateLimit c 6 i (set_field (ui_LimitUSD inp) (map_option num10)) db5)))))"

definition UpdateKey :: "Conn \<Rightarrow> uuid \<Rightarrow> UpdateKeyInput \<Rightarrow> DB \<Rightarrow> KeyRecord stored" where
  "UpdateKey c i inp db =
     (case validateUpdate inp of Some e \<Rightarrow> (Inl e, db) | None \<Rightarrow>
     (case validateDrain inp of Some e \<Rightarrow> (Inl e, db) | None \<Rightarrow>
     (case on_begin c of Some e \<Rightarrow> (Inl (Driver e), db) | None \<Rightarrow>
     (case on_stmt c 0 of Some e \<Rightarrow> (Inl (Driver e), db) | None \<Rightarrow>
      if \<not> list_ex (\<lambda>vk. vk_id vk = i) (virtual_keys db) then (Inl ErrKeyNotFound, db)
      else (case applyUpdate c i inp db of
              Inl e \<Rightarrow> (Inl e, db)
            | Inr db1 \<Rightarrow>
              (case commit_tx c db db1 () of
                 (Inl e, db2) \<Rightarrow> (Inl e, db2)
               | (Inr _, db2) \<Rightarrow> (keyByID (on_stmt c 7) db2 i, db2)))))))"

subsection \<open>Usage records (usage/record.go, store/usage.go)\<close>

text \<open>A nil token map is None. \<open>WindowStart\<close> is the midnight a date column holds.\<close>

record Record =
  ID :: uuid
  KeyID :: uuid
  ReservationID :: "uuid option"
  RequestID :: string
  RequestedModel :: string
  ServedModel :: string
  Provider :: string
  ServiceTier :: string
  ProviderRequestID :: string
  WindowStart :: date
  TokenDetail :: "counts option"
  CostUSD :: "decimal option"
  UsageSource :: string
  Rec_Unpriced :: bool
  Rec_PartiallyPriced :: bool
  Streamed :: bool
  ClientDisconnected :: bool
  DrainTimeout :: bool
  Rec_ParseErrors :: int
  FinishReason :: string
  StatusCode :: int
  ErrorCode :: string
  LatencyMS :: int
  TTFTMicros :: int

definition detail_of :: "Record \<Rightarrow> counts" where
  "detail_of r = (case TokenDetail r of None \<Rightarrow> [] | Some d \<Rightarrow> d)"

definition Aggregates :: "Record \<Rightarrow> int \<times> int \<times> int \<times> int \<times> int" where
  "Aggregates r =
     (let d = detail_of r
      in (map_get 0 d KindInput, map_get 0 d KindCachedRead,
          i64 (map_get 0 d KindCacheWrite5m + map_get 0 d KindCacheWrite1h),
          map_get 0 d KindOutput, map_get 0 d KindReasoning))"

definition nullIfEmpty :: "string \<Rightarrow> string option" where
  "nullIfEmpty s = (if s = [] then None else Some s)"

definition nullIfZero :: "int \<Rightarrow> int option" where
  "nullIfZero n = (if n = 0 then None else Some n)"

definition usageRow :: "time \<Rightarrow> Record \<Rightarrow> usage_record" where
  "usageRow now r =
     (case Aggregates r of (inp, cachedRead, cacheWrite, out, reasoning) \<Rightarrow>
     \<lparr>ur_id = ID r, ur_key_id = KeyID r, ur_reservation_id = ReservationID r,
      ur_request_id = RequestID r, ur_requested_model = RequestedModel r,
      ur_served_model = nullIfEmpty (ServedModel r), ur_provider = Provider r,
      ur_service_tier = (if ServiceTier r = [] then ''standard'' else ServiceTier r),
      ur_provider_request_id = nullIfEmpty (ProviderRequestID r),
      ur_window_start = WindowStart r, ur_token_detail = detail_of r,
      ur_input_tokens = inp, ur_cached_read_tokens = cachedRead,
      ur_cache_write_tokens = cacheWrite, ur_output_tokens = out,
      ur_reasoning_tokens = reasoning, ur_cost_usd = map_option num10 (CostUSD r),
      ur_usage_source = UsageSource r, ur_unpriced = Rec_Unpriced r,
      ur_partially_priced = Rec_PartiallyPriced r, ur_streamed = Streamed r,
      ur_client_disconnected = ClientDisconnected r, ur_drain_timeout = DrainTimeout r,
      ur_parse_errors = Rec_ParseErrors r, ur_finish_reason = nullIfEmpty (FinishReason r),
      ur_status_code = StatusCode r, ur_error_code = nullIfEmpty (ErrorCode r),
      ur_latency_ms = nullIfZero (LatencyMS r), ur_ttft_us = nullIfZero (TTFTMicros r),
      ur_created_at = now\<rparr>)"

text \<open>The constraints of \<open>usage_records\<close>.\<close>

abbreviation in_i32 :: "int \<Rightarrow> bool" where
  "in_i32 x \<equiv> -2147483648 \<le> x \<and> x \<le> 2147483647"

definition checkUsage :: "usage_record \<Rightarrow> store_error option" where
  "checkUsage u =
     (if \<not> in_i32 (ur_parse_errors u) \<or> \<not> in_i32 (ur_status_code u)
         \<or> (\<exists>l \<in> set_option (ur_latency_ms u). \<not> in_i32 l)
         \<or> (\<exists>x \<in> set_option (ur_cost_usd u). \<not> fits10 x) then Some NumericOverflow
      else if ur_usage_source u \<notin> {''provider'', ''tokenizer'', ''estimate''}
        then Some (CheckViolation ''usage_records_usage_source_check'')
      else if \<not> Tier_Valid (ur_service_tier u)
        then Some (CheckViolation ''usage_records_service_tier_check'')
      else if ur_input_tokens u < 0 \<or> ur_cached_read_tokens u < 0 \<or> ur_cache_write_tokens u < 0
          \<or> ur_output_tokens u < 0 \<or> ur_reasoning_tokens u < 0
        then Some (CheckViolation ''usage_records_tokens_non_negative'')
      else if \<exists>x \<in> set_option (ur_cost_usd u). x < 0
        then Some (CheckViolation ''usage_records_cost_non_negative'')
      else if ur_parse_errors u < 0
        then Some (CheckViolation ''usage_records_parse_errors_non_negative'')
      else if ur_unpriced u \<and> ur_cost_usd u \<noteq> None
        then Some (CheckViolation ''usage_records_unpriced_has_no_cost'')
      else if ur_partially_priced u \<and> ur_unpriced u
        then Some (CheckViolation ''usage_records_partial_excludes_unpriced'')
      else if ur_partially_priced u \<and> ur_cost_usd u = None
        then Some (CheckViolation ''usage_records_partial_has_a_cost'')
      else if \<exists>t \<in> set_option (ur_ttft_us u). t < 0
        then Some (CheckViolation ''usage_records_ttft_non_negative'')
      else None)"

definition insertUsage :: "usage_record \<Rightarrow> DB \<Rightarrow> store_error + DB" where
  "insertUsage u db =
     (case checkUsage u of
        Some e \<Rightarrow> Inl e
      | None \<Rightarrow>
        if list_ex (\<lambda>x. ur_id x = ur_id u) (usage_records db)
          then Inl (UniqueViolation ''usage_records_pkey'')
        else if \<not> list_ex (\<lambda>x. vk_id x = ur_key_id u) (virtual_keys db)
          then Inl (ForeignKeyViolation ''usage_records_key_id_fkey'')
        else Inr (db\<lparr>usage_records := usage_records db @ [u]\<rparr>))"

fun insertAll :: "usage_record list \<Rightarrow> DB \<Rightarrow> store_error + DB" where
  "insertAll [] db = Inr db"
| "insertAll (u # us) db = (case insertUsage u db of Inl e \<Rightarrow> Inl e | Inr db' \<Rightarrow> insertAll us db')"

definition WriteBatch :: "string option \<Rightarrow> time \<Rightarrow> Record list \<Rightarrow> DB \<Rightarrow> unit stored" where
  "WriteBatch fault now rs db =
     (if rs = [] then (Inr (), db)
      else (case fault of Some e \<Rightarrow> (Inl (Driver e), db) | None \<Rightarrow>
           (case insertAll (map (usageRow now) rs) db of
              Inl e \<Rightarrow> (Inl e, db)
            | Inr db' \<Rightarrow> (Inr (), db'))))"

text \<open>Unlike \<open>usageRow\<close>, this path marshals a nil map as it is: a JSON null, which is not an object.\<close>

definition WriteUsageRecord :: "string option \<Rightarrow> time \<Rightarrow> Record \<Rightarrow> DB \<Rightarrow> unit stored" where
  "WriteUsageRecord fault now r db =
     (case fault of Some e \<Rightarrow> (Inl (Driver e), db) | None \<Rightarrow>
      if TokenDetail r = None then (Inl (CheckViolation ''usage_records_token_detail_is_object''), db)
      else (case insertUsage (usageRow now r) db of
              Inl e \<Rightarrow> (Inl e, db)
            | Inr db' \<Rightarrow> (Inr (), db')))"

subsection \<open>What the operations leave alone\<close>

lemma insertUsage_Inr:
  "insertUsage u db = Inr db' \<Longrightarrow> db' = db\<lparr>usage_records := usage_records db @ [u]\<rparr>"
  by (auto simp: insertUsage_def split: option.splits if_splits)

lemma insertAll_Inr:
  "insertAll us db = Inr db' \<Longrightarrow> db' = db\<lparr>usage_records := usage_records db @ us\<rparr>"
proof (induction us arbitrary: db)
  case (Cons u us)
  then obtain db1 where 1: "insertUsage u db = Inr db1" "insertAll us db1 = Inr db'"
    by (auto split: sum.splits)
  from Cons.IH [OF 1(2)] insertUsage_Inr [OF 1(1)] show ?case by simp
qed simp

lemma WriteBatch_result:
  "WriteBatch fault now rs db = (r, db') \<Longrightarrow>
     (case r of Inl _ \<Rightarrow> db' = db
      | Inr _ \<Rightarrow> db' = db\<lparr>usage_records := usage_records db @ map (usageRow now) rs\<rparr>)"
  by (auto simp: WriteBatch_def split: if_splits option.splits sum.splits dest: insertAll_Inr)

lemma WriteUsageRecord_result:
  "WriteUsageRecord fault now r db = (x, db') \<Longrightarrow>
     (case x of Inl _ \<Rightarrow> db' = db
      | Inr _ \<Rightarrow> db' = db\<lparr>usage_records := usage_records db @ [usageRow now r]\<rparr>)"
  by (auto simp: WriteUsageRecord_def split: if_splits option.splits sum.splits dest: insertUsage_Inr)

end
