(* ===== verification/Budget_Store.thy ===== *)
theory Budget_Store
  imports Store
begin

text \<open>
  Package \<open>store\<close>, files \<open>budget.go\<close> and \<open>reconcile.go\<close>, with the sweep of \<open>budget/reaper.go\<close>: taking,
  settling and reaping reservations, and the reconciliation of the balances with the log.

  The balance row of a key caches what the reservation log says. The lemmas show that every operation,
  on every path, keeps the two equal; that a reservation granted leaves the key within its limit; that
  a key can pass its limit only by what the log records as overshoot or as settled after expiry; and
  that an operation that reports an error left the database alone, a lost commit apart.
\<close>

subsection \<open>Reserve\<close>

record ReserveInput =
  ri_KeyHash :: bytes
  ri_Model :: string
  ri_EstimatedUSD :: decimal
  ri_TTL :: duration

record ReserveOutput =
  ro_ReservationID :: uuid
  ro_KeyID :: uuid
  ro_WindowStart :: date
  ro_DisconnectPolicy :: string
  ro_DrainTimeoutMS :: "int option"

definition contains_str :: "string list \<Rightarrow> string \<Rightarrow> bool" where
  "contains_str haystack needle = list_ex (\<lambda>s. s = needle) haystack"

definition nextWindowStart :: "time \<Rightarrow> time" where
  "nextWindowStart now = month_start (current_month now + 31) * 86400000000000"

definition rotatedSpent :: "date \<Rightarrow> key_budget \<Rightarrow> num10" where
  "rotatedSpent month kb = (if kb_window_start kb < month then 0 else kb_spent_usd kb)"

text \<open>The two halves of the \<open>WHERE\<close> clause of \<open>reserveSQL\<close>: the key and its budget row.\<close>

definition reserveKey :: "ReserveInput \<Rightarrow> virtual_key \<Rightarrow> bool" where
  "reserveKey inp vk \<longleftrightarrow>
     vk_hash vk = ri_KeyHash inp \<and> vk_revoked_at vk = None \<and>
     (case vk_allowed_models vk of None \<Rightarrow> True | Some ms \<Rightarrow> ri_Model inp \<in> set ms)"

definition reserveFits :: "date \<Rightarrow> decimal \<Rightarrow> key_budget \<Rightarrow> bool" where
  "reserveFits month est kb \<longleftrightarrow>
     (case kb_limit_usd kb of
        None \<Rightarrow> True
      | Some l \<Rightarrow> dec10 (rotatedSpent month kb) + dec10 (kb_reserved_usd kb) + est \<le> dec10 l)"

definition reserveRow :: "date \<Rightarrow> decimal \<Rightarrow> key_budget \<Rightarrow> key_budget" where
  "reserveRow month est kb = kb\<lparr>kb_spent_usd := rotatedSpent month kb,
     kb_window_start := max (kb_window_start kb) month,
     kb_reserved_usd := num10 (dec10 (kb_reserved_usd kb) + est)\<rparr>"

definition reserveUpdate :: "time \<Rightarrow> ReserveInput \<Rightarrow> DB
    \<Rightarrow> store_error + (virtual_key \<times> key_budget \<times> DB) option" where
  "reserveUpdate now inp db =
     (case find (reserveKey inp) (virtual_keys db) of
        None \<Rightarrow> Inr None
      | Some vk \<Rightarrow>
        (let month = current_month now; est = ri_EstimatedUSD inp
         in case find (\<lambda>kb. kb_key_id kb = vk_id vk \<and> reserveFits month est kb) (key_budgets db) of
              None \<Rightarrow> Inr None
            | Some kb \<Rightarrow>
              (case checkBudget (reserveRow month est kb) of
                 Some e \<Rightarrow> Inl e
               | None \<Rightarrow> Inr (Some (vk, reserveRow month est kb,
                   db\<lparr>key_budgets := update_where (\<lambda>x. kb_key_id x = vk_id vk) (reserveRow month est)
                        (key_budgets db)\<rparr>)))))"

definition insertReservation :: "reservation \<Rightarrow> DB \<Rightarrow> store_error + DB" where
  "insertReservation r db =
     (if \<not> fits10 (rv_estimated_usd r) then Inl NumericOverflow
      else if rv_estimated_usd r < 0
        then Inl (CheckViolation ''budget_reservations_estimated_non_negative'')
      else if list_ex (\<lambda>x. rv_id x = rv_id r) (budget_reservations db)
        then Inl (UniqueViolation ''budget_reservations_pkey'')
      else if \<not> list_ex (\<lambda>x. vk_id x = rv_key_id r) (virtual_keys db)
        then Inl (ForeignKeyViolation ''budget_reservations_key_id_fkey'')
      else Inr (db\<lparr>budget_reservations := budget_reservations db @ [r]\<rparr>))"

text \<open>
  The diagnosis reads through the other pool, at its own moment: \<open>seen\<close> is the database it finds and
  \<open>fault\<close> its failure.
\<close>

definition diagnoseReserve :: "string option \<Rightarrow> time \<Rightarrow> ReserveInput \<Rightarrow> DB \<Rightarrow> store_error" where
  "diagnoseReserve fault now inp seen =
     (case fault of Some e \<Rightarrow> Driver e | None \<Rightarrow>
     (case find (\<lambda>vk. vk_hash vk = ri_KeyHash inp) (virtual_keys seen) of
        None \<Rightarrow> ErrKeyNotFound
      | Some vk \<Rightarrow>
        (case find (\<lambda>kb. kb_key_id kb = vk_id vk) (key_budgets seen) of
           None \<Rightarrow> ErrKeyNotFound
         | Some kb \<Rightarrow>
           if vk_revoked_at vk \<noteq> None then ErrKeyRevoked
           else if \<exists>ms \<in> set_option (vk_allowed_models vk). \<not> contains_str ms (ri_Model inp)
             then ErrModelNotAllowed
           else ErrBudgetExceeded
             \<lparr>be_LimitUSD = map_option dec10 (kb_limit_usd kb), be_SpentUSD = dec10 (kb_spent_usd kb),
              be_ReservedUSD = dec10 (kb_reserved_usd kb), be_WindowResetsAt = nextWindowStart now\<rparr>)))"

text \<open>\<open>i\<close> is the identifier \<open>uuid.New\<close> returned; statement 0 is the update, 1 the insert, 2 the diagnosis.\<close>

definition Reserve :: "Conn \<Rightarrow> time \<Rightarrow> DB \<Rightarrow> uuid \<Rightarrow> ReserveInput \<Rightarrow> DB \<Rightarrow> ReserveOutput stored" where
  "Reserve c now seen i inp db =
     (case on_begin c of Some e \<Rightarrow> (Inl (Driver e), db) | None \<Rightarrow>
     (case on_stmt c 0 of Some e \<Rightarrow> (Inl (Driver e), db) | None \<Rightarrow>
     (case reserveUpdate now inp db of
        Inl e \<Rightarrow> (Inl e, db)
      | Inr None \<Rightarrow> (Inl (diagnoseReserve (on_stmt c 2) now inp seen), db)
      | Inr (Some (vk, kb, db1)) \<Rightarrow>
        (case on_stmt c 1 of Some e \<Rightarrow> (Inl (Driver e), db) | None \<Rightarrow>
        (case insertReservation
             \<lparr>rv_id = i, rv_key_id = kb_key_id kb, rv_window_start = kb_window_start kb,
              rv_state = Pending, rv_estimated_usd = num10 (ri_EstimatedUSD inp), rv_actual_usd = None,
              rv_expires_at = now + go_quot (ri_TTL inp) 1000000 * 1000000, rv_overshoot = False,
              rv_settled_after_expiry = False, rv_created_at = now, rv_settled_at = None\<rparr> db1 of
           Inl e \<Rightarrow> (Inl e, db)
         | Inr db2 \<Rightarrow> commit_tx c db db2
             \<lparr>ro_ReservationID = i, ro_KeyID = kb_key_id kb, ro_WindowStart = kb_window_start kb,
              ro_DisconnectPolicy = vk_disconnect_policy vk,
              ro_DrainTimeoutMS = vk_drain_timeout_ms vk\<rparr>)))))"

subsection \<open>Settle\<close>

record SettleInput =
  si_ReservationID :: uuid
  si_ActualUSD :: decimal

record SettleOutput =
  so_Applied :: bool
  so_Overshoot :: bool
  so_SettledAfterExpiry :: bool
  so_EstimatedUSD :: decimal
  so_WindowStart :: date

definition settleRow :: "time \<Rightarrow> decimal \<Rightarrow> reservation \<Rightarrow> reservation" where
  "settleRow now actual r = r\<lparr>rv_state := Settled, rv_actual_usd := Some (num10 actual),
     rv_settled_at := Some now, rv_overshoot := dec10 (rv_estimated_usd r) < actual,
     rv_settled_after_expiry := (rv_state r = Expired)\<rparr>"

definition settleBudget :: "decimal \<Rightarrow> reservation \<Rightarrow> key_budget \<Rightarrow> key_budget" where
  "settleBudget actual r kb = kb\<lparr>
     kb_reserved_usd := num10 (dec10 (kb_reserved_usd kb)
       - (if rv_settled_after_expiry r then 0 else dec10 (rv_estimated_usd r))),
     kb_spent_usd := num10 (dec10 (kb_spent_usd kb)
       + (if kb_window_start kb = rv_window_start r then actual else 0))\<rparr>"

text \<open>An update of the budget row of one key, refused when it breaks a constraint.\<close>

definition updateBudget :: "uuid \<Rightarrow> (key_budget \<Rightarrow> key_budget) \<Rightarrow> DB \<Rightarrow> store_error + DB" where
  "updateBudget key f db =
     (case find (\<lambda>kb. kb_key_id kb = key \<and> checkBudget (f kb) \<noteq> None) (key_budgets db) of
        Some kb \<Rightarrow> Inl (the (checkBudget (f kb)))
      | None \<Rightarrow> Inr (db\<lparr>key_budgets := update_where (\<lambda>kb. kb_key_id kb = key) f (key_budgets db)\<rparr>))"

definition Settle :: "Conn \<Rightarrow> time \<Rightarrow> SettleInput \<Rightarrow> DB \<Rightarrow> SettleOutput stored" where
  "Settle c now inp db =
     (case on_begin c of Some e \<Rightarrow> (Inl (Driver e), db) | None \<Rightarrow>
     (case on_stmt c 0 of Some e \<Rightarrow> (Inl (Driver e), db) | None \<Rightarrow>
     (case find (\<lambda>r. rv_id r = si_ReservationID inp \<and> rv_state r \<in> {Pending, Expired})
             (budget_reservations db) of
        None \<Rightarrow> commit_tx c db db
          \<lparr>so_Applied = False, so_Overshoot = False, so_SettledAfterExpiry = False, so_EstimatedUSD = 0,
           so_WindowStart = 0\<rparr>
      | Some r \<Rightarrow>
        (let r' = settleRow now (si_ActualUSD inp) r
         in if \<not> fits10 (num10 (si_ActualUSD inp)) then (Inl NumericOverflow, db)
            else if num10 (si_ActualUSD inp) < 0
              then (Inl (CheckViolation ''budget_reservations_actual_non_negative''), db)
            else (case on_stmt c 1 of Some e \<Rightarrow> (Inl (Driver e), db) | None \<Rightarrow>
                 (case updateBudget (rv_key_id r') (settleBudget (si_ActualUSD inp) r')
                        (db\<lparr>budget_reservations := update_where
                           (\<lambda>x. rv_id x = si_ReservationID inp \<and> rv_state x \<in> {Pending, Expired})
                           (settleRow now (si_ActualUSD inp)) (budget_reservations db)\<rparr>) of
                    Inl e \<Rightarrow> (Inl e, db)
                  | Inr db2 \<Rightarrow> commit_tx c db db2
                      \<lparr>so_Applied = True, so_Overshoot = rv_overshoot r',
                       so_SettledAfterExpiry = rv_settled_after_expiry r',
                       so_EstimatedUSD = dec10 (rv_estimated_usd r'),
                       so_WindowStart = rv_window_start r'\<rparr>))))))"

subsection \<open>Reap\<close>

definition expiredPending :: "time \<Rightarrow> (uuid \<Rightarrow> bool) \<Rightarrow> reservation \<Rightarrow> bool" where
  "expiredPending now locked r \<longleftrightarrow> rv_state r = Pending \<and> rv_expires_at r < now \<and> \<not> locked (rv_id r)"

fun claimTotals :: "reservation list \<Rightarrow> (uuid \<times> decimal) list \<Rightarrow> (uuid \<times> decimal) list" where
  "claimTotals [] totals = totals"
| "claimTotals (r # rs) totals = claimTotals rs
     (AList.update (rv_key_id r) (map_get 0 totals (rv_key_id r) + dec10 (rv_estimated_usd r)) totals)"

definition releaseRow :: "decimal \<Rightarrow> key_budget \<Rightarrow> key_budget" where
  "releaseRow x kb = kb\<lparr>kb_reserved_usd := num10 (dec10 (kb_reserved_usd kb) - x)\<rparr>"

fun releaseAll :: "Conn \<Rightarrow> nat \<Rightarrow> (uuid \<times> decimal) list \<Rightarrow> DB \<Rightarrow> store_error + DB" where
  "releaseAll c n [] db = Inr db"
| "releaseAll c n ((key, x) # ts) db =
     (case on_stmt c n of Some e \<Rightarrow> Inl (Driver e) | None \<Rightarrow>
     (case updateBudget key (releaseRow x) db of
        Inl e \<Rightarrow> Inl e
      | Inr db' \<Rightarrow> releaseAll c (Suc n) ts db'))"

text \<open>
  \<open>locked\<close> are the rows other transactions hold, which \<open>SKIP LOCKED\<close> leaves out. Statements: 0 the
  claim, 1 reading its rows, 2 locking the budgets, 3 expiring, then one release per key.
\<close>

definition reapOnce :: "Conn \<Rightarrow> time \<Rightarrow> (uuid \<Rightarrow> bool) \<Rightarrow> nat \<Rightarrow> DB \<Rightarrow> nat stored" where
  "reapOnce c now locked limit db =
     (case on_begin c of Some e \<Rightarrow> (Inl (Driver e), db) | None \<Rightarrow>
     (case on_stmt c 0 of Some e \<Rightarrow> (Inl (Driver e), db) | None \<Rightarrow>
     (case on_stmt c 1 of Some e \<Rightarrow> (Inl (Driver e), db) | None \<Rightarrow>
      (let claims = take limit (sort_key rv_expires_at
                      (filter (expiredPending now locked) (budget_reservations db)))
       in if claims = [] then commit_tx c db db 0
          else (case on_stmt c 2 of Some e \<Rightarrow> (Inl (Driver e), db) | None \<Rightarrow>
               (case on_stmt c 3 of Some e \<Rightarrow> (Inl (Driver e), db) | None \<Rightarrow>
                (let expiring = (\<lambda>r. rv_id r \<in> set (map rv_id claims) \<and> rv_state r = Pending);
                     db1 = db\<lparr>budget_reservations := update_where expiring
                             (\<lambda>r. r\<lparr>rv_state := Expired\<rparr>) (budget_reservations db)\<rparr>
                 in case releaseAll c 4 (claimTotals claims []) db1 of
                      Inl e \<Rightarrow> (Inl e, db)
                    | Inr db2 \<Rightarrow> commit_tx c db db2
                        (length (filter expiring (budget_reservations db))))))))))"

record ReapOutput =
  ra_Reaped :: nat
  ra_DeadlockRetries :: nat

definition deadlockDetected :: string where "deadlockDetected = ''40P01''"

text \<open>The loop of two attempts; \<open>cs\<close>, \<open>nows\<close> and \<open>locks\<close> are the driver, the clock and the locks of each.\<close>

fun ReapExpired_loop :: "(nat \<Rightarrow> Conn) \<Rightarrow> (nat \<Rightarrow> time) \<Rightarrow> (nat \<Rightarrow> uuid \<Rightarrow> bool) \<Rightarrow> nat \<Rightarrow> nat \<Rightarrow> nat
    \<Rightarrow> ReapOutput \<Rightarrow> DB \<Rightarrow> (store_error option \<times> ReapOutput) \<times> DB" where
  "ReapExpired_loop cs nows locks limit attempt 0 out db = ((None, out), db)"
| "ReapExpired_loop cs nows locks limit attempt (Suc left) out db =
     (case reapOnce (cs attempt) (nows attempt) (locks attempt) limit db of
        (Inr reaped, db') \<Rightarrow> ((None, out\<lparr>ra_Reaped := reaped\<rparr>), db')
      | (Inl e, db') \<Rightarrow>
          if e = Driver deadlockDetected \<and> attempt = 0
          then ReapExpired_loop cs nows locks limit (Suc attempt) left
                 (out\<lparr>ra_DeadlockRetries := ra_DeadlockRetries out + 1\<rparr>) db'
          else ((Some e, out), db'))"

definition ReapExpired :: "(nat \<Rightarrow> Conn) \<Rightarrow> (nat \<Rightarrow> time) \<Rightarrow> (nat \<Rightarrow> uuid \<Rightarrow> bool) \<Rightarrow> nat \<Rightarrow> DB
    \<Rightarrow> (store_error option \<times> ReapOutput) \<times> DB" where
  "ReapExpired cs nows locks limit db =
     ReapExpired_loop cs nows locks limit 0 2 \<lparr>ra_Reaped = 0, ra_DeadlockRetries = 0\<rparr> db"

subsection \<open>Reading the budget\<close>

definition RemainingBudget :: "string option \<Rightarrow> DB \<Rightarrow> uuid \<Rightarrow> store_error + decimal option" where
  "RemainingBudget fault db key =
     (case fault of Some e \<Rightarrow> Inl (Driver e) | None \<Rightarrow>
     (case find (\<lambda>kb. kb_key_id kb = key) (key_budgets db) of
        None \<Rightarrow> Inl (Driver ''no rows'')
      | Some kb \<Rightarrow> Inr (map_option
          (\<lambda>l. dec10 l - dec10 (kb_spent_usd kb) - dec10 (kb_reserved_usd kb)) (kb_limit_usd kb))))"

definition KeyHasBudget :: "string option \<Rightarrow> DB \<Rightarrow> bytes \<Rightarrow> store_error + bool" where
  "KeyHasBudget fault db hash =
     (case fault of Some e \<Rightarrow> Inl (Driver e) | None \<Rightarrow>
     (case find (\<lambda>vk. vk_hash vk = hash \<and> vk_revoked_at vk = None) (virtual_keys db) of
        None \<Rightarrow> Inl ErrKeyNotFound
      | Some vk \<Rightarrow>
        (case find (\<lambda>kb. kb_key_id kb = vk_id vk) (key_budgets db) of
           None \<Rightarrow> Inl ErrKeyNotFound
         | Some kb \<Rightarrow> Inr (kb_limit_usd kb \<noteq> None))))"

subsection \<open>Reconciliation (reconcile.go)\<close>

definition logSpent :: "reservation list \<Rightarrow> uuid \<Rightarrow> date \<Rightarrow> num10" where
  "logSpent rs key window =
     (\<Sum>r\<leftarrow>rs. if rv_key_id r = key \<and> rv_window_start r = window \<and> rv_state r = Settled
       then (case rv_actual_usd r of None \<Rightarrow> 0 | Some a \<Rightarrow> a) else 0)"

definition logReserved :: "reservation list \<Rightarrow> uuid \<Rightarrow> num10" where
  "logReserved rs key =
     (\<Sum>r\<leftarrow>rs. if rv_key_id r = key \<and> rv_state r = Pending then rv_estimated_usd r else 0)"

record BalanceDrift =
  bd_KeyID :: uuid
  bd_MaterialisedSpent :: decimal
  bd_MaterialisedReserved :: decimal
  bd_LogSpent :: decimal
  bd_LogReserved :: decimal

record ReconcileReport =
  rr_BalanceDrift :: "BalanceDrift list"
  rr_SettledWithoutUsageRecord :: nat
  rr_CostWindowMismatch :: nat

definition balanceDrift :: "DB \<Rightarrow> BalanceDrift list" where
  "balanceDrift db =
     (let rs = budget_reservations db
      in map (\<lambda>kb. \<lparr>bd_KeyID = kb_key_id kb, bd_MaterialisedSpent = dec10 (kb_spent_usd kb),
               bd_MaterialisedReserved = dec10 (kb_reserved_usd kb),
               bd_LogSpent = dec10 (logSpent rs (kb_key_id kb) (kb_window_start kb)),
               bd_LogReserved = dec10 (logReserved rs (kb_key_id kb))\<rparr>)
           (filter (\<lambda>kb. kb_spent_usd kb \<noteq> logSpent rs (kb_key_id kb) (kb_window_start kb)
                \<or> kb_reserved_usd kb \<noteq> logReserved rs (kb_key_id kb)) (key_budgets db)))"

definition settledWithoutUsage :: "DB \<Rightarrow> nat" where
  "settledWithoutUsage db =
     length (filter (\<lambda>r. rv_state r = Settled
       \<and> \<not> list_ex (\<lambda>u. ur_reservation_id u = Some (rv_id r)) (usage_records db))
       (budget_reservations db))"

definition costWindowMismatch :: "DB \<Rightarrow> nat" where
  "costWindowMismatch db =
     (let costed = filter (\<lambda>u. ur_cost_usd u \<noteq> None) (usage_records db);
          groups = remdups (map (\<lambda>u. (ur_key_id u, ur_window_start u)) costed)
      in length (filter (\<lambda>(key, window).
           (\<Sum>u\<leftarrow>costed. if (ur_key_id u, ur_window_start u) = (key, window)
              then (case ur_cost_usd u of None \<Rightarrow> 0 | Some x \<Rightarrow> x) else 0)
           \<noteq> logSpent (budget_reservations db) key window) groups))"

definition Reconcile :: "(nat \<Rightarrow> string option) \<Rightarrow> DB \<Rightarrow> store_error + ReconcileReport" where
  "Reconcile fault db =
     (case fault 0 of Some e \<Rightarrow> Inl (Driver e) | None \<Rightarrow>
     (case fault 1 of Some e \<Rightarrow> Inl (Driver e) | None \<Rightarrow>
     (case fault 2 of Some e \<Rightarrow> Inl (Driver e) | None \<Rightarrow>
      Inr \<lparr>rr_BalanceDrift = balanceDrift db, rr_SettledWithoutUsageRecord = settledWithoutUsage db,
           rr_CostWindowMismatch = costWindowMismatch db\<rparr>)))"

definition ReconcileReport_OK :: "ReconcileReport \<Rightarrow> bool" where
  "ReconcileReport_OK r \<longleftrightarrow> rr_BalanceDrift r = [] \<and> rr_SettledWithoutUsageRecord r = 0
     \<and> rr_CostWindowMismatch r = 0"

subsection \<open>The invariant\<close>

text \<open>
  \<open>books\<close>: identifiers are unique, every key has exactly one budget row, amounts in the log are
  non-negative, no reservation is in a later window than its key, and each balance is what the log adds
  up to.
\<close>

definition row_ok :: "DB \<Rightarrow> reservation \<Rightarrow> bool" where
  "row_ok db r \<longleftrightarrow> 0 \<le> rv_estimated_usd r \<and> rv_key_id r \<in> vk_id ` set (virtual_keys db) \<and>
     (rv_state r = Settled \<longrightarrow> (\<exists>a. rv_actual_usd r = Some a \<and> 0 \<le> a))"

definition keys_ok :: "DB \<Rightarrow> bool" where
  "keys_ok db \<longleftrightarrow> distinct (map vk_id (virtual_keys db)) \<and> distinct (map vk_hash (virtual_keys db)) \<and>
     distinct (map kb_key_id (key_budgets db)) \<and> distinct (map rv_id (budget_reservations db)) \<and>
     kb_key_id ` set (key_budgets db) = vk_id ` set (virtual_keys db)"

definition balanced :: "reservation list \<Rightarrow> key_budget \<Rightarrow> bool" where
  "balanced rs kb \<longleftrightarrow>
     kb_spent_usd kb = logSpent rs (kb_key_id kb) (kb_window_start kb) \<and>
     kb_reserved_usd kb = logReserved rs (kb_key_id kb) \<and>
     (\<forall>r \<in> set rs. rv_key_id r = kb_key_id kb \<longrightarrow> rv_window_start r \<le> kb_window_start kb)"

definition books :: "DB \<Rightarrow> bool" where
  "books db \<longleftrightarrow> keys_ok db \<and> (\<forall>r \<in> set (budget_reservations db). row_ok db r) \<and>
     (\<forall>kb \<in> set (key_budgets db). balanced (budget_reservations db) kb)"

lemma booksI:
  "keys_ok db \<Longrightarrow> (\<And>r. r \<in> set (budget_reservations db) \<Longrightarrow> row_ok db r) \<Longrightarrow>
     (\<And>kb. kb \<in> set (key_budgets db) \<Longrightarrow> balanced (budget_reservations db) kb) \<Longrightarrow> books db"
  by (simp add: books_def)

lemma booksD:
  assumes "books db"
  shows "keys_ok db" and "r \<in> set (budget_reservations db) \<Longrightarrow> row_ok db r"
    and "kb \<in> set (key_budgets db) \<Longrightarrow> balanced (budget_reservations db) kb"
  using assms by (simp_all add: books_def)

lemma logSpent_nonneg: "(\<And>r. r \<in> set rs \<Longrightarrow> row_ok db r) \<Longrightarrow> 0 \<le> logSpent rs key w"
  unfolding logSpent_def by (rule sum_list_nonneg) (fastforce simp: row_ok_def)

lemma logReserved_nonneg: "(\<And>r. r \<in> set rs \<Longrightarrow> row_ok db r) \<Longrightarrow> 0 \<le> logReserved rs key"
  unfolding logReserved_def by (rule sum_list_nonneg) (fastforce simp: row_ok_def)

lemma books_balances_nonneg:
  assumes "books db" and "kb \<in> set (key_budgets db)"
  shows "0 \<le> kb_spent_usd kb" and "0 \<le> kb_reserved_usd kb"
  using booksD [OF assms(1)] assms(2) logSpent_nonneg logReserved_nonneg
  unfolding balanced_def by metis+

lemma set_update_key:
  "x \<in> set (update_where (\<lambda>x. key x = k) f xs) \<Longrightarrow>
     (\<And>x. x \<in> set xs \<Longrightarrow> key x \<noteq> k \<Longrightarrow> Q x) \<Longrightarrow> (\<And>x. x \<in> set xs \<Longrightarrow> key x = k \<Longrightarrow> Q (f x)) \<Longrightarrow> Q x"
  by (auto simp: set_update_where)

subsection \<open>Reserve keeps the books\<close>

lemma logSpent_snoc_pending:
  "rv_state r = Pending \<Longrightarrow> logSpent (rs @ [r]) key w = logSpent rs key w"
  by (simp add: logSpent_def)

lemma logReserved_snoc_pending:
  "rv_state r = Pending \<Longrightarrow>
     logReserved (rs @ [r]) key = logReserved rs key + (if rv_key_id r = key then rv_estimated_usd r else 0)"
  by (simp add: logReserved_def)

lemma logSpent_later_window:
  "(\<And>r. r \<in> set rs \<Longrightarrow> rv_key_id r = key \<Longrightarrow> rv_window_start r < w) \<Longrightarrow> logSpent rs key w = 0"
  unfolding logSpent_def by (induction rs) fastforce+

lemma reserveUpdate_Some:
  assumes "reserveUpdate now inp db = Inr (Some (vk, kb', db1))"
  obtains kb where "vk \<in> set (virtual_keys db)" and "reserveKey inp vk"
    and "kb \<in> set (key_budgets db)" and "kb_key_id kb = vk_id vk"
    and "reserveFits (current_month now) (ri_EstimatedUSD inp) kb"
    and "kb' = reserveRow (current_month now) (ri_EstimatedUSD inp) kb" and "checkBudget kb' = None"
    and "db1 = db\<lparr>key_budgets := update_where (\<lambda>x. kb_key_id x = vk_id vk)
           (reserveRow (current_month now) (ri_EstimatedUSD inp)) (key_budgets db)\<rparr>"
  using assms
  by (auto simp: reserveUpdate_def Let_def split: option.splits dest!: find_SomeD)

lemma insertReservation_Inr:
  assumes "insertReservation r db = Inr db'"
  shows "db' = db\<lparr>budget_reservations := budget_reservations db @ [r]\<rparr>"
    and "0 \<le> rv_estimated_usd r" and "rv_id r \<notin> rv_id ` set (budget_reservations db)"
    and "rv_key_id r \<in> vk_id ` set (virtual_keys db)"
  using assms
  by (auto simp: insertReservation_def list_ex_iff image_iff dest: sym split: if_splits)

lemma reserveRow_simps [simp]:
  "kb_key_id (reserveRow m est kb) = kb_key_id kb"
  "kb_window_start (reserveRow m est kb) = max (kb_window_start kb) m"
  "kb_spent_usd (reserveRow m est kb) = rotatedSpent m kb"
  "kb_limit_usd (reserveRow m est kb) = kb_limit_usd kb"
  by (simp_all add: reserveRow_def)

lemma balanced_reserveRow:
  assumes "balanced rs kb" and "0 \<le> kb_reserved_usd kb" and "0 \<le> num10 est"
    and "rv_state r = Pending" and "rv_key_id r = kb_key_id kb" and "rv_estimated_usd r = num10 est"
    and "rv_window_start r = max (kb_window_start kb) m"
  shows "balanced (rs @ [r]) (reserveRow m est kb)"
proof -
  from assms(1) have b: "kb_spent_usd kb = logSpent rs (kb_key_id kb) (kb_window_start kb)"
    "kb_reserved_usd kb = logReserved rs (kb_key_id kb)"
    "\<And>r. r \<in> set rs \<Longrightarrow> rv_key_id r = kb_key_id kb \<Longrightarrow> rv_window_start r \<le> kb_window_start kb"
    by (auto simp: balanced_def)
  have "rotatedSpent m kb = logSpent rs (kb_key_id kb) (max (kb_window_start kb) m)"
  proof (cases "kb_window_start kb < m")
    case True
    then have "logSpent rs (kb_key_id kb) m = 0"
      using b(3) by (intro logSpent_later_window) force
    with True show ?thesis by (simp add: rotatedSpent_def max_def)
  next
    case False
    with b(1) show ?thesis by (simp add: rotatedSpent_def max_def)
  qed
  moreover have "kb_reserved_usd (reserveRow m est kb) = logReserved (rs @ [r]) (kb_key_id kb)"
    using assms b(2) by (simp add: reserveRow_def num10_add_stored' logReserved_snoc_pending)
  moreover have "rv_window_start x \<le> max (kb_window_start kb) m"
    if "x \<in> set (rs @ [r])" "rv_key_id x = kb_key_id kb" for x
    using that b(3) [of x] assms(7) by auto
  ultimately show ?thesis
    by (simp add: balanced_def logSpent_snoc_pending assms(4))
qed

lemma balanced_other_key:
  "balanced rs kb \<Longrightarrow> rv_state r = Pending \<Longrightarrow> rv_key_id r \<noteq> kb_key_id kb \<Longrightarrow> balanced (rs @ [r]) kb"
  by (auto simp: balanced_def logSpent_snoc_pending logReserved_snoc_pending)

lemma reserve_books:
  assumes b: "books db" and u: "reserveUpdate now inp db = Inr (Some (vk, kb', db1))"
    and i: "insertReservation r db1 = Inr db2"
    and r: "rv_state r = Pending" "rv_key_id r = kb_key_id kb'"
      "rv_estimated_usd r = num10 (ri_EstimatedUSD inp)" "rv_window_start r = kb_window_start kb'"
  shows "books db2"
  using u
proof (rule reserveUpdate_Some)
  fix kb
  let ?m = "current_month now" and ?est = "ri_EstimatedUSD inp"
  assume kb: "kb \<in> set (key_budgets db)" "kb_key_id kb = vk_id vk" "kb' = reserveRow ?m ?est kb"
    and db1: "db1 = db\<lparr>key_budgets := update_where (\<lambda>x. kb_key_id x = vk_id vk) (reserveRow ?m ?est)
        (key_budgets db)\<rparr>"
  note I = insertReservation_Inr [OF i]
  have keys: "keys_ok db" by (rule booksD(1) [OF b])
  have ids: "map kb_key_id (key_budgets db2) = map kb_key_id (key_budgets db)"
    using I(1) db1 by (simp add: update_where_ids)
  show ?thesis
  proof (rule booksI)
    have "set (map kb_key_id (key_budgets db2)) = set (map kb_key_id (key_budgets db))"
      by (simp only: ids)
    then show "keys_ok db2" using keys ids I(1,3) db1 by (simp add: keys_ok_def)
  next
    fix x
    assume "x \<in> set (budget_reservations db2)"
    then show "row_ok db2 x"
      using I booksD(2) [OF b, of x] db1 r(1) by (auto simp: row_ok_def)
  next
    fix x
    assume "x \<in> set (key_budgets db2)"
    then have "x \<in> set (update_where (\<lambda>x. kb_key_id x = vk_id vk) (reserveRow ?m ?est) (key_budgets db))"
      using I(1) db1 by simp
    then have "balanced (budget_reservations db @ [r]) x"
    proof (rule set_update_key)
      fix y
      assume y: "y \<in> set (key_budgets db)" "kb_key_id y \<noteq> vk_id vk"
      then show "balanced (budget_reservations db @ [r]) y"
        using booksD(3) [OF b y(1)] r kb by (intro balanced_other_key) auto
    next
      fix y
      assume y: "y \<in> set (key_budgets db)" "kb_key_id y = vk_id vk"
      then have "y = kb" using keys kb key_inject [of kb_key_id] by (metis keys_ok_def)
      with r kb I(2) booksD(3) [OF b y(1)] books_balances_nonneg(2) [OF b y(1)]
      show "balanced (budget_reservations db @ [r]) (reserveRow ?m ?est y)"
        by (intro balanced_reserveRow) auto
    qed
    with I(1) db1 show "balanced (budget_reservations db2) x" by simp
  qed
qed

subsection \<open>Settle keeps the books\<close>

definition open_res :: "uuid \<Rightarrow> reservation \<Rightarrow> bool" where
  "open_res i r \<longleftrightarrow> rv_id r = i \<and> rv_state r \<in> {Pending, Expired}"

lemma filter_open_res:
  assumes "distinct (map rv_id rs)" and "r \<in> set rs" and "open_res i r"
  shows "filter (open_res i) rs = [r]"
proof -
  have "rv_id r = i" using assms(3) by (simp add: open_res_def)
  with filter_key_unique [OF assms(1,2)] have "filter (\<lambda>x. rv_id x = i) rs = [r]" by simp
  then have "filter (open_res i) (filter (\<lambda>x. rv_id x = i) rs) = [r]" using assms(3) by simp
  moreover have "filter (open_res i) (filter (\<lambda>x. rv_id x = i) rs) = filter (open_res i) rs"
    by (simp only: filter_filter) (rule filter_cong, auto simp: open_res_def)
  ultimately show ?thesis by simp
qed

lemma settleRow_simps [simp]:
  "rv_id (settleRow now a r) = rv_id r" "rv_key_id (settleRow now a r) = rv_key_id r"
  "rv_window_start (settleRow now a r) = rv_window_start r"
  "rv_estimated_usd (settleRow now a r) = rv_estimated_usd r"
  "rv_state (settleRow now a r) = Settled" "rv_actual_usd (settleRow now a r) = Some (num10 a)"
  "rv_settled_after_expiry (settleRow now a r) = (rv_state r = Expired)"
  by (simp_all add: settleRow_def)

lemma settleRow_overshoot: "rv_overshoot (settleRow now a r) = (dec10 (rv_estimated_usd r) < a)"
  by (simp add: settleRow_def)

lemma settle_log:
  assumes "distinct (map rv_id rs)" and "r \<in> set rs" and "open_res i r"
  shows "logReserved (update_where (open_res i) (settleRow now a) rs) key
      = logReserved rs key - (if rv_key_id r = key \<and> rv_state r = Pending then rv_estimated_usd r else 0)"
    and "logSpent (update_where (open_res i) (settleRow now a) rs) key w
      = logSpent rs key w + (if rv_key_id r = key \<and> rv_window_start r = w then num10 a else 0)"
  using assms
  by (auto simp: logReserved_def logSpent_def update_where_sum filter_open_res open_res_def)

lemma balanced_settle:
  assumes "balanced rs kb" and "0 \<le> kb_spent_usd kb" and "0 \<le> num10 a"
    and "distinct (map rv_id rs)" and "r \<in> set rs" and "open_res i r"
  shows "balanced (update_where (open_res i) (settleRow now a) rs)
     (if kb_key_id kb = rv_key_id r then settleBudget a (settleRow now a r) kb else kb)"
proof -
  have w: "\<forall>x \<in> set (update_where (open_res i) (settleRow now a) rs).
      rv_key_id x = kb_key_id kb \<longrightarrow> rv_window_start x \<le> kb_window_start kb"
    using assms(1) by (auto simp: set_update_where balanced_def)
  show ?thesis
    using assms(1-3,6) w settle_log [OF assms(4-6)]
    by (auto simp: balanced_def settleBudget_def dec10_diff num10_add_stored' open_res_def)
qed

lemma updateBudget_Inr:
  assumes "updateBudget key f db = Inr db'"
  shows "db' = db\<lparr>key_budgets := update_where (\<lambda>kb. kb_key_id kb = key) f (key_budgets db)\<rparr>"
    and "kb \<in> set (key_budgets db) \<Longrightarrow> kb_key_id kb = key \<Longrightarrow> checkBudget (f kb) = None"
  using assms by (auto simp: updateBudget_def find_None_iff split: option.splits)

lemma settle_books:
  assumes b: "books db" and r: "r \<in> set (budget_reservations db)" "open_res i r"
    and a: "0 \<le> num10 a"
    and u: "updateBudget (rv_key_id r) (settleBudget a (settleRow now a r))
        (db\<lparr>budget_reservations := update_where (open_res i) (settleRow now a) (budget_reservations db)\<rparr>)
        = Inr db2"
  shows "books db2"
proof -
  let ?rs = "update_where (open_res i) (settleRow now a) (budget_reservations db)"
  let ?f = "settleBudget a (settleRow now a r)"
  have db2: "db2 = db\<lparr>budget_reservations := ?rs,
      key_budgets := update_where (\<lambda>kb. kb_key_id kb = rv_key_id r) ?f (key_budgets db)\<rparr>"
    using updateBudget_Inr(1) [OF u] by simp
  have keys: "keys_ok db" by (rule booksD(1) [OF b])
  have ids: "map kb_key_id (key_budgets db2) = map kb_key_id (key_budgets db)"
    "map rv_id ?rs = map rv_id (budget_reservations db)"
    by (simp_all add: db2 update_where_ids settleBudget_def)
  show ?thesis
  proof (rule booksI)
    have "set (map kb_key_id (key_budgets db2)) = set (map kb_key_id (key_budgets db))"
      by (simp only: ids)
    then show "keys_ok db2" using keys ids by (simp add: keys_ok_def db2)
  next
    fix x
    assume "x \<in> set (budget_reservations db2)"
    then show "row_ok db2 x"
      using booksD(2) [OF b] a by (auto simp: row_ok_def db2 set_update_where)
  next
    fix x
    assume "x \<in> set (key_budgets db2)"
    then obtain y where y: "y \<in> set (key_budgets db)"
      "x = (if kb_key_id y = rv_key_id r then ?f y else y)"
      by (auto simp: db2 set_update_where)
    have "distinct (map rv_id (budget_reservations db))" using keys by (simp add: keys_ok_def)
    with y balanced_settle [OF booksD(3) [OF b y(1)] books_balances_nonneg(1) [OF b y(1)] a _ r]
    show "balanced (budget_reservations db2) x" by (simp add: db2)
  qed
qed

subsection \<open>Reap keeps the books\<close>

lemma claimTotals_go_map: "go_map ts \<Longrightarrow> go_map (claimTotals rs ts)"
  by (induction rs ts rule: claimTotals.induct) auto

lemma claimTotals_get:
  "map_get 0 (claimTotals rs ts) key
     = map_get 0 ts key + (\<Sum>r\<leftarrow>rs. if rv_key_id r = key then dec10 (rv_estimated_usd r) else 0)"
  by (induction rs ts rule: claimTotals.induct) auto

lemma sum_dec10:
  "(\<Sum>r\<leftarrow>rs. if P r then dec10 (f r) else 0) = dec10 (\<Sum>r\<leftarrow>rs. if P r then f r else 0)"
  by (induction rs) (auto simp: dec10_add)

text \<open>Releasing every total is one rewrite of the budget table.\<close>

definition released :: "(uuid \<times> decimal) list \<Rightarrow> key_budget \<Rightarrow> key_budget" where
  "released ts kb = (case map_of ts (kb_key_id kb) of None \<Rightarrow> kb | Some x \<Rightarrow> releaseRow x kb)"

lemma released_Cons:
  assumes "go_map ((key, x) # ts)"
  shows "released ts (if kb_key_id kb = key then releaseRow x kb else kb) = released ((key, x) # ts) kb"
proof (cases "kb_key_id kb = key")
  case True
  then have "map_of ts (kb_key_id kb) = None" using assms by (force simp: map_of_eq_None_iff)
  with True show ?thesis by (simp add: released_def releaseRow_def)
qed (simp add: released_def)

lemma releaseAll_Inr:
  "releaseAll c n ts db = Inr db' \<Longrightarrow> go_map ts \<Longrightarrow>
     db' = db\<lparr>key_budgets := map (released ts) (key_budgets db)\<rparr>"
proof (induction c n ts db rule: releaseAll.induct)
  case (1 c n db)
  have "released [] = (\<lambda>kb. kb)" by (simp add: released_def fun_eq_iff)
  with 1 show ?case by simp
next
  case (2 c n key x ts db)
  then obtain db1 where u: "on_stmt c n = None" "updateBudget key (releaseRow x) db = Inr db1"
    and rest: "releaseAll c (Suc n) ts db1 = Inr db'"
    by (auto split: option.splits sum.splits)
  from "2.IH" [OF u rest] "2.prems"(2)
  have "db' = db1\<lparr>key_budgets := map (released ts) (key_budgets db1)\<rparr>" by simp
  moreover have "map (released ts) (update_where (\<lambda>kb. kb_key_id kb = key) (releaseRow x) (key_budgets db))
      = map (released ((key, x) # ts)) (key_budgets db)"
    unfolding update_where_def map_map o_def by (simp only: released_Cons [OF "2.prems"(2)])
  ultimately show ?case using updateBudget_Inr(1) [OF u(2)] by simp
qed

lemma released_simps [simp]:
  "kb_key_id (released ts kb) = kb_key_id kb" "kb_window_start (released ts kb) = kb_window_start kb"
  "kb_spent_usd (released ts kb) = kb_spent_usd kb" "kb_limit_usd (released ts kb) = kb_limit_usd kb"
  "kb_reserved_usd (released ts kb)
     = num10 (dec10 (kb_reserved_usd kb) - map_get 0 ts (kb_key_id kb))"
  by (simp_all add: released_def releaseRow_def map_get_def split: option.split)

definition claimed :: "time \<Rightarrow> (uuid \<Rightarrow> bool) \<Rightarrow> nat \<Rightarrow> DB \<Rightarrow> reservation list" where
  "claimed now locked limit db = take limit (sort_key rv_expires_at
     (filter (expiredPending now locked) (budget_reservations db)))"

definition expiring :: "reservation list \<Rightarrow> reservation \<Rightarrow> bool" where
  "expiring claims r \<longleftrightarrow> rv_id r \<in> set (map rv_id claims) \<and> rv_state r = Pending"

definition expireRow :: "reservation \<Rightarrow> reservation" where
  "expireRow r = r\<lparr>rv_state := Expired\<rparr>"

lemma expireRow_simps [simp]:
  "rv_id (expireRow r) = rv_id r" "rv_key_id (expireRow r) = rv_key_id r"
  "rv_window_start (expireRow r) = rv_window_start r"
  "rv_estimated_usd (expireRow r) = rv_estimated_usd r" "rv_state (expireRow r) = Expired"
  by (simp_all add: expireRow_def)

lemma set_claimed:
  "r \<in> set (claimed now locked limit db) \<Longrightarrow>
     r \<in> set (budget_reservations db) \<and> expiredPending now locked r"
  unfolding claimed_def by (drule in_set_takeD) simp

lemma expiring_claims:
  assumes "distinct (map rv_id (budget_reservations db))"
  shows "mset (filter (expiring (claimed now locked limit db)) (budget_reservations db))
    = mset (claimed now locked limit db)"
proof -
  let ?c = "claimed now locked limit db" and ?rs = "budget_reservations db"
  have "distinct ?rs" using assms by (simp add: distinct_map)
  then have d: "distinct ?c" "distinct (filter (expiring ?c) ?rs)"
    by (simp_all add: claimed_def)
  have "set (filter (expiring ?c) ?rs) = set ?c"
  proof
    show "set (filter (expiring ?c) ?rs) \<subseteq> set ?c"
    proof
      fix x
      assume "x \<in> set (filter (expiring ?c) ?rs)"
      then obtain y where "x \<in> set ?rs" "y \<in> set ?c" "rv_id x = rv_id y"
        by (auto simp: expiring_def)
      with set_claimed [of y] key_inject [OF assms, of x y] show "x \<in> set ?c" by auto
    qed
  next
    show "set ?c \<subseteq> set (filter (expiring ?c) ?rs)"
      using set_claimed [of _ now locked limit db] by (auto simp: expiring_def expiredPending_def)
  qed
  with d show ?thesis by (simp only: set_eq_iff_mset_eq_distinct)
qed

lemma sum_list_mset_eq: "mset xs = mset ys \<Longrightarrow> (\<Sum>x\<leftarrow>xs. f x) = (\<Sum>x\<leftarrow>ys. f x :: 'a :: comm_monoid_add)"
  by (metis mset_map sum_mset_sum_list)

lemma expire_log:
  fixes now :: time and locked :: "uuid \<Rightarrow> bool" and limit :: nat
  assumes "distinct (map rv_id (budget_reservations db))"
  defines "cl \<equiv> claimed now locked limit db"
  shows "logSpent (update_where (expiring cl) expireRow (budget_reservations db)) key w
      = logSpent (budget_reservations db) key w"
    and "logReserved (update_where (expiring cl) expireRow (budget_reservations db)) key
      = logReserved (budget_reservations db) key
        - (\<Sum>r\<leftarrow>cl. if rv_key_id r = key then rv_estimated_usd r else 0)"
proof -
  let ?rs = "budget_reservations db"
  show "logSpent (update_where (expiring cl) expireRow ?rs) key w = logSpent ?rs key w"
    unfolding logSpent_def update_where_def map_map
    by (intro arg_cong [where f = sum_list] map_cong) (auto simp: expiring_def)
  let ?g = "\<lambda>r. if rv_key_id r = key \<and> rv_state r = Pending then rv_estimated_usd r else 0"
  have "(\<Sum>r\<leftarrow>filter (expiring cl) ?rs. ?g (expireRow r) - ?g r)
      = (\<Sum>r\<leftarrow>filter (expiring cl) ?rs. - (if rv_key_id r = key then rv_estimated_usd r else 0))"
    by (intro arg_cong [where f = sum_list] map_cong) (auto simp: expiring_def)
  also have "\<dots> = (\<Sum>r\<leftarrow>cl. - (if rv_key_id r = key then rv_estimated_usd r else 0))"
    unfolding cl_def by (rule sum_list_mset_eq) (rule expiring_claims [OF assms(1)])
  also have "\<dots> = - (\<Sum>r\<leftarrow>cl. if rv_key_id r = key then rv_estimated_usd r else 0)"
    by (simp add: uminus_sum_list_map o_def)
  finally show "logReserved (update_where (expiring cl) expireRow ?rs) key
      = logReserved ?rs key - (\<Sum>r\<leftarrow>cl. if rv_key_id r = key then rv_estimated_usd r else 0)"
    unfolding logReserved_def update_where_sum by simp
qed

lemma released_claims:
  "kb_reserved_usd (released (claimTotals cl []) kb)
     = kb_reserved_usd kb - (\<Sum>r\<leftarrow>cl. if rv_key_id r = kb_key_id kb then rv_estimated_usd r else 0)"
  by (simp add: claimTotals_get sum_dec10 dec10_diff)

definition reaped :: "reservation list \<Rightarrow> DB \<Rightarrow> DB" where
  "reaped cl db = db\<lparr>budget_reservations := update_where (expiring cl) expireRow (budget_reservations db),
     key_budgets := map (released (claimTotals cl [])) (key_budgets db)\<rparr>"

lemma reap_books:
  assumes b: "books db"
  shows "books (reaped (claimed now locked limit db) db)"
proof -
  let ?cl = "claimed now locked limit db"
  have keys: "keys_ok db" by (rule booksD(1) [OF b])
  then have d: "distinct (map rv_id (budget_reservations db))" by (simp add: keys_ok_def)
  have ids: "map kb_key_id (map (released (claimTotals ?cl [])) (key_budgets db))
      = map kb_key_id (key_budgets db)" by simp
  show ?thesis
  proof (rule booksI)
    show "keys_ok (reaped ?cl db)"
      using keys by (simp add: keys_ok_def reaped_def update_where_ids o_def image_image)
  next
    fix x
    assume "x \<in> set (budget_reservations (reaped ?cl db))"
    then show "row_ok (reaped ?cl db) x"
      using booksD(2) [OF b] by (auto simp: row_ok_def reaped_def set_update_where)
  next
    fix x
    assume "x \<in> set (key_budgets (reaped ?cl db))"
    then obtain kb where kb: "kb \<in> set (key_budgets db)" "x = released (claimTotals ?cl []) kb"
      by (auto simp: reaped_def)
    from booksD(3) [OF b kb(1)] show "balanced (budget_reservations (reaped ?cl db)) x"
      using expire_log [OF d, where now = now and locked = locked and limit = limit] released_claims [of ?cl kb]
      by (auto simp: balanced_def reaped_def kb(2) set_update_where simp del: released_simps(5))
  qed
qed

subsection \<open>What each operation can do to the database\<close>

text \<open>The update \<open>reapOnce\<close> writes is \<open>reaped\<close>.\<close>

lemma reapOnce_unfold: "reapOnce c now locked limit db =
     (case on_begin c of Some e \<Rightarrow> (Inl (Driver e), db) | None \<Rightarrow>
     (case on_stmt c 0 of Some e \<Rightarrow> (Inl (Driver e), db) | None \<Rightarrow>
     (case on_stmt c 1 of Some e \<Rightarrow> (Inl (Driver e), db) | None \<Rightarrow>
      if (claimed now locked limit db) = [] then commit_tx c db db 0
      else (case on_stmt c 2 of Some e \<Rightarrow> (Inl (Driver e), db) | None \<Rightarrow>
           (case on_stmt c 3 of Some e \<Rightarrow> (Inl (Driver e), db) | None \<Rightarrow>
            (case releaseAll c 4 (claimTotals (claimed now locked limit db) []) (db\<lparr>budget_reservations := update_where
               (expiring (claimed now locked limit db)) expireRow (budget_reservations db)\<rparr>) of
               Inl e \<Rightarrow> (Inl e, db)
             | Inr db2 \<Rightarrow> commit_tx c db db2
                 (length (filter (expiring (claimed now locked limit db)) (budget_reservations db)))))))))"
  unfolding reapOnce_def claimed_def expiring_def expireRow_def Let_def ..

lemma reapOnce_result:
  assumes "reapOnce c now locked limit db = (res, db')"
  shows "db' = db \<or> db' = reaped (claimed now locked limit db) db"
    and "res = Inr n \<Longrightarrow> on_commit c = None \<and> db' = (if claimed now locked limit db = [] then db
            else reaped (claimed now locked limit db) db)"
    and "res = Inl e \<Longrightarrow> \<not> commit_applied c \<Longrightarrow> db' = db"
proof -
  let ?cl = "claimed now locked limit db"
  let ?db1 = "db\<lparr>budget_reservations := update_where (expiring ?cl) expireRow (budget_reservations db)\<rparr>"
  have rel: "db2 = reaped ?cl db" if "releaseAll c 4 (claimTotals ?cl []) ?db1 = Inr db2" for db2
    using releaseAll_Inr [OF that] by (simp add: claimTotals_go_map reaped_def)
  show "db' = db \<or> db' = reaped ?cl db"
    using assms rel unfolding reapOnce_unfold
    by (auto simp: commit_tx_def split: option.splits if_splits sum.splits)
  show "on_commit c = None \<and> db' = (if ?cl = [] then db else reaped ?cl db)" if "res = Inr n"
    using assms rel that unfolding reapOnce_unfold
    by (auto simp: commit_tx_def split: option.splits if_splits sum.splits)
  show "db' = db" if "res = Inl e" "\<not> commit_applied c"
    using assms that unfolding reapOnce_unfold
    by (auto simp: commit_tx_def split: option.splits if_splits sum.splits)
qed

lemma Reserve_result:
  assumes "Reserve c now seen i inp db = (res, db')"
  shows "books db \<Longrightarrow> books db'"
    and "res = Inl e \<Longrightarrow> \<not> commit_applied c \<Longrightarrow> db' = db"
  using assms reserve_books
  by (auto simp: Reserve_def commit_tx_def split: option.splits sum.splits if_splits)

lemma Reserve_cases:
  assumes "Reserve c now seen i inp db = (res, db')"
  obtains "db' = db"
    | vk kb db1 r where "reserveUpdate now inp db = Inr (Some (vk, kb, db1))"
      and "insertReservation r db1 = Inr db'"
      and "rv_state r = Pending" and "rv_key_id r = kb_key_id kb"
      and "rv_estimated_usd r = num10 (ri_EstimatedUSD inp)" and "rv_window_start r = kb_window_start kb"
      and "rv_id r = i"
  using assms
  by (auto simp: Reserve_def commit_tx_def split: option.splits sum.splits if_splits)

lemma Settle_unfold: "Settle c now inp db =
     (case on_begin c of Some e \<Rightarrow> (Inl (Driver e), db) | None \<Rightarrow>
     (case on_stmt c 0 of Some e \<Rightarrow> (Inl (Driver e), db) | None \<Rightarrow>
     (case find (open_res (si_ReservationID inp)) (budget_reservations db) of
        None \<Rightarrow> commit_tx c db db
          \<lparr>so_Applied = False, so_Overshoot = False, so_SettledAfterExpiry = False, so_EstimatedUSD = 0,
           so_WindowStart = 0\<rparr>
      | Some r \<Rightarrow>
        if \<not> fits10 (num10 (si_ActualUSD inp)) then (Inl NumericOverflow, db)
        else if num10 (si_ActualUSD inp) < 0
          then (Inl (CheckViolation ''budget_reservations_actual_non_negative''), db)
        else (case on_stmt c 1 of Some e \<Rightarrow> (Inl (Driver e), db) | None \<Rightarrow>
             (case updateBudget (rv_key_id r)
                 (settleBudget (si_ActualUSD inp) (settleRow now (si_ActualUSD inp) r))
                 (db\<lparr>budget_reservations := update_where (open_res (si_ReservationID inp))
                     (settleRow now (si_ActualUSD inp)) (budget_reservations db)\<rparr>) of
                Inl e \<Rightarrow> (Inl e, db)
              | Inr db2 \<Rightarrow> commit_tx c db db2
                  \<lparr>so_Applied = True, so_Overshoot = dec10 (rv_estimated_usd r) < si_ActualUSD inp,
                   so_SettledAfterExpiry = (rv_state r = Expired),
                   so_EstimatedUSD = dec10 (rv_estimated_usd r),
                   so_WindowStart = rv_window_start r\<rparr>)))))"
  unfolding Settle_def open_res_def [abs_def] Let_def settleRow_simps settleRow_overshoot ..

lemma Settle_cases:
  assumes "Settle c now inp db = (res, db')"
  obtains "db' = db"
    | r where "r \<in> set (budget_reservations db)" and "open_res (si_ReservationID inp) r"
      and "0 \<le> num10 (si_ActualUSD inp)"
      and "updateBudget (rv_key_id r)
                 (settleBudget (si_ActualUSD inp) (settleRow now (si_ActualUSD inp) r))
                 (db\<lparr>budget_reservations := update_where (open_res (si_ReservationID inp))
                     (settleRow now (si_ActualUSD inp)) (budget_reservations db)\<rparr>) = Inr db'"
  using assms unfolding Settle_unfold
  by (auto simp: commit_tx_def not_less dest!: find_SomeD split: option.splits sum.splits if_splits)

lemma Settle_books: "Settle c now inp db = (res, db') \<Longrightarrow> books db \<Longrightarrow> books db'"
  by (erule Settle_cases) (auto dest: settle_books)

lemma Settle_error: "Settle c now inp db = (Inl e, db') \<Longrightarrow> \<not> commit_applied c \<Longrightarrow> db' = db"
  unfolding Settle_unfold
  by (auto simp: commit_tx_def split: option.splits sum.splits if_splits)

lemma reapOnce_books: "reapOnce c now locked limit db = (res, db') \<Longrightarrow> books db \<Longrightarrow> books db'"
  using reapOnce_result(1) reap_books by metis

lemma ReapExpired_loop_books:
  "ReapExpired_loop cs nows locks limit k n out db = (res, db') \<Longrightarrow> books db \<Longrightarrow> books db'"
proof (induction cs nows locks limit k n out db rule: ReapExpired_loop.induct)
  case (2 cs nows locks limit attempt left out db)
  obtain r db1 where 1: "reapOnce (cs attempt) (nows attempt) (locks attempt) limit db = (r, db1)"
    by (cases "reapOnce (cs attempt) (nows attempt) (locks attempt) limit db")
  with "2.prems"(2) have "books db1" by (auto dest: reapOnce_books)
  with 1 2 show ?case by (auto split: sum.splits if_splits)
qed simp

lemma ReapExpired_books: "ReapExpired cs nows locks limit db = (res, db') \<Longrightarrow> books db \<Longrightarrow> books db'"
  unfolding ReapExpired_def by (rule ReapExpired_loop_books)

subsection \<open>Key operations keep the books\<close>

lemma insertKey_Inr:
  assumes "insertKey vk db = Inr db'"
  shows "db' = db\<lparr>virtual_keys := virtual_keys db @ [vk]\<rparr>"
    and "vk_id vk \<notin> vk_id ` set (virtual_keys db)" and "vk_hash vk \<notin> vk_hash ` set (virtual_keys db)"
  using assms by (auto simp: insertKey_def list_ex_iff split: option.splits if_splits)

lemma insertBudget_Inr:
  assumes "insertBudget kb db = Inr db'"
  shows "db' = db\<lparr>key_budgets := key_budgets db @ [kb]\<rparr>"
    and "kb_key_id kb \<notin> kb_key_id ` set (key_budgets db)" and "checkBudget kb = None"
  using assms by (auto simp: insertBudget_def list_ex_iff split: option.splits if_splits)

lemma CreateKey_inserts:
  assumes "CreateKey c now i inp db = (res, db')"
  shows "db' = db \<or> (\<exists>vk kb db1. insertKey vk db = Inr db1 \<and> insertBudget kb db1 = Inr db' \<and>
    kb_key_id kb = vk_id vk \<and> kb_spent_usd kb = 0 \<and> kb_reserved_usd kb = 0)"
proof -
  define vk where "vk = \<lparr>vk_id = i, vk_hash = ci_Hash inp, vk_prefix = ci_Prefix inp,
     vk_label = ci_Label inp, vk_metadata = ci_Metadata inp, vk_allowed_models = ci_AllowedModels inp,
     vk_disconnect_policy = (if ci_DisconnectPolicy inp = [] then ''cancel''
             else ci_DisconnectPolicy inp),
     vk_drain_timeout_ms = ci_DrainTimeoutMS inp, vk_revoked_at = None, vk_created_at = now\<rparr>"
  define kb where "kb = \<lparr>kb_key_id = i, kb_window_start = current_month now,
     kb_limit_usd = map_option num10 (ci_LimitUSD inp), kb_spent_usd = 0, kb_reserved_usd = 0\<rparr>"
  have f: "kb_key_id kb = vk_id vk \<and> kb_spent_usd kb = 0 \<and> kb_reserved_usd kb = 0"
    by (simp add: vk_def kb_def)
  have "db' = db \<or> (\<exists>db1. insertKey vk db = Inr db1 \<and> insertBudget kb db1 = Inr db')"
    using assms unfolding CreateKey_def commit_tx_def vk_def [symmetric] kb_def [symmetric]
    by (auto split: option.splits sum.splits if_splits prod.splits)
  with f show ?thesis by blast
qed

lemma CreateKey_cases:
  assumes "CreateKey c now i inp db = (res, db')"
  obtains "db' = db"
    | vk kb where "db' = db\<lparr>virtual_keys := virtual_keys db @ [vk], key_budgets := key_budgets db @ [kb]\<rparr>"
      and "vk_id vk \<notin> vk_id ` set (virtual_keys db)" and "vk_hash vk \<notin> vk_hash ` set (virtual_keys db)"
      and "kb_key_id kb = vk_id vk" and "kb_key_id kb \<notin> kb_key_id ` set (key_budgets db)"
      and "kb_spent_usd kb = 0" and "kb_reserved_usd kb = 0" and "checkBudget kb = None"
proof -
  from CreateKey_inserts [OF assms] consider "db' = db" | vk kb db1 where
    "insertKey vk db = Inr db1" "insertBudget kb db1 = Inr db'" "kb_key_id kb = vk_id vk"
    "kb_spent_usd kb = 0" "kb_reserved_usd kb = 0" by blast
  then show thesis
  proof cases
    case 2
    note k = insertKey_Inr [OF 2(1)] and b = insertBudget_Inr [OF 2(2)]
    show thesis by (rule that(2)) (use 2 k b in auto)
  qed (rule that(1))
qed

lemma log_unknown_key:
  assumes "\<And>r. r \<in> set rs \<Longrightarrow> rv_key_id r \<noteq> key"
  shows "logSpent rs key w = 0" and "logReserved rs key = 0"
  using assms unfolding logSpent_def logReserved_def by (induction rs) auto

lemma CreateKey_books:
  assumes "CreateKey c now i inp db = (res, db')" and b: "books db"
  shows "books db'"
  using assms(1)
proof (rule CreateKey_cases)
  fix vk kb
  assume db': "db' = db\<lparr>virtual_keys := virtual_keys db @ [vk], key_budgets := key_budgets db @ [kb]\<rparr>"
    and new: "vk_id vk \<notin> vk_id ` set (virtual_keys db)" "vk_hash vk \<notin> vk_hash ` set (virtual_keys db)"
      "kb_key_id kb = vk_id vk" "kb_key_id kb \<notin> kb_key_id ` set (key_budgets db)"
    and z: "kb_spent_usd kb = 0" "kb_reserved_usd kb = 0"
  have other: "rv_key_id r \<noteq> kb_key_id kb" if "r \<in> set (budget_reservations db)" for r
    using booksD(2) [OF b that] new(1,3) by (auto simp: row_ok_def)
  then have "balanced (budget_reservations db) kb"
    using log_unknown_key [of "budget_reservations db" "kb_key_id kb"] z by (auto simp: balanced_def)
  then show ?thesis
    using b new by (auto simp: books_def db' keys_ok_def row_ok_def)
qed (use b in simp)

lemma books_same_ids:
  assumes "books db" and "map vk_id vks = map vk_id (virtual_keys db)"
    and "map vk_hash vks = map vk_hash (virtual_keys db)"
  shows "books (db\<lparr>virtual_keys := vks\<rparr>)"
proof -
  have "vk_id ` set vks = vk_id ` set (virtual_keys db)" using assms(2) by (metis set_map)
  with assms show ?thesis by (simp add: books_def keys_ok_def row_ok_def)
qed

lemma RevokeKey_result:
  assumes "RevokeKey fault now i db = (res, db')"
  shows "\<exists>vks. db' = db\<lparr>virtual_keys := vks\<rparr> \<and> map vk_id vks = map vk_id (virtual_keys db)
    \<and> map vk_hash vks = map vk_hash (virtual_keys db)"
  using assms
  by (auto simp: RevokeKey_def update_where_ids split: option.splits if_splits
      intro!: exI [of _ "virtual_keys db'"])

text \<open>What an update may touch: the keys, not their identifiers, and the limits.\<close>

definition same_money :: "DB \<Rightarrow> DB \<Rightarrow> bool" where
  "same_money db db' \<longleftrightarrow>
     map vk_id (virtual_keys db') = map vk_id (virtual_keys db) \<and>
     map vk_hash (virtual_keys db') = map vk_hash (virtual_keys db) \<and>
     budget_reservations db' = budget_reservations db \<and> usage_records db' = usage_records db \<and>
     map (\<lambda>kb. (kb_key_id kb, kb_window_start kb, kb_spent_usd kb, kb_reserved_usd kb)) (key_budgets db')
       = map (\<lambda>kb. (kb_key_id kb, kb_window_start kb, kb_spent_usd kb, kb_reserved_usd kb)) (key_budgets db)"

lemma same_money_refl [simp]: "same_money db db"
  by (simp add: same_money_def)

lemma same_money_trans: "same_money a b \<Longrightarrow> same_money b d \<Longrightarrow> same_money a d"
  by (simp add: same_money_def)

lemma same_money_books:
  assumes "same_money db db'" and "books db"
  shows "books db'"
proof -
  let ?p = "\<lambda>kb. (kb_key_id kb, kb_window_start kb, kb_spent_usd kb, kb_reserved_usd kb)"
  have ks: "map ?p (key_budgets db') = map ?p (key_budgets db)" using assms(1) by (simp add: same_money_def)
  then have "map fst (map ?p (key_budgets db')) = map fst (map ?p (key_budgets db))" by (rule arg_cong)
  then have ids: "map kb_key_id (key_budgets db') = map kb_key_id (key_budgets db)" by (simp add: o_def)
  then have ids': "kb_key_id ` set (key_budgets db') = kb_key_id ` set (key_budgets db)" by (metis set_map)
  have vks: "vk_id ` set (virtual_keys db') = vk_id ` set (virtual_keys db)"
    using assms(1) unfolding same_money_def by (metis set_map)
  have "balanced (budget_reservations db) kb" if "kb \<in> set (key_budgets db')" for kb
  proof -
    from that have "?p kb \<in> set (map ?p (key_budgets db))" by (simp flip: ks)
    then obtain y where "y \<in> set (key_budgets db)" "?p kb = ?p y" by auto
    with assms(2) show ?thesis by (auto simp: books_def balanced_def)
  qed
  with assms ids ids' vks show ?thesis
    by (simp add: books_def keys_ok_def row_ok_def same_money_def)
qed

lemma updateKeyField_same_money:
  assumes "updateKeyField c n i f db = Inr db'"
    and "\<And>g vk. f = Some g \<Longrightarrow> vk_id (g vk) = vk_id vk \<and> vk_hash (g vk) = vk_hash vk"
  shows "same_money db db' \<and> key_budgets db' = key_budgets db"
  using assms
  by (auto simp: updateKeyField_def same_money_def update_where_ids split: option.splits)

lemma updateLimit_same_money:
  assumes "updateLimit c n i l db = Inr db'"
  shows "same_money db db' \<and> (l = None \<longrightarrow> db' = db)"
  using assms
  by (auto simp: updateLimit_def same_money_def update_where_ids split: option.splits)

lemma set_field_Some: "set_field f g = Some h \<Longrightarrow> \<exists>x. h = g x"
  by (auto simp: set_field_def split: option.splits if_splits)

lemma applyUpdate_same_money:
  assumes "applyUpdate c i inp db = Inr db'"
  shows "same_money db db' \<and> (ui_LimitUSD inp = None \<longrightarrow> key_budgets db' = key_budgets db)"
proof -
  from assms obtain d1 d2 d3 d4 d5 where
    u1: "updateKeyField c 1 i (map_option (\<lambda>l vk. vk\<lparr>vk_label := l\<rparr>) (ui_Label inp)) db = Inr d1"
    and u2: "updateKeyField c 2 i
          (map_option (\<lambda>p vk. vk\<lparr>vk_disconnect_policy := p\<rparr>) (ui_DisconnectPolicy inp)) d1 = Inr d2"
    and u3: "updateKeyField c 3 i (set_field (ui_Metadata inp)
          (\<lambda>m vk. vk\<lparr>vk_metadata := (case m of None \<Rightarrow> [] | Some x \<Rightarrow> x)\<rparr>)) d2 = Inr d3"
    and u4: "updateKeyField c 4 i (set_field (ui_AllowedModels inp)
          (\<lambda>m vk. vk\<lparr>vk_allowed_models := (case m of None \<Rightarrow> None | Some None \<Rightarrow> Some []
             | Some (Some x) \<Rightarrow> Some x)\<rparr>)) d3 = Inr d4"
    and u5: "updateKeyField c 5 i (set_field (ui_DrainTimeoutMS inp)
          (\<lambda>v vk. vk\<lparr>vk_drain_timeout_ms := v\<rparr>)) d4 = Inr d5"
    and u6: "updateLimit c 6 i (set_field (ui_LimitUSD inp) (map_option num10)) d5 = Inr db'"
    unfolding applyUpdate_def by (auto split: sum.splits)
  have "same_money db d1 \<and> key_budgets d1 = key_budgets db"
    using u1 by (rule updateKeyField_same_money) auto
  moreover have "same_money d1 d2 \<and> key_budgets d2 = key_budgets d1"
    using u2 by (rule updateKeyField_same_money) auto
  moreover have "same_money d2 d3 \<and> key_budgets d3 = key_budgets d2"
    using u3 by (rule updateKeyField_same_money) (auto dest!: set_field_Some)
  moreover have "same_money d3 d4 \<and> key_budgets d4 = key_budgets d3"
    using u4 by (rule updateKeyField_same_money) (auto dest!: set_field_Some)
  moreover have "same_money d4 d5 \<and> key_budgets d5 = key_budgets d4"
    using u5 by (rule updateKeyField_same_money) (auto dest!: set_field_Some)
  ultimately have 5: "same_money db d5 \<and> key_budgets d5 = key_budgets db"
    using same_money_trans by (metis (no_types))
  with updateLimit_same_money [OF u6] have "same_money db db'" by (meson same_money_trans)
  moreover have "key_budgets db' = key_budgets db" if "ui_LimitUSD inp = None"
    using 5 updateLimit_same_money [OF u6] that by (simp add: set_field_def)
  ultimately show ?thesis by simp
qed

lemma UpdateKey_result:
  assumes "UpdateKey c i inp db = (res, db')"
  shows "same_money db db' \<and> (ui_LimitUSD inp = None \<longrightarrow> key_budgets db' = key_budgets db)"
  using assms applyUpdate_same_money
  by (auto simp: UpdateKey_def commit_tx_def split: option.splits sum.splits if_splits prod.splits)

subsection \<open>The store as a state machine\<close>

text \<open>
  Every transaction the program can run, in any order, on any input, with any driver fault and any
  clock. \<open>fixed_limits\<close> leaves out the one operation that changes a limit.
\<close>

inductive fixed_limits :: "DB \<Rightarrow> DB \<Rightarrow> bool" where
  step_create: "CreateKey c now i ci db = (ck, db') \<Longrightarrow> fixed_limits db db'"
| step_revoke: "RevokeKey fault now i db = (rk, db') \<Longrightarrow> fixed_limits db db'"
| step_update: "UpdateKey c i ui db = (uk, db') \<Longrightarrow> ui_LimitUSD ui = None \<Longrightarrow> fixed_limits db db'"
| step_reserve: "Reserve c now seen i ri db = (rr, db') \<Longrightarrow> fixed_limits db db'"
| step_settle: "Settle c now si db = (sr, db') \<Longrightarrow> fixed_limits db db'"
| step_reap: "ReapExpired cs nows locks limit db = (rx, db') \<Longrightarrow> fixed_limits db db'"
| step_batch: "WriteBatch fault now recs db = (wb, db') \<Longrightarrow> fixed_limits db db'"
| step_record: "WriteUsageRecord fault now rec db = (wr, db') \<Longrightarrow> fixed_limits db db'"

inductive db_step :: "DB \<Rightarrow> DB \<Rightarrow> bool" where
  step_fixed: "fixed_limits db db' \<Longrightarrow> db_step db db'"
| step_limit: "UpdateKey c i ui db = (uk, db') \<Longrightarrow> db_step db db'"

lemma usage_books: "books (db\<lparr>usage_records := us\<rparr>) = books db"
  by (simp add: books_def keys_ok_def row_ok_def)

lemma usage_ops_result:
  "WriteBatch fault now recs db = (wb, db') \<Longrightarrow> \<exists>us. db' = db\<lparr>usage_records := us\<rparr>"
  "WriteUsageRecord fault now rec db = (wr, db') \<Longrightarrow> \<exists>us. db' = db\<lparr>usage_records := us\<rparr>"
  by (drule WriteBatch_result WriteUsageRecord_result, cases db,
      auto split: sum.splits intro: exI [of _ "usage_records db"])+

lemma fixed_limits_books: "fixed_limits db db' \<Longrightarrow> books db \<Longrightarrow> books db'"
proof (induction rule: fixed_limits.induct)
  case (step_revoke fault now i db rk db')
  with RevokeKey_result books_same_ids show ?case by metis
next
  case (step_update c i ui db uk db')
  with UpdateKey_result same_money_books show ?case by blast
next
  case (step_batch fault now recs db wb db')
  then show ?case using usage_ops_result(1) usage_books by metis
next
  case (step_record fault now rec db wr db')
  then show ?case using usage_ops_result(2) usage_books by metis
qed (auto intro: CreateKey_books Reserve_result(1) Settle_books ReapExpired_books)

lemma db_step_books: "db_step db db' \<Longrightarrow> books db \<Longrightarrow> books db'"
  by (induction rule: db_step.induct)
    (auto intro: fixed_limits_books dest: UpdateKey_result same_money_books)

lemma books_empty: "books empty_DB"
  by (simp add: books_def keys_ok_def empty_DB_def)

interpretation store: guarded_system "\<lambda>db. db = empty_DB" db_step books
  by unfold_locales (auto intro: db_step_books simp: books_empty)

subsection \<open>How far a key can pass its limit\<close>

text \<open>
  What the log records beyond the reservations: the overshoot of a settlement over its estimate, and
  the whole amount of a settlement whose reservation had already been released.
\<close>

definition row_excess :: "reservation \<Rightarrow> num10" where
  "row_excess r = (case rv_actual_usd r of None \<Rightarrow> 0
     | Some a \<Rightarrow> if rv_settled_after_expiry r then a else max 0 (a - rv_estimated_usd r))"

definition excess :: "reservation list \<Rightarrow> uuid \<Rightarrow> date \<Rightarrow> num10" where
  "excess rs key w = (\<Sum>r\<leftarrow>rs. if rv_key_id r = key \<and> rv_window_start r = w \<and> rv_state r = Settled
     then row_excess r else 0)"

definition bounded :: "reservation list \<Rightarrow> key_budget \<Rightarrow> bool" where
  "bounded rs kb \<longleftrightarrow> (case kb_limit_usd kb of None \<Rightarrow> True
     | Some l \<Rightarrow> kb_spent_usd kb + kb_reserved_usd kb
         \<le> l + excess rs (kb_key_id kb) (kb_window_start kb))"

definition within_limits :: "DB \<Rightarrow> bool" where
  "within_limits db \<longleftrightarrow> (\<forall>kb \<in> set (key_budgets db). bounded (budget_reservations db) kb)"

lemma excess_nonneg: "(\<And>r. r \<in> set rs \<Longrightarrow> row_ok db r) \<Longrightarrow> 0 \<le> excess rs key w"
  unfolding excess_def by (rule sum_list_nonneg) (fastforce simp: row_ok_def row_excess_def)

lemma excess_snoc_pending: "rv_state r = Pending \<Longrightarrow> excess (rs @ [r]) key w = excess rs key w"
  by (simp add: excess_def)

lemma reserveFits_bound:
  assumes "reserveFits m est kb" and "kb_limit_usd kb = Some l" and "0 \<le> num10 est"
    and "0 \<le> kb_reserved_usd kb" and "0 \<le> kb_spent_usd kb"
  shows "kb_spent_usd (reserveRow m est kb) + kb_reserved_usd (reserveRow m est kb) \<le> l"
proof -
  have nn: "0 \<le> rotatedSpent m kb + kb_reserved_usd kb" using assms(4,5) by (simp add: rotatedSpent_def)
  have "dec10 (rotatedSpent m kb + kb_reserved_usd kb) + est \<le> dec10 l"
    using assms(1,2) by (simp add: reserveFits_def dec10_add)
  from num10_le_stored [OF this] show ?thesis
    using assms nn by (simp add: reserveRow_def num10_add_stored')
qed

lemma Reserve_within:
  assumes "Reserve c now seen i inp db = (res, db')" and b: "books db" and w: "within_limits db"
  shows "within_limits db'"
  using assms(1)
proof (rule Reserve_cases)
  fix vk kb' db1 r
  assume u: "reserveUpdate now inp db = Inr (Some (vk, kb', db1))"
    and ins: "insertReservation r db1 = Inr db'" and r: "rv_state r = Pending"
    and est: "rv_estimated_usd r = num10 (ri_EstimatedUSD inp)"
  let ?m = "current_month now" and ?est = "ri_EstimatedUSD inp"
  note I = insertReservation_Inr [OF ins]
  from u show ?thesis
  proof (rule reserveUpdate_Some)
    fix kb
    assume kb: "kb \<in> set (key_budgets db)" "kb_key_id kb = vk_id vk" "reserveFits ?m ?est kb"
      and db1: "db1 = db\<lparr>key_budgets := update_where (\<lambda>x. kb_key_id x = vk_id vk) (reserveRow ?m ?est)
          (key_budgets db)\<rparr>"
    have rs: "budget_reservations db' = budget_reservations db @ [r]" using I(1) db1 by simp
    have "bounded (budget_reservations db @ [r]) x" if "x \<in> set (key_budgets db')" for x
    proof -
      from that have "x \<in> set (update_where (\<lambda>x. kb_key_id x = vk_id vk) (reserveRow ?m ?est)
          (key_budgets db))" using I(1) db1 by simp
      then show ?thesis
      proof (rule set_update_key)
        fix y
        assume "y \<in> set (key_budgets db)"
        with w show "bounded (budget_reservations db @ [r]) y"
          by (auto simp: within_limits_def bounded_def excess_snoc_pending [OF r] split: option.splits)
      next
        fix y
        assume y: "y \<in> set (key_budgets db)" "kb_key_id y = vk_id vk"
        have "y = kb" using booksD(1) [OF b] y kb key_inject [of kb_key_id] by (metis keys_ok_def)
        moreover have "0 \<le> excess (budget_reservations db) key wd" for key wd
          using booksD(2) [OF b] by (rule excess_nonneg)
        ultimately show "bounded (budget_reservations db @ [r]) (reserveRow ?m ?est y)"
          using reserveFits_bound [OF kb(3)] I(2) est books_balances_nonneg [OF b y(1)]
          by (auto simp: bounded_def excess_snoc_pending [OF r] add_increasing2 split: option.splits)
      qed
    qed
    with rs show ?thesis by (simp add: within_limits_def)
  qed
qed (use w in simp)

lemma excess_settle:
  assumes "distinct (map rv_id rs)" and "r \<in> set rs" and "open_res i r" and "0 \<le> num10 a"
    and "0 \<le> rv_estimated_usd r"
  shows "excess (update_where (open_res i) (settleRow now a) rs) key w = excess rs key w
     + (if rv_key_id r = key \<and> rv_window_start r = w
        then (if rv_state r = Expired then num10 a else max 0 (num10 a - rv_estimated_usd r)) else 0)"
  using assms(3)
  by (auto simp: excess_def update_where_sum filter_open_res [OF assms(1-3)] open_res_def row_excess_def)

lemma settleBudget_values:
  assumes "0 \<le> kb_spent_usd kb" and "0 \<le> num10 a"
  shows "kb_spent_usd (settleBudget a (settleRow now a r) kb)
      = kb_spent_usd kb + (if kb_window_start kb = rv_window_start r then num10 a else 0)"
    and "kb_reserved_usd (settleBudget a (settleRow now a r) kb)
      = kb_reserved_usd kb - (if rv_state r = Expired then 0 else rv_estimated_usd r)"
  using assms by (auto simp: settleBudget_def num10_add_stored' dec10_diff)

lemma Settle_within:
  assumes "Settle c now inp db = (res, db')" and b: "books db" and w: "within_limits db"
  shows "within_limits db'"
  using assms(1)
proof (rule Settle_cases)
  fix r
  let ?a = "si_ActualUSD inp" and ?i = "si_ReservationID inp" and ?rs = "budget_reservations db"
  assume r: "r \<in> set ?rs" "open_res ?i r" and a: "0 \<le> num10 ?a"
    and u: "updateBudget (rv_key_id r) (settleBudget ?a (settleRow now ?a r))
        (db\<lparr>budget_reservations := update_where (open_res ?i) (settleRow now ?a) ?rs\<rparr>) = Inr db'"
  have e: "0 \<le> rv_estimated_usd r" using booksD(2) [OF b r(1)] by (simp add: row_ok_def)
  have "distinct (map rv_id ?rs)" using booksD(1) [OF b] by (simp add: keys_ok_def)
  note ex = excess_settle [OF this r a e]
  have db': "db' = db\<lparr>budget_reservations := update_where (open_res ?i) (settleRow now ?a) ?rs,
      key_budgets := update_where (\<lambda>kb. kb_key_id kb = rv_key_id r)
        (settleBudget ?a (settleRow now ?a r)) (key_budgets db)\<rparr>"
    using updateBudget_Inr(1) [OF u] by simp
  have "bounded (update_where (open_res ?i) (settleRow now ?a) ?rs) x" if "x \<in> set (key_budgets db')" for x
  proof -
    from that have "x \<in> set (update_where (\<lambda>kb. kb_key_id kb = rv_key_id r)
        (settleBudget ?a (settleRow now ?a r)) (key_budgets db))" by (simp add: db')
    then show ?thesis
    proof (rule set_update_key)
      fix y
      assume "y \<in> set (key_budgets db)" "kb_key_id y \<noteq> rv_key_id r"
      with w show "bounded (update_where (open_res ?i) (settleRow now ?a) ?rs) y"
        by (auto simp: within_limits_def bounded_def ex split: option.splits)
    next
      fix y
      assume y: "y \<in> set (key_budgets db)" "kb_key_id y = rv_key_id r"
      have same: "kb_limit_usd (settleBudget ?a (settleRow now ?a r) y) = kb_limit_usd y"
        "kb_key_id (settleBudget ?a (settleRow now ?a r) y) = kb_key_id y"
        "kb_window_start (settleBudget ?a (settleRow now ?a r) y) = kb_window_start y"
        by (simp_all add: settleBudget_def)
      from y w have "bounded ?rs y" by (simp add: within_limits_def)
      then show "bounded (update_where (open_res ?i) (settleRow now ?a) ?rs)
          (settleBudget ?a (settleRow now ?a r) y)"
        using settleBudget_values [OF books_balances_nonneg(1) [OF b y(1)] a] y(2) e
        by (auto simp: bounded_def ex same split: option.splits)
    qed
  qed
  then show ?thesis by (simp add: within_limits_def db')
qed (use w in simp)

lemma excess_reaped:
  "excess (update_where (expiring cl) expireRow rs) key w = excess rs key w"
  unfolding excess_def update_where_def map_map
  by (intro arg_cong [where f = sum_list] map_cong) (auto simp: expiring_def)

lemma reaped_within:
  assumes b: "books db" and w: "within_limits db"
  shows "within_limits (reaped (claimed now locked limit db) db)"
proof -
  let ?cl = "claimed now locked limit db"
  have "0 \<le> (\<Sum>r\<leftarrow>?cl. if rv_key_id r = key then rv_estimated_usd r else 0)" for key
    using set_claimed booksD(2) [OF b] by (intro sum_list_nonneg) (fastforce simp: row_ok_def)
  then have le: "kb_reserved_usd (released (claimTotals ?cl []) kb) \<le> kb_reserved_usd kb" for kb
    by (simp only: released_claims) simp
  have "bounded (update_where (expiring ?cl) expireRow (budget_reservations db))
      (released (claimTotals ?cl []) kb)" if "kb \<in> set (key_budgets db)" for kb
  proof -
    from that w have "bounded (budget_reservations db) kb" by (simp add: within_limits_def)
    with le [of kb] show ?thesis
      by (auto simp: bounded_def excess_reaped simp del: released_simps(5) split: option.splits)
  qed
  then show ?thesis by (simp add: within_limits_def reaped_def)
qed

lemma ReapExpired_loop_within:
  "ReapExpired_loop cs nows locks limit k n out db = (res, db') \<Longrightarrow> books db \<Longrightarrow> within_limits db \<Longrightarrow>
     within_limits db'"
proof (induction cs nows locks limit k n out db rule: ReapExpired_loop.induct)
  case (2 cs nows locks limit attempt left out db)
  obtain r db1 where 1: "reapOnce (cs attempt) (nows attempt) (locks attempt) limit db = (r, db1)"
    by (cases "reapOnce (cs attempt) (nows attempt) (locks attempt) limit db")
  with "2.prems"(2,3) have "books db1" "within_limits db1"
    using reapOnce_books reapOnce_result(1) [OF 1] reaped_within by blast+
  with 1 2 show ?case by (auto split: sum.splits if_splits)
qed simp

lemma CreateKey_within:
  assumes "CreateKey c now i inp db = (res, db')" and b: "books db" and w: "within_limits db"
  shows "within_limits db'"
  using assms(1)
proof (rule CreateKey_cases)
  fix vk kb
  assume db': "db' = db\<lparr>virtual_keys := virtual_keys db @ [vk], key_budgets := key_budgets db @ [kb]\<rparr>"
    and z: "kb_spent_usd kb = 0" "kb_reserved_usd kb = 0" and ck: "checkBudget kb = None"
  have "0 \<le> excess (budget_reservations db) (kb_key_id kb) (kb_window_start kb)"
    using booksD(2) [OF b] by (rule excess_nonneg)
  moreover have "0 \<le> l" if "kb_limit_usd kb = Some l" for l
    using ck that by (auto simp: checkBudget_def split: if_splits)
  ultimately have "bounded (budget_reservations db) kb"
    using z by (auto simp: bounded_def split: option.splits)
  with w show ?thesis by (simp add: within_limits_def db')
qed (use w in simp)

lemma fixed_limits_within: "fixed_limits db db' \<Longrightarrow> books db \<Longrightarrow> within_limits db \<Longrightarrow> within_limits db'"
proof (induction rule: fixed_limits.induct)
  case (step_revoke fault now i db rk db')
  then show ?case using RevokeKey_result [OF step_revoke(1)] by (auto simp: within_limits_def)
next
  case (step_update c i ui db uk db')
  then show ?case using UpdateKey_result [OF step_update(1)]
    by (simp add: within_limits_def same_money_def)
next
  case (step_reap cs nows locks limit db rx db')
  then show ?case unfolding ReapExpired_def by (blast intro: ReapExpired_loop_within)
next
  case (step_batch fault now recs db wb db')
  then show ?case using usage_ops_result(1) [OF step_batch(1)] by (auto simp: within_limits_def)
next
  case (step_record fault now rec db wr db')
  then show ?case using usage_ops_result(2) [OF step_record(1)] by (auto simp: within_limits_def)
qed (auto intro: CreateKey_within Reserve_within Settle_within)

interpretation limited: guarded_system "\<lambda>db. db = empty_DB" fixed_limits "\<lambda>db. books db \<and> within_limits db"
proof unfold_locales
  fix db :: DB
  assume "db = empty_DB"
  then show "books db \<and> within_limits db" by (simp add: books_empty) (simp add: within_limits_def empty_DB_def)
qed (auto intro: fixed_limits_books fixed_limits_within)

subsection \<open>Stored balances satisfy the constraints\<close>

definition stored_ok :: "DB \<Rightarrow> bool" where
  "stored_ok db \<longleftrightarrow> (\<forall>kb \<in> set (key_budgets db). checkBudget kb = None)"

lemma updateBudget_stored:
  "updateBudget key f db = Inr db' \<Longrightarrow> stored_ok db \<Longrightarrow> stored_ok db'"
  using updateBudget_Inr [of key f db db'] by (auto simp: stored_ok_def set_update_where)

lemma Reserve_stored:
  assumes "Reserve c now seen i inp db = (res, db')" and b: "books db" and w: "stored_ok db"
  shows "stored_ok db'"
  using assms(1)
proof (rule Reserve_cases)
  fix vk kb' db1 r
  assume u: "reserveUpdate now inp db = Inr (Some (vk, kb', db1))"
    and ins: "insertReservation r db1 = Inr db'"
  from u show ?thesis
  proof (rule reserveUpdate_Some)
    fix kb
    let ?f = "reserveRow (current_month now) (ri_EstimatedUSD inp)"
    assume kb: "kb \<in> set (key_budgets db)" "kb_key_id kb = vk_id vk" "kb' = ?f kb" "checkBudget kb' = None"
      and db1: "db1 = db\<lparr>key_budgets := update_where (\<lambda>x. kb_key_id x = vk_id vk) ?f (key_budgets db)\<rparr>"
    have "distinct (map kb_key_id (key_budgets db))" using booksD(1) [OF b] by (simp add: keys_ok_def)
    then have "y = kb" if "y \<in> set (key_budgets db)" "kb_key_id y = vk_id vk" for y
      using key_inject [of kb_key_id "key_budgets db" y kb] that kb(1,2) by simp
    with kb(3,4) have new: "checkBudget (?f y) = None"
      if "y \<in> set (key_budgets db)" "kb_key_id y = vk_id vk" for y
      using that by blast
    have "checkBudget x = None" if x: "x \<in> set (key_budgets db1)" for x
    proof -
      from x have "x \<in> set (update_where (\<lambda>x. kb_key_id x = vk_id vk) ?f (key_budgets db))"
        by (simp add: db1)
      then show ?thesis by (rule set_update_key) (use w new in \<open>simp_all add: stored_ok_def\<close>)
    qed
    with insertReservation_Inr(1) [OF ins] show ?thesis by (simp add: stored_ok_def)
  qed
qed (use w in simp)

lemma checkBudget_less_reserved:
  assumes "checkBudget kb = None" and "kb_limit_usd kb' = kb_limit_usd kb"
    and "kb_spent_usd kb' = kb_spent_usd kb" and "0 \<le> kb_reserved_usd kb'"
    and "kb_reserved_usd kb' \<le> kb_reserved_usd kb"
  shows "checkBudget kb' = None"
  using assms by (auto simp: checkBudget_def fits10_def split: if_splits)

lemma released_checked:
  assumes b: "books db" and w: "stored_ok db" and kb: "kb \<in> set (key_budgets db)"
  shows "checkBudget (released (claimTotals (claimed now locked limit db) []) kb) = None"
proof (rule checkBudget_less_reserved)
  let ?cl = "claimed now locked limit db"
  show "checkBudget kb = None" using w kb by (simp add: stored_ok_def)
  have "released (claimTotals ?cl []) kb \<in> set (key_budgets (reaped ?cl db))"
    using kb by (simp add: reaped_def)
  with books_balances_nonneg(2) [OF reap_books [OF b]]
  show "0 \<le> kb_reserved_usd (released (claimTotals ?cl []) kb)" by blast
  have "0 \<le> (\<Sum>r\<leftarrow>?cl. if rv_key_id r = kb_key_id kb then rv_estimated_usd r else 0)"
    using set_claimed booksD(2) [OF b] by (intro sum_list_nonneg) (fastforce simp: row_ok_def)
  then show "kb_reserved_usd (released (claimTotals ?cl []) kb) \<le> kb_reserved_usd kb"
    by (simp only: released_claims)
qed simp_all

lemma reaped_stored:
  "books db \<Longrightarrow> stored_ok db \<Longrightarrow> stored_ok (reaped (claimed now locked limit db) db)"
  unfolding stored_ok_def by (auto simp: reaped_def released_checked stored_ok_def)

lemma ReapExpired_loop_stored:
  "ReapExpired_loop cs nows locks limit k n out db = (res, db') \<Longrightarrow> books db \<Longrightarrow> stored_ok db \<Longrightarrow>
     stored_ok db'"
proof (induction cs nows locks limit k n out db rule: ReapExpired_loop.induct)
  case (2 cs nows locks limit attempt left out db)
  obtain r db1 where 1: "reapOnce (cs attempt) (nows attempt) (locks attempt) limit db = (r, db1)"
    by (cases "reapOnce (cs attempt) (nows attempt) (locks attempt) limit db")
  with "2.prems"(2,3) have "books db1" "stored_ok db1"
    using reapOnce_books reapOnce_result(1) [OF 1] reaped_stored by blast+
  with 1 2 show ?case by (auto split: sum.splits if_splits)
qed simp

lemma updateLimit_stored: "updateLimit c n i l db = Inr db' \<Longrightarrow> stored_ok db \<Longrightarrow> stored_ok db'"
  by (auto simp: updateLimit_def stored_ok_def set_update_where find_None_iff split: option.splits)

lemma updateKeyField_budgets: "updateKeyField c n i f db = Inr db' \<Longrightarrow> key_budgets db' = key_budgets db"
  by (auto simp: updateKeyField_def split: option.splits)

lemma UpdateKey_stored: "UpdateKey c i inp db = (res, db') \<Longrightarrow> stored_ok db \<Longrightarrow> stored_ok db'"
proof -
  assume u: "UpdateKey c i inp db = (res, db')" and w: "stored_ok db"
  have "stored_ok d" if a: "applyUpdate c i inp db = Inr d" for d
  proof -
    from a obtain d5 l where "key_budgets d5 = key_budgets db" "updateLimit c 6 i l d5 = Inr d"
      unfolding applyUpdate_def by (auto split: sum.splits dest!: updateKeyField_budgets)
    with w show ?thesis using updateLimit_stored [of c 6 i l d5 d] by (simp add: stored_ok_def)
  qed
  with u w show ?thesis
    by (auto simp: UpdateKey_def commit_tx_def split: option.splits sum.splits if_splits prod.splits)
qed

lemma fixed_limits_stored: "fixed_limits db db' \<Longrightarrow> books db \<Longrightarrow> stored_ok db \<Longrightarrow> stored_ok db'"
proof (induction rule: fixed_limits.induct)
  case (step_create c now i ci db ck db')
  then show ?case by (auto elim!: CreateKey_cases simp: stored_ok_def)
next
  case (step_revoke fault now i db rk db')
  then show ?case using RevokeKey_result [OF step_revoke(1)] by (auto simp: stored_ok_def)
next
  case (step_settle c now si db sr db')
  from step_settle(1) show ?case
    by (rule Settle_cases)
      (use step_settle(3) in \<open>auto dest!: updateBudget_stored simp: stored_ok_def\<close>)
next
  case (step_reap cs nows locks limit db rx db')
  then show ?case unfolding ReapExpired_def by (blast intro: ReapExpired_loop_stored)
next
  case (step_batch fault now recs db wb db')
  then show ?case using usage_ops_result(1) [OF step_batch(1)] by (auto simp: stored_ok_def)
next
  case (step_record fault now rec db wr db')
  then show ?case using usage_ops_result(2) [OF step_record(1)] by (auto simp: stored_ok_def)
qed (auto intro: Reserve_stored UpdateKey_stored)

lemma db_step_stored: "db_step db db' \<Longrightarrow> books db \<Longrightarrow> stored_ok db \<Longrightarrow> stored_ok db'"
  by (induction rule: db_step.induct) (auto intro: fixed_limits_stored UpdateKey_stored)

interpretation ledger: guarded_system "\<lambda>db. db = empty_DB" db_step "\<lambda>db. books db \<and> stored_ok db"
proof unfold_locales
  fix db :: DB
  assume "db = empty_DB"
  then show "books db \<and> stored_ok db" by (simp add: books_empty) (simp add: stored_ok_def empty_DB_def)
qed (auto intro: db_step_books db_step_stored)

lemma releaseAll_total:
  "(\<forall>k. on_stmt c k = None) \<Longrightarrow> go_map ts \<Longrightarrow>
     (\<And>kb key x. kb \<in> set (key_budgets db) \<Longrightarrow> (kb_key_id kb, x) \<in> set ts \<Longrightarrow>
        checkBudget (releaseRow x kb) = None) \<Longrightarrow>
     \<exists>db'. releaseAll c n ts db = Inr db'"
proof (induction c n ts db rule: releaseAll.induct)
  case (2 c n key x ts db)
  have ok: "updateBudget key (releaseRow x) db
      = Inr (db\<lparr>key_budgets := update_where (\<lambda>kb. kb_key_id kb = key) (releaseRow x) (key_budgets db)\<rparr>)"
    using "2.prems"(3) by (auto simp: updateBudget_def find_None_iff split: option.splits dest!: find_SomeD)
  have "\<exists>db'. releaseAll c (Suc n) ts
      (db\<lparr>key_budgets := update_where (\<lambda>kb. kb_key_id kb = key) (releaseRow x) (key_budgets db)\<rparr>) = Inr db'"
  proof (rule "2.IH" [OF _ ok])
    fix kb y
    assume kb: "kb \<in> set (key_budgets (db\<lparr>key_budgets := update_where (\<lambda>kb. kb_key_id kb = key)
        (releaseRow x) (key_budgets db)\<rparr>))" and y: "(kb_key_id kb, y) \<in> set ts"
    have "kb_key_id kb \<noteq> key" using y "2.prems"(2) by force
    with kb have "kb \<in> set (key_budgets db)" by (auto simp: set_update_where releaseRow_def)
    with "2.prems"(3) y show "checkBudget (releaseRow y kb) = None" by simp
  qed (use "2.prems" in simp_all)
  with ok "2.prems"(1) show ?case by simp
qed simp

subsection \<open>A settled reservation stays as it is\<close>

lemma kept_by_update_where:
  "r \<in> set rs \<Longrightarrow> \<not> P r \<Longrightarrow> r \<in> set (update_where P f rs)"
  by (force simp: set_update_where)

lemma Settle_keeps_settled:
  assumes "Settle c now inp db = (res, db')" and "r \<in> set (budget_reservations db)" and "rv_state r = Settled"
  shows "r \<in> set (budget_reservations db')"
  using assms(1)
proof (rule Settle_cases)
  fix x
  assume "updateBudget (rv_key_id x)
      (settleBudget (si_ActualUSD inp) (settleRow now (si_ActualUSD inp) x))
      (db\<lparr>budget_reservations := update_where (open_res (si_ReservationID inp))
         (settleRow now (si_ActualUSD inp)) (budget_reservations db)\<rparr>) = Inr db'"
  from updateBudget_Inr(1) [OF this] show ?thesis
    using assms(2,3) by (simp add: kept_by_update_where open_res_def)
qed (use assms in simp)

lemma ReapExpired_loop_keeps_settled:
  "ReapExpired_loop cs nows locks limit k n out db = (res, db') \<Longrightarrow>
     r \<in> set (budget_reservations db) \<Longrightarrow> rv_state r = Settled \<Longrightarrow> r \<in> set (budget_reservations db')"
proof (induction cs nows locks limit k n out db rule: ReapExpired_loop.induct)
  case (2 cs nows locks limit attempt left out db)
  obtain x db1 where 1: "reapOnce (cs attempt) (nows attempt) (locks attempt) limit db = (x, db1)"
    by (cases "reapOnce (cs attempt) (nows attempt) (locks attempt) limit db")
  with "2.prems"(2,3) have "r \<in> set (budget_reservations db1)"
    using reapOnce_result(1) [OF 1] by (auto simp: reaped_def kept_by_update_where expiring_def)
  with 1 2 show ?case by (auto split: sum.splits if_splits)
qed simp

lemma fixed_limits_keeps_settled:
  "fixed_limits db db' \<Longrightarrow> r \<in> set (budget_reservations db) \<Longrightarrow> rv_state r = Settled \<Longrightarrow>
     r \<in> set (budget_reservations db')"
proof (induction rule: fixed_limits.induct)
  case (step_create c now i ci db ck db')
  then show ?case by (auto elim: CreateKey_cases)
next
  case (step_revoke fault now i db rk db')
  then show ?case using RevokeKey_result [OF step_revoke(1)] by auto
next
  case (step_update c i ui db uk db')
  then show ?case using UpdateKey_result [OF step_update(1)] by (simp add: same_money_def)
next
  case (step_reserve c now seen i ri db rr db')
  from step_reserve(1) show ?case
    by (rule Reserve_cases)
      (use step_reserve(2,3) in \<open>auto elim!: reserveUpdate_Some dest!: insertReservation_Inr(1)\<close>)
next
  case (step_reap cs nows locks limit db rx db')
  then show ?case unfolding ReapExpired_def by (blast intro: ReapExpired_loop_keeps_settled)
next
  case (step_batch fault now recs db wb db')
  then show ?case using usage_ops_result(1) [OF step_batch(1)] by auto
next
  case (step_record fault now rec db wr db')
  then show ?case using usage_ops_result(2) [OF step_record(1)] by auto
qed (auto intro: Settle_keeps_settled)

lemma db_step_keeps_settled:
  "db_step db db' \<Longrightarrow> r \<in> set (budget_reservations db) \<Longrightarrow> rv_state r = Settled \<Longrightarrow>
     r \<in> set (budget_reservations db')"
  by (induction rule: db_step.induct)
    (auto intro: fixed_limits_keeps_settled dest: UpdateKey_result simp: same_money_def)

lemma db_steps_keep_settled:
  "db_step\<^sup>*\<^sup>* db db' \<Longrightarrow> r \<in> set (budget_reservations db) \<Longrightarrow> rv_state r = Settled \<Longrightarrow>
     r \<in> set (budget_reservations db')"
  by (induction rule: rtranclp_induct) (auto intro: db_step_keeps_settled)

lemma Settle_applied:
  assumes "Settle c now inp db = (Inr out, db')" and "so_Applied out"
  shows "\<exists>r \<in> set (budget_reservations db'). rv_id r = si_ReservationID inp \<and> rv_state r = Settled"
proof -
  let ?i = "si_ReservationID inp" and ?a = "si_ActualUSD inp"
  from assms obtain r where "find (open_res ?i) (budget_reservations db) = Some r" and
    u: "updateBudget (rv_key_id r) (settleBudget ?a (settleRow now ?a r))
        (db\<lparr>budget_reservations := update_where (open_res ?i) (settleRow now ?a)
           (budget_reservations db)\<rparr>) = Inr db'"
    unfolding Settle_unfold by (auto simp: commit_tx_def split: option.splits sum.splits if_splits)
  then have r: "r \<in> set (budget_reservations db)" "open_res ?i r" by (auto dest: find_SomeD)
  then have "settleRow now ?a r \<in> set (budget_reservations db')"
    using updateBudget_Inr(1) [OF u] by (force simp: set_update_where)
  moreover have "rv_id (settleRow now ?a r) = ?i" using r(2) by (simp add: open_res_def)
  ultimately show ?thesis using settleRow_simps(5) by blast
qed

lemma Settle_terminal:
  assumes "books db" and "r \<in> set (budget_reservations db)" and "rv_id r = si_ReservationID inp"
    and "rv_state r = Settled" and "Settle c now inp db = (res, db')"
  shows "db' = db \<and> (\<forall>out. res = Inr out \<longrightarrow> \<not> so_Applied out)"
proof -
  have "distinct (map rv_id (budget_reservations db))" using booksD(1) [OF assms(1)] by (simp add: keys_ok_def)
  then have "\<not> open_res (si_ReservationID inp) x" if "x \<in> set (budget_reservations db)" for x
    using key_inject [of rv_id "budget_reservations db" x r] that assms(2-4)
    by (auto simp: open_res_def)
  then have "find (open_res (si_ReservationID inp)) (budget_reservations db) = None"
    by (simp add: find_None_iff)
  with assms(5) show ?thesis
    unfolding Settle_unfold by (auto simp: commit_tx_def split: option.splits if_splits)
qed

subsection \<open>A sample history for the witnesses\<close>

definition sample_create :: CreateKeyInput where
  "sample_create = \<lparr>ci_Hash = ''h'', ci_Prefix = ''p'', ci_Label = ''l'', ci_Metadata = [],
     ci_AllowedModels = Some [''m''], ci_DisconnectPolicy = [], ci_DrainTimeoutMS = None,
     ci_LimitUSD = Some (dec10 100)\<rparr>"

definition sample_vk :: virtual_key where
  "sample_vk = \<lparr>vk_id = 11, vk_hash = ''h'', vk_prefix = ''p'', vk_label = ''l'', vk_metadata = [],
     vk_allowed_models = Some [''m''], vk_disconnect_policy = ''cancel'', vk_drain_timeout_ms = None,
     vk_revoked_at = None, vk_created_at = 0\<rparr>"

definition sample_kb :: "num10 \<Rightarrow> num10 \<Rightarrow> key_budget" where
  "sample_kb spent reserved = \<lparr>kb_key_id = 11, kb_window_start = 0, kb_limit_usd = Some 100,
     kb_spent_usd = spent, kb_reserved_usd = reserved\<rparr>"

definition sample_db :: DB where
  "sample_db = \<lparr>virtual_keys = [sample_vk], key_budgets = [sample_kb 0 0], budget_reservations = [],
     usage_records = []\<rparr>"

definition sample_res :: reservation where
  "sample_res = \<lparr>rv_id = 7, rv_key_id = 11, rv_window_start = 0, rv_state = Pending,
     rv_estimated_usd = 60, rv_actual_usd = None, rv_expires_at = 1000000, rv_overshoot = False,
     rv_settled_after_expiry = False, rv_created_at = 0, rv_settled_at = None\<rparr>"

definition sample_db2 :: DB where
  "sample_db2 = \<lparr>virtual_keys = [sample_vk], key_budgets = [sample_kb 0 60],
     budget_reservations = [sample_res], usage_records = []\<rparr>"

definition sample_reserve :: ReserveInput where
  "sample_reserve = \<lparr>ri_KeyHash = ''h'', ri_Model = ''m'', ri_EstimatedUSD = dec10 60, ri_TTL = 1000000\<rparr>"

definition sample_settle :: SettleInput where
  "sample_settle = \<lparr>si_ReservationID = 7, si_ActualUSD = dec10 40\<rparr>"

lemma current_month_0: "current_month 0 = 0"
  by code_simp

lemma sample_CreateKey: "snd (CreateKey ok_conn 0 11 sample_create empty_DB) = sample_db"
proof -
  have k: "insertKey sample_vk empty_DB = Inr (empty_DB\<lparr>virtual_keys := [sample_vk]\<rparr>)"
    by (simp add: insertKey_def checkVirtualKey_def sample_vk_def empty_DB_def)
  have b: "insertBudget (sample_kb 0 0) (empty_DB\<lparr>virtual_keys := [sample_vk]\<rparr>) = Inr sample_db"
    by (simp add: insertBudget_def checkBudget_def sample_kb_def fits10_def empty_DB_def sample_db_def
        sample_vk_def)
  have "CreateKey ok_conn 0 11 sample_create empty_DB
      = (case insertKey sample_vk empty_DB of Inl e \<Rightarrow> (Inl e, empty_DB) | Inr db1 \<Rightarrow>
        (case insertBudget (sample_kb 0 0) db1 of Inl e \<Rightarrow> (Inl e, empty_DB) | Inr db2 \<Rightarrow>
         (keyByID None db2 11, db2)))"
    unfolding CreateKey_def
    by (simp add: validateMetadata_def sample_create_def ok_conn_def current_month_0 commit_tx_def
        sample_vk_def sample_kb_def cong: sum.case_cong)
  then show ?thesis by (simp add: k b)
qed

lemma sample_fits: "reserveFits 0 (dec10 60) (sample_kb 0 0)"
  by (simp add: reserveFits_def sample_kb_def rotatedSpent_def)

lemma sample_row: "reserveRow 0 (dec10 60) (sample_kb 0 0) = sample_kb 0 60"
  by (simp add: reserveRow_def sample_kb_def rotatedSpent_def)

lemma sample_Reserve: "Reserve ok_conn 0 sample_db 7 sample_reserve sample_db
  = (Inr \<lparr>ro_ReservationID = 7, ro_KeyID = 11, ro_WindowStart = 0, ro_DisconnectPolicy = ''cancel'',
      ro_DrainTimeoutMS = None\<rparr>, sample_db2)"
proof -
  have "reserveKey sample_reserve sample_vk"
    by (simp add: reserveKey_def sample_reserve_def sample_vk_def)
  moreover have "checkBudget (sample_kb 0 60) = None"
    by (simp add: checkBudget_def sample_kb_def fits10_def)
  moreover have "kb_key_id (sample_kb 0 0) = 11" "vk_id sample_vk = 11"
    by (simp_all add: sample_kb_def sample_vk_def)
  ultimately have "reserveUpdate 0 sample_reserve sample_db = Inr (Some (sample_vk, sample_kb 0 60,
      sample_db\<lparr>key_budgets := [sample_kb 0 60]\<rparr>))"
    using sample_fits sample_row
    by (simp add: reserveUpdate_def sample_db_def sample_reserve_def current_month_0 Let_def
        update_where_def)
  then show ?thesis
    by (simp add: Reserve_def ok_conn_def sample_reserve_def go_quot_def commit_tx_def)
      (simp add: insertReservation_def fits10_def sample_db_def sample_kb_def sample_vk_def
        sample_db2_def sample_res_def commit_tx_def)
qed

lemma sample_reach: "db_step\<^sup>*\<^sup>* empty_DB sample_db2" "fixed_limits\<^sup>*\<^sup>* empty_DB sample_db2"
proof -
  have "fixed_limits empty_DB sample_db"
    using step_create [of ok_conn 0 11 sample_create empty_DB] sample_CreateKey by (metis prod.collapse)
  moreover have "fixed_limits sample_db sample_db2" using sample_Reserve by (rule step_reserve)
  ultimately show "db_step\<^sup>*\<^sup>* empty_DB sample_db2" "fixed_limits\<^sup>*\<^sup>* empty_DB sample_db2"
    by (auto intro: converse_rtranclp_into_rtranclp step_fixed)
qed

subsection \<open>Properties\<close>

text \<open>
  C1. The balances never drift from the log. After any history of creating, updating and revoking keys,
  reserving, settling, reaping and writing usage, with any driver failure (a commit reported as failed
  but applied included), any clock and any input, reconciliation finds no key whose materialised balance
  differs from what its reservations add up to, and no balance is negative.
\<close>

theorem balances_never_drift:
  assumes "db_step\<^sup>*\<^sup>* empty_DB db" and "Reconcile fault db = Inr report"
  shows "rr_BalanceDrift report = [] \<and>
    (\<forall>kb \<in> set (key_budgets db). 0 \<le> kb_spent_usd kb \<and> 0 \<le> kb_reserved_usd kb)"
proof -
  have b: "books db" using assms(1) by (intro store.inv_reachable) simp_all
  then have "balanceDrift db = []"
    by (auto simp: balanceDrift_def Let_def filter_empty_conv books_def balanced_def)
  with assms(2) b books_balances_nonneg show ?thesis
    by (auto simp: Reconcile_def split: option.splits)
qed

theorem balances_never_drift_witness:
  "\<exists>report. Reconcile (\<lambda>_. None) sample_db2 = Inr report \<and> rr_BalanceDrift report = []"
proof -
  obtain report where "Reconcile (\<lambda>_. None) sample_db2 = Inr report" by (simp add: Reconcile_def)
  with balances_never_drift [OF sample_reach(1)] show ?thesis by blast
qed

text \<open>
  C2. Overspend is bounded by what the log shows. While limits are not changed, at every moment of every
  history the spend and the reservations of a key in its current window are within its limit plus the
  overshoot of settlements over their estimates plus the settlements that came after their
  reservation had expired. In particular a key whose settlements stay within their estimates never
  passes its limit.
\<close>

theorem overspend_bounded:
  assumes "fixed_limits\<^sup>*\<^sup>* empty_DB db" and "kb \<in> set (key_budgets db)" and "kb_limit_usd kb = Some l"
  shows "kb_spent_usd kb + kb_reserved_usd kb
    \<le> l + (\<Sum>r\<leftarrow>budget_reservations db.
        if rv_key_id r = kb_key_id kb \<and> rv_window_start r = kb_window_start kb \<and> rv_state r = Settled
        then row_excess r else 0)"
proof -
  have "books db \<and> within_limits db" using assms(1) by (intro limited.inv_reachable) simp_all
  with assms(2,3) show ?thesis by (auto simp: within_limits_def bounded_def excess_def)
qed

theorem overspend_bounded_witness:
  "sample_kb 0 60 \<in> set (key_budgets sample_db2) \<and>
   kb_spent_usd (sample_kb 0 60) + kb_reserved_usd (sample_kb 0 60) \<le> 100"
  using overspend_bounded [OF sample_reach(2), of "sample_kb 0 60" 100]
  by (simp add: sample_db2_def) (simp add: sample_kb_def sample_res_def)

text \<open>
  C5. A reservation is granted only within the limit. A successful reserve leaves the key's budget row
  with spend and reservations at most the limit, in the current window or a later one; the key was live
  and the model allowed; and the log has the new pending reservation, under the returned identifier and
  window, at the rounded estimate.
\<close>

theorem reserve_grants_within_limit:
  assumes "db_step\<^sup>*\<^sup>* empty_DB db" and "Reserve c now seen i inp db = (Inr out, db')"
  shows "(\<exists>kb \<in> set (key_budgets db'). kb_key_id kb = ro_KeyID out \<and> current_month now \<le> kb_window_start kb
      \<and> kb_window_start kb = ro_WindowStart out
      \<and> (\<forall>l. kb_limit_usd kb = Some l \<longrightarrow> kb_spent_usd kb + kb_reserved_usd kb \<le> l))
    \<and> (\<exists>vk \<in> set (virtual_keys db'). vk_id vk = ro_KeyID out \<and> vk_hash vk = ri_KeyHash inp
      \<and> vk_revoked_at vk = None \<and> (\<forall>ms. vk_allowed_models vk = Some ms \<longrightarrow> ri_Model inp \<in> set ms))
    \<and> (\<exists>r \<in> set (budget_reservations db'). rv_id r = ro_ReservationID out \<and> rv_key_id r = ro_KeyID out
      \<and> rv_window_start r = ro_WindowStart out \<and> rv_state r = Pending
      \<and> rv_estimated_usd r = num10 (ri_EstimatedUSD inp))"
proof -
  have b: "books db" using assms(1) by (intro store.inv_reachable) simp_all
  from assms(2) obtain vk kb' db1 r where u: "reserveUpdate now inp db = Inr (Some (vk, kb', db1))"
    and ins: "insertReservation r db1 = Inr db'"
    and r: "rv_id r = ro_ReservationID out" "rv_key_id r = ro_KeyID out" "rv_state r = Pending"
      "rv_window_start r = ro_WindowStart out" "rv_estimated_usd r = num10 (ri_EstimatedUSD inp)"
    and out: "ro_KeyID out = kb_key_id kb'" "ro_WindowStart out = kb_window_start kb'"
    by (auto simp: Reserve_def commit_tx_def split: option.splits sum.splits if_splits)
  note I = insertReservation_Inr [OF ins]
  from u show ?thesis
  proof (rule reserveUpdate_Some)
    fix kb
    assume vk: "vk \<in> set (virtual_keys db)" "reserveKey inp vk"
      and kb: "kb \<in> set (key_budgets db)" "kb_key_id kb = vk_id vk"
        "reserveFits (current_month now) (ri_EstimatedUSD inp) kb"
        "kb' = reserveRow (current_month now) (ri_EstimatedUSD inp) kb"
      and db1: "db1 = db\<lparr>key_budgets := update_where (\<lambda>x. kb_key_id x = vk_id vk)
        (reserveRow (current_month now) (ri_EstimatedUSD inp)) (key_budgets db)\<rparr>"
    have kb': "kb' \<in> set (key_budgets db')" using kb I(1) db1 by (force simp: set_update_where)
    have "\<forall>l. kb_limit_usd kb' = Some l \<longrightarrow> kb_spent_usd kb' + kb_reserved_usd kb' \<le> l"
      using reserveFits_bound [OF kb(3)] I(2) r(5) books_balances_nonneg [OF b kb(1)] kb(4) by simp
    with kb' out kb(4) have 1: "\<exists>kb \<in> set (key_budgets db'). kb_key_id kb = ro_KeyID out
        \<and> current_month now \<le> kb_window_start kb \<and> kb_window_start kb = ro_WindowStart out
        \<and> (\<forall>l. kb_limit_usd kb = Some l \<longrightarrow> kb_spent_usd kb + kb_reserved_usd kb \<le> l)"
      by (intro bexI [of _ kb']) simp_all
    have 2: "\<exists>vk \<in> set (virtual_keys db'). vk_id vk = ro_KeyID out \<and> vk_hash vk = ri_KeyHash inp
      \<and> vk_revoked_at vk = None \<and> (\<forall>ms. vk_allowed_models vk = Some ms \<longrightarrow> ri_Model inp \<in> set ms)"
      using vk kb out I(1) db1 by (intro bexI [of _ vk]) (auto simp: reserveKey_def)
    have "r \<in> set (budget_reservations db')" using I(1) by simp
    with 1 2 r show ?thesis by blast
  qed
qed

theorem reserve_grants_within_limit_witness:
  "\<exists>kb \<in> set (key_budgets sample_db2). kb_key_id kb = 11 \<and> kb_spent_usd kb + kb_reserved_usd kb \<le> 100"
proof -
  have "fixed_limits empty_DB sample_db"
    using step_create [of ok_conn 0 11 sample_create empty_DB] sample_CreateKey by (metis prod.collapse)
  then have "db_step\<^sup>*\<^sup>* empty_DB sample_db" by (auto intro: step_fixed)
  from reserve_grants_within_limit [OF this sample_Reserve] show ?thesis
    by (auto simp: sample_db2_def) (simp_all add: sample_kb_def)
qed

text \<open>
  C3. A settlement counts once. Once a settle has applied, whatever happens in between, any later settle
  of the same reservation, with any amount, changes nothing and reports that it did not apply.
\<close>

theorem settle_counts_once:
  assumes "db_step\<^sup>*\<^sup>* empty_DB db" and "Settle c now inp db = (Inr out, db1)" and "so_Applied out"
    and "db_step\<^sup>*\<^sup>* db1 db2" and "si_ReservationID inp' = si_ReservationID inp"
    and "Settle c' now' inp' db2 = (res, db3)"
  shows "db3 = db2 \<and> (\<forall>out'. res = Inr out' \<longrightarrow> \<not> so_Applied out')"
proof -
  from Settle_applied [OF assms(2,3)] obtain r where
    r: "r \<in> set (budget_reservations db1)" "rv_id r = si_ReservationID inp" "rv_state r = Settled" by blast
  have "db_step db db1" using assms(2) by (blast intro: step_fixed step_settle)
  with assms(1,4) have "db_step\<^sup>*\<^sup>* empty_DB db2" by (meson rtranclp.rtrancl_into_rtrancl rtranclp_trans)
  then have "books db2" by (intro store.inv_reachable) simp_all
  moreover have "r \<in> set (budget_reservations db2)" using assms(4) r(1,3) by (rule db_steps_keep_settled)
  ultimately show ?thesis using r(2,3) assms(5,6) by (intro Settle_terminal) simp_all
qed

lemma find_by_key:
  "distinct (map key xs) \<Longrightarrow> x \<in> set xs \<Longrightarrow> P x \<Longrightarrow> (\<And>y. P y \<Longrightarrow> key y = key x) \<Longrightarrow> find P xs = Some x"
proof -
  assume d: "distinct (map key xs)" and x: "x \<in> set xs" "P x" and k: "\<And>y. P y \<Longrightarrow> key y = key x"
  from x obtain y where y: "find P xs = Some y" by (metis find_None_iff not_None_eq)
  then have "y \<in> set xs" "P y" by (auto dest: find_SomeD)
  with key_inject [OF d _ x(1)] k y show ?thesis by metis
qed

lemma find_open_res:
  assumes "books db" and "r \<in> set (budget_reservations db)" and "rv_id r = i" and "rv_state r \<noteq> Settled"
  shows "find (open_res i) (budget_reservations db) = Some r"
proof (rule find_by_key [where key = rv_id])
  show "distinct (map rv_id (budget_reservations db))" using booksD(1) [OF assms(1)] by (simp add: keys_ok_def)
  show "open_res i r" using assms(3,4) by (cases "rv_state r") (simp_all add: open_res_def)
qed (use assms in \<open>auto simp: open_res_def\<close>)

lemma settle_checked:
  assumes b: "books db" and st: "stored_ok db" and r: "r \<in> set (budget_reservations db)" "open_res i r"
    and a: "0 \<le> num10 a" and kb: "kb \<in> set (key_budgets db)" "kb_key_id kb = rv_key_id r"
    and fit: "fits10 (kb_spent_usd kb + num10 a)"
  shows "checkBudget (settleBudget a (settleRow now a r) kb) = None"
proof -
  note nn = books_balances_nonneg [OF b kb(1)]
  have d: "distinct (map rv_id (budget_reservations db))" using booksD(1) [OF b] by (simp add: keys_ok_def)
  have "balanced (update_where (open_res i) (settleRow now a) (budget_reservations db))
      (settleBudget a (settleRow now a r) kb)"
    using balanced_settle [OF booksD(3) [OF b kb(1)] nn(1) a d r, of now] kb(2) by simp
  moreover have "row_ok db x"
    if "x \<in> set (update_where (open_res i) (settleRow now a) (budget_reservations db))" for x
    using that booksD(2) [OF b] a by (auto simp: set_update_where row_ok_def)
  ultimately have "0 \<le> kb_reserved_usd (settleBudget a (settleRow now a r) kb)"
    using logReserved_nonneg unfolding balanced_def by metis
  moreover have "0 \<le> rv_estimated_usd r" using booksD(2) [OF b r(1)] by (simp add: row_ok_def)
  moreover have "checkBudget kb = None" using st kb(1) by (simp add: stored_ok_def)
  moreover have "kb_limit_usd (settleBudget a (settleRow now a r) kb) = kb_limit_usd kb"
    by (simp add: settleBudget_def)
  ultimately show ?thesis
    using settleBudget_values [OF nn(1) a, of now r] a nn fit
    by (auto simp: checkBudget_def fits10_def split: if_splits)
qed

text \<open>
  C4. A settlement is never refused by the schema. In every reachable state, when the driver works, a
  settle of a reservation that is not settled yet, for a non-negative amount the spent column can hold,
  succeeds: releasing the reservation never drives the reserved column negative, whether or not
  the reaper came first. It reports overshoot and lateness as they are.
\<close>

theorem settle_never_refused:
  assumes "db_step\<^sup>*\<^sup>* empty_DB db" and "r \<in> set (budget_reservations db)"
    and "rv_id r = si_ReservationID inp" and "rv_state r \<noteq> Settled" and "0 \<le> si_ActualUSD inp"
    and "\<forall>kb \<in> set (key_budgets db). kb_key_id kb = rv_key_id r \<longrightarrow>
           fits10 (kb_spent_usd kb + num10 (si_ActualUSD inp))"
    and "on_begin c = None" and "\<forall>k. on_stmt c k = None" and "on_commit c = None"
  shows "\<exists>out db'. Settle c now inp db = (Inr out, db') \<and> so_Applied out
    \<and> (so_Overshoot out \<longleftrightarrow> dec10 (rv_estimated_usd r) < si_ActualUSD inp)
    \<and> (so_SettledAfterExpiry out \<longleftrightarrow> rv_state r = Expired)"
proof -
  let ?a = "si_ActualUSD inp" and ?i = "si_ReservationID inp"
  have inv: "books db \<and> stored_ok db" using assms(1) by (intro ledger.inv_reachable) simp_all
  then have b: "books db" by simp
  have a: "0 \<le> num10 ?a" using assms(5) by (rule num10_nonneg)
  have f: "find (open_res ?i) (budget_reservations db) = Some r"
    using b assms(2,3,4) by (rule find_open_res)
  have o: "open_res ?i r" using f by (auto dest: find_SomeD)
  have "checkBudget (settleBudget ?a (settleRow now ?a r) kb) = None"
    if "kb \<in> set (key_budgets db)" "kb_key_id kb = rv_key_id r" for kb
    using settle_checked [OF b _ assms(2) o a that] inv assms(6) that by blast
  then have "updateBudget (rv_key_id r) (settleBudget ?a (settleRow now ?a r))
      (db\<lparr>budget_reservations := x\<rparr>)
      = Inr (db\<lparr>budget_reservations := x, key_budgets := update_where (\<lambda>kb. kb_key_id kb = rv_key_id r)
          (settleBudget ?a (settleRow now ?a r)) (key_budgets db)\<rparr>)" for x
    by (auto simp: updateBudget_def find_None_iff split: option.splits dest!: find_SomeD)
  moreover have "fits10 (num10 ?a)"
  proof -
    have "rv_key_id r \<in> kb_key_id ` set (key_budgets db)"
      using booksD(1,2) [OF b] assms(2) by (simp add: row_ok_def keys_ok_def)
    then obtain kb where "kb \<in> set (key_budgets db)" "kb_key_id kb = rv_key_id r" by auto
    with assms(6) books_balances_nonneg(1) [OF b] a show ?thesis by (fastforce simp: fits10_def)
  qed
  ultimately show ?thesis using f assms(7-9) a unfolding Settle_unfold by (simp add: commit_tx_def)
qed

lemma sample_settles: "\<exists>out db'. Settle ok_conn 5 sample_settle sample_db2 = (Inr out, db') \<and> so_Applied out"
proof -
  have "find (open_res 7) [sample_res] = Some sample_res"
    by (simp add: open_res_def sample_res_def)
  then show ?thesis
    unfolding Settle_unfold
    by (simp add: ok_conn_def sample_settle_def sample_db2_def updateBudget_def commit_tx_def fits10_def)
      (simp add: sample_res_def sample_kb_def settleBudget_def checkBudget_def fits10_def dec10_diff)
qed

theorem settle_never_refused_witness:
  "\<exists>out db'. Settle ok_conn 5 sample_settle sample_db2 = (Inr out, db') \<and> so_Applied out
     \<and> (so_Overshoot out \<longleftrightarrow> dec10 60 < dec10 40)"
proof -
  have r: "sample_res \<in> set (budget_reservations sample_db2)" "rv_id sample_res = si_ReservationID sample_settle"
    "rv_state sample_res \<noteq> Settled" "0 \<le> si_ActualUSD sample_settle"
    by (simp_all add: sample_db2_def sample_res_def sample_settle_def dec10_def)
  have k: "\<forall>kb \<in> set (key_budgets sample_db2). kb_key_id kb = rv_key_id sample_res \<longrightarrow>
      fits10 (kb_spent_usd kb + num10 (si_ActualUSD sample_settle))"
    by (simp add: sample_db2_def sample_kb_def sample_settle_def fits10_def)
  have c: "on_begin ok_conn = None" "\<forall>k. on_stmt ok_conn k = None" "on_commit ok_conn = None"
    by (simp_all add: ok_conn_def)
  have e: "rv_estimated_usd sample_res = 60" "si_ActualUSD sample_settle = dec10 40"
    by (simp_all add: sample_res_def sample_settle_def)
  from settle_never_refused [OF sample_reach(1) r k c] show ?thesis unfolding e by blast
qed

theorem settle_counts_once_witness:
  "\<exists>db1. snd (Settle ok_conn 5 sample_settle sample_db2) = db1 \<and>
     snd (Settle ok_conn 6 (sample_settle\<lparr>si_ActualUSD := 3\<rparr>) db1) = db1"
proof -
  from sample_settles obtain out db1 where
    1: "Settle ok_conn 5 sample_settle sample_db2 = (Inr out, db1)" "so_Applied out" by blast
  obtain res db3 where 3: "Settle ok_conn 6 (sample_settle\<lparr>si_ActualUSD := 3\<rparr>) db1 = (res, db3)"
    by (cases "Settle ok_conn 6 (sample_settle\<lparr>si_ActualUSD := 3\<rparr>) db1")
  from settle_counts_once [OF sample_reach(1) 1 rtranclp.rtrancl_refl _ 3] 1 3 show ?thesis by simp
qed

lemma find_hash:
  assumes "books db" and "vk \<in> set (virtual_keys db)" and "vk_hash vk = h"
  shows "find (\<lambda>vk. vk_hash vk = h) (virtual_keys db) = Some vk"
    and "\<And>y. y \<in> set (virtual_keys db) \<Longrightarrow> vk_hash y = h \<Longrightarrow> y = vk"
proof -
  have d: "distinct (map vk_hash (virtual_keys db))" using booksD(1) [OF assms(1)] by (simp add: keys_ok_def)
  then show "find (\<lambda>vk. vk_hash vk = h) (virtual_keys db) = Some vk"
    using assms(2,3) by (intro find_by_key [where key = vk_hash]) simp_all
  show "y = vk" if "y \<in> set (virtual_keys db)" "vk_hash y = h" for y
    using key_inject [OF d] that assms(2,3) by blast
qed

lemma budget_of_key:
  assumes "books db" and "vk \<in> set (virtual_keys db)"
  obtains kb where "kb \<in> set (key_budgets db)" and "kb_key_id kb = vk_id vk"
proof -
  have "vk_id vk \<in> kb_key_id ` set (key_budgets db)"
    using booksD(1) [OF assms(1)] assms(2) by (simp add: keys_ok_def)
  then show thesis using that by auto
qed

definition exceeded :: "time \<Rightarrow> key_budget \<Rightarrow> store_error" where
  "exceeded now kb = ErrBudgetExceeded
     \<lparr>be_LimitUSD = map_option dec10 (kb_limit_usd kb), be_SpentUSD = dec10 (kb_spent_usd kb),
      be_ReservedUSD = dec10 (kb_reserved_usd kb), be_WindowResetsAt = nextWindowStart now\<rparr>"

lemma diagnose_unknown:
  assumes "ri_KeyHash inp \<notin> vk_hash ` set (virtual_keys db)"
  shows "reserveUpdate now inp db = Inr None" and "diagnoseReserve None now inp db = ErrKeyNotFound"
proof -
  have "vk_hash x \<noteq> ri_KeyHash inp" if "x \<in> set (virtual_keys db)" for x using assms that by force
  then have "find (reserveKey inp) (virtual_keys db) = None"
    "find (\<lambda>vk. vk_hash vk = ri_KeyHash inp) (virtual_keys db) = None"
    by (auto simp: find_None_iff reserveKey_def)
  then show "reserveUpdate now inp db = Inr None" "diagnoseReserve None now inp db = ErrKeyNotFound"
    by (simp_all add: reserveUpdate_def diagnoseReserve_def)
qed

lemma diagnose_known:
  assumes b: "books db" and vk: "vk \<in> set (virtual_keys db)" "vk_hash vk = ri_KeyHash inp"
    and kb: "kb \<in> set (key_budgets db)" "kb_key_id kb = vk_id vk"
  shows "diagnoseReserve None now inp db =
    (if vk_revoked_at vk \<noteq> None then ErrKeyRevoked
     else if \<exists>ms \<in> set_option (vk_allowed_models vk). ri_Model inp \<notin> set ms then ErrModelNotAllowed
     else exceeded now kb)"
proof -
  have "find (\<lambda>kb. kb_key_id kb = vk_id vk) (key_budgets db) = Some kb"
    using kb booksD(1) [OF b] by (intro find_by_key [where key = kb_key_id]) (auto simp: keys_ok_def)
  with find_hash(1) [OF b vk] show ?thesis
    by (simp add: diagnoseReserve_def contains_str_def list_ex_iff exceeded_def)
qed

lemma reserve_no_key:
  assumes "books db" and "vk \<in> set (virtual_keys db)" and "vk_hash vk = ri_KeyHash inp"
    and "\<not> reserveKey inp vk"
  shows "reserveUpdate now inp db = Inr None"
proof -
  have "find (reserveKey inp) (virtual_keys db) = None"
    using find_hash(2) [OF assms(1-3)] assms(4) by (auto simp: find_None_iff reserveKey_def)
  then show ?thesis by (simp add: reserveUpdate_def)
qed

lemma reserve_no_fit:
  assumes b: "books db" and vk: "vk \<in> set (virtual_keys db)" "reserveKey inp vk"
    and kb: "kb \<in> set (key_budgets db)" "kb_key_id kb = vk_id vk"
      "\<not> reserveFits (current_month now) (ri_EstimatedUSD inp) kb"
  shows "reserveUpdate now inp db = Inr None"
proof -
  have "find (reserveKey inp) (virtual_keys db) = Some vk"
    using b vk by (intro find_by_key [where key = vk_hash]) (auto simp: reserveKey_def books_def keys_ok_def)
  moreover have d: "distinct (map kb_key_id (key_budgets db))" using booksD(1) [OF b] by (simp add: keys_ok_def)
  have "\<not> reserveFits (current_month now) (ri_EstimatedUSD inp) y"
    if "y \<in> set (key_budgets db)" "kb_key_id y = vk_id vk" for y
    using key_inject [OF d that(1) kb(1)] that(2) kb(2,3) by simp
  then have "find (\<lambda>y. kb_key_id y = vk_id vk \<and> reserveFits (current_month now) (ri_EstimatedUSD inp) y)
      (key_budgets db) = None" by (auto simp: find_None_iff)
  ultimately show ?thesis by (simp add: reserveUpdate_def Let_def)
qed

text \<open>
  C6. A refused reservation says why. When the driver works and nothing else intervenes, an unknown
  credential is reported as not found, a revoked key as revoked, a model outside the key's list as not
  allowed, and a live key with an allowed model over its limit as exceeding its budget, with the
  budget's figures; the database is unchanged in each case.
\<close>

theorem refusals_classified:
  assumes "db_step\<^sup>*\<^sup>* empty_DB db" and "on_begin c = None" and "\<forall>k. on_stmt c k = None"
  shows "(ri_KeyHash inp \<notin> vk_hash ` set (virtual_keys db) \<longrightarrow>
        Reserve c now db i inp db = (Inl ErrKeyNotFound, db))
    \<and> (\<forall>vk \<in> set (virtual_keys db). vk_hash vk = ri_KeyHash inp \<longrightarrow>
        (vk_revoked_at vk \<noteq> None \<longrightarrow> Reserve c now db i inp db = (Inl ErrKeyRevoked, db))
      \<and> (\<forall>ms. vk_revoked_at vk = None \<longrightarrow> vk_allowed_models vk = Some ms \<longrightarrow> ri_Model inp \<notin> set ms \<longrightarrow>
          Reserve c now db i inp db = (Inl ErrModelNotAllowed, db))
      \<and> (\<forall>kb \<in> set (key_budgets db). vk_revoked_at vk = None \<longrightarrow>
          (\<forall>ms. vk_allowed_models vk = Some ms \<longrightarrow> ri_Model inp \<in> set ms) \<longrightarrow>
          kb_key_id kb = vk_id vk \<longrightarrow> \<not> reserveFits (current_month now) (ri_EstimatedUSD inp) kb \<longrightarrow>
          Reserve c now db i inp db = (Inl (exceeded now kb), db)))"
proof -
  have b: "books db" using assms(1) by (intro store.inv_reachable) simp_all
  have refused: "Reserve c now db i inp db = (Inl (diagnoseReserve None now inp db), db)"
    if "reserveUpdate now inp db = Inr None"
    using that assms(2,3) by (simp add: Reserve_def)
  have "Reserve c now db i inp db = (Inl ErrKeyRevoked, db)"
    if vk: "vk \<in> set (virtual_keys db)" "vk_hash vk = ri_KeyHash inp" "vk_revoked_at vk \<noteq> None" for vk
  proof -
    obtain kb where "kb \<in> set (key_budgets db)" "kb_key_id kb = vk_id vk"
      by (rule budget_of_key [OF b vk(1)])
    from diagnose_known [OF b vk(1,2) this] refused reserve_no_key [OF b vk(1,2)] vk(3)
    show ?thesis by (simp add: reserveKey_def)
  qed
  moreover have "Reserve c now db i inp db = (Inl ErrModelNotAllowed, db)"
    if vk: "vk \<in> set (virtual_keys db)" "vk_hash vk = ri_KeyHash inp" "vk_revoked_at vk = None"
      "vk_allowed_models vk = Some ms" "ri_Model inp \<notin> set ms" for vk ms
  proof -
    obtain kb where "kb \<in> set (key_budgets db)" "kb_key_id kb = vk_id vk"
      by (rule budget_of_key [OF b vk(1)])
    from diagnose_known [OF b vk(1,2) this] refused reserve_no_key [OF b vk(1,2)] vk(3-)
    show ?thesis by (simp add: reserveKey_def)
  qed
  moreover have "Reserve c now db i inp db = (Inl (exceeded now kb), db)"
    if vk: "vk \<in> set (virtual_keys db)" "vk_hash vk = ri_KeyHash inp" "vk_revoked_at vk = None"
      "\<forall>ms. vk_allowed_models vk = Some ms \<longrightarrow> ri_Model inp \<in> set ms"
      and kb: "kb \<in> set (key_budgets db)" "kb_key_id kb = vk_id vk"
        "\<not> reserveFits (current_month now) (ri_EstimatedUSD inp) kb" for vk kb
  proof -
    have "reserveKey inp vk" using vk by (auto simp: reserveKey_def split: option.split)
    with refused reserve_no_fit [OF b vk(1) _ kb] diagnose_known [OF b vk(1,2) kb(1,2)] vk(3,4)
    show ?thesis by auto
  qed
  moreover have "Reserve c now db i inp db = (Inl ErrKeyNotFound, db)"
    if "ri_KeyHash inp \<notin> vk_hash ` set (virtual_keys db)"
    using refused diagnose_unknown [OF that] by simp
  ultimately show ?thesis by blast
qed

theorem refusals_classified_witness:
  "Reserve ok_conn 0 sample_db2 9 (sample_reserve\<lparr>ri_Model := ''x''\<rparr>) sample_db2
     = (Inl ErrModelNotAllowed, sample_db2)"
proof -
  have "on_begin ok_conn = None" "\<forall>k. on_stmt ok_conn k = None" by (simp_all add: ok_conn_def)
  moreover have "sample_vk \<in> set (virtual_keys sample_db2)"
    "vk_hash sample_vk = ri_KeyHash (sample_reserve\<lparr>ri_Model := ''x''\<rparr>)"
    "vk_revoked_at sample_vk = None" "vk_allowed_models sample_vk = Some [''m'']"
    "ri_Model (sample_reserve\<lparr>ri_Model := ''x''\<rparr>) \<notin> set [''m'']"
    by (simp_all add: sample_db2_def sample_vk_def sample_reserve_def)
  ultimately show ?thesis
    using refusals_classified [OF sample_reach(1), of ok_conn "sample_reserve\<lparr>ri_Model := ''x''\<rparr>" 0 9]
    by blast
qed

text \<open>
  C7. A failed operation leaves no trace. When a reserve, a settle or a sweep reports an error, the
  database is exactly what it was, unless the failure was the commit itself and the server had applied
  it.
\<close>

theorem errors_change_nothing:
  assumes "\<not> commit_applied c"
  shows "(\<forall>e db'. Reserve c now seen i inp db = (Inl e, db') \<longrightarrow> db' = db)
    \<and> (\<forall>e db'. Settle c now sinp db = (Inl e, db') \<longrightarrow> db' = db)
    \<and> (\<forall>e db'. reapOnce c now locked limit db = (Inl e, db') \<longrightarrow> db' = db)"
  using Reserve_result(2) [OF _ refl assms] Settle_error [OF _ assms] reapOnce_result(3) [OF _ refl assms]
  by blast

theorem errors_change_nothing_witness:
  "snd (Reserve (ok_conn\<lparr>on_commit := Some ''08006''\<rparr>) 0 sample_db 7 sample_reserve sample_db) = sample_db"
proof -
  let ?c = "ok_conn\<lparr>on_commit := Some ''08006''\<rparr>"
  obtain res db' where r: "Reserve ?c 0 sample_db 7 sample_reserve sample_db = (res, db')"
    by (cases "Reserve ?c 0 sample_db 7 sample_reserve sample_db")
  have "\<not> commit_applied ?c" by (simp add: ok_conn_def)
  moreover have "\<exists>e. res = Inl e"
    using r by (auto simp: Reserve_def commit_tx_def split: option.splits sum.splits)
  ultimately show ?thesis using errors_change_nothing [of ?c] r by fastforce
qed

lemma reapOnce_succeeds:
  assumes "books db \<and> stored_ok db" and "on_begin c = None" and "\<forall>k. on_stmt c k = None"
    and "on_commit c = None"
  shows "\<exists>db'. reapOnce c now locked limit db = (Inr (length (claimed now locked limit db)), db')"
proof -
  let ?cl = "claimed now locked limit db" and ?rs = "budget_reservations db"
  let ?db1 = "db\<lparr>budget_reservations := update_where (expiring ?cl) expireRow ?rs\<rparr>"
  have "\<exists>db2. releaseAll c 4 (claimTotals ?cl []) ?db1 = Inr db2"
  proof (rule releaseAll_total)
    fix kb x
    assume kb: "kb \<in> set (key_budgets ?db1)" and x: "(kb_key_id kb, x) \<in> set (claimTotals ?cl [])"
    have "map_of (claimTotals ?cl []) (kb_key_id kb) = Some x"
      using x claimTotals_go_map [of "[]" ?cl] by simp
    then have "released (claimTotals ?cl []) kb = releaseRow x kb" by (simp add: released_def)
    with released_checked [of db kb now locked limit] assms(1) kb
    show "checkBudget (releaseRow x kb) = None" by simp
  qed (use assms(3) claimTotals_go_map in simp_all)
  then obtain db2 where "releaseAll c 4 (claimTotals ?cl []) ?db1 = Inr db2" by blast
  moreover have "distinct (map rv_id ?rs)" using assms(1) by (simp add: books_def keys_ok_def)
  from arg_cong [where f = size, OF expiring_claims [OF this, of now locked limit]]
  have "length (filter (expiring ?cl) ?rs) = length ?cl" by (simp only: size_mset)
  ultimately show ?thesis
    using assms(2-4) unfolding reapOnce_unfold by (simp add: commit_tx_def)
qed

text \<open>
  A sweep reclaims every expired reservation. In every reachable state, when the driver works and no
  row is locked, a sweep succeeds and expires exactly as many reservations as its batch allows; when
  the batch holds them all, no pending reservation is past its expiry afterwards. No reservation is
  added or removed.
\<close>

theorem reap_reclaims_expired:
  assumes "db_step\<^sup>*\<^sup>* empty_DB db"
    and "on_begin c = None" and "\<forall>k. on_stmt c k = None" and "on_commit c = None"
  shows "\<exists>n db'. reapOnce c now (\<lambda>_. False) limit db = (Inr n, db')
    \<and> n = min limit (length (filter (expiredPending now (\<lambda>_. False)) (budget_reservations db)))
    \<and> map rv_id (budget_reservations db') = map rv_id (budget_reservations db)
    \<and> (length (filter (expiredPending now (\<lambda>_. False)) (budget_reservations db)) \<le> limit \<longrightarrow>
        (\<forall>r \<in> set (budget_reservations db'). rv_state r = Pending \<longrightarrow> now \<le> rv_expires_at r))"
proof -
  let ?exp = "filter (expiredPending now (\<lambda>_. False)) (budget_reservations db)"
  let ?cl = "claimed now (\<lambda>_. False) limit db"
  have inv: "books db \<and> stored_ok db" using assms(1) by (intro ledger.inv_reachable) simp_all
  then have d: "distinct (map rv_id (budget_reservations db))" by (simp add: books_def keys_ok_def)
  obtain db' where r: "reapOnce c now (\<lambda>_. False) limit db = (Inr (length ?cl), db')"
    using reapOnce_succeeds inv assms(2-4) by blast
  have len: "length ?cl = min limit (length ?exp)" by (simp add: claimed_def)
  have db': "db' = (if ?cl = [] then db else reaped ?cl db)" using reapOnce_result(2) [OF r] by simp
  have "now \<le> rv_expires_at x" if le: "length ?exp \<le> limit" and x: "x \<in> set (budget_reservations db')"
    "rv_state x = Pending" for x
  proof (rule ccontr)
    assume late: "\<not> now \<le> rv_expires_at x"
    have all: "set ?cl = set ?exp" using le by (simp add: claimed_def)
    have "x \<in> set (budget_reservations db) \<and> (?cl \<noteq> [] \<longrightarrow> \<not> expiring ?cl x)"
      using x db' by (auto simp: reaped_def set_update_where split: if_splits)
    with late x(2) have "x \<in> set ?exp" "?cl \<noteq> [] \<longrightarrow> \<not> expiring ?cl x" by (auto simp: expiredPending_def)
    with all x(2) show False by (auto simp: expiring_def)
  qed
  moreover have "map rv_id (budget_reservations db') = map rv_id (budget_reservations db)"
    by (simp add: db' reaped_def update_where_ids)
  ultimately show ?thesis using r len by auto
qed

theorem reap_reclaims_expired_witness:
  "\<exists>n db'. reapOnce ok_conn 2000000 (\<lambda>_. False) 500 sample_db2 = (Inr n, db') \<and> n = 1"
proof -
  have "filter (expiredPending 2000000 (\<lambda>_. False)) (budget_reservations sample_db2) = [sample_res]"
    by (simp add: sample_db2_def expiredPending_def sample_res_def)
  then have "length (filter (expiredPending 2000000 (\<lambda>_. False)) (budget_reservations sample_db2)) = 1"
    by simp
  moreover have "on_begin ok_conn = None" "\<forall>k. on_stmt ok_conn k = None" "on_commit ok_conn = None"
    by (simp_all add: ok_conn_def)
  ultimately show ?thesis
    using reap_reclaims_expired [OF sample_reach(1), of ok_conn 2000000 500] by auto
qed

end
