(* ===== verification/Usage_Buffer.thy ===== *)
theory Usage_Buffer
  imports Budget_Store
begin

text \<open>
  Package \<open>usage\<close>, file \<open>buffer.go\<close>: the bounded queue that takes usage records off the request path.

  Two kinds of goroutine meet here: callers of \<open>Add\<close>, and the one \<open>Run\<close> loop. Each step of the relation
  below is one channel operation, one write, or one cancellation; \<open>Add\<close> is two steps, because it looks at
  the closed channel before it offers the record to the queue. The lemmas show that a record whose
  \<open>Add\<close> succeeded is at every moment in the queue, in the batch being written, in the database, or in a
  loss that was reported, each exactly as often as it was added; and that the queue and the batch
  stay within their bounds.
\<close>

subsection \<open>The writer\<close>

text \<open>
  What the buffer relies on: a write either stores the whole batch or none of it. \<open>stored\<close> is the
  multiset of identifiers a database holds.
\<close>

locale usage_writer =
  fixes wr :: "'f \<Rightarrow> Record list \<Rightarrow> 'db \<Rightarrow> bool \<times> 'db"
    and stored :: "'db \<Rightarrow> uuid multiset"
  assumes write_all: "wr f rs db = (True, db') \<Longrightarrow> stored db' = stored db + mset (map ID rs)"
    and write_none: "wr f rs db = (False, db') \<Longrightarrow> stored db' = stored db"

definition store_write :: "string option \<times> time \<Rightarrow> Record list \<Rightarrow> DB \<Rightarrow> bool \<times> DB" where
  "store_write f rs db =
     (case WriteBatch (fst f) (snd f) rs db of (Inl e, db') \<Rightarrow> (False, db') | (Inr _, db') \<Rightarrow> (True, db'))"

definition stored_ids :: "DB \<Rightarrow> uuid multiset" where
  "stored_ids db = mset (map ur_id (usage_records db))"

lemma ur_id_usageRow [simp]: "ur_id (usageRow now r) = ID r"
  by (simp add: usageRow_def Aggregates_def Let_def)

interpretation store_writer: usage_writer store_write stored_ids
proof unfold_locales
  fix f rs db db'
  assume "store_write f rs db = (True, db')"
  then obtain x where "WriteBatch (fst f) (snd f) rs db = (Inr x, db')"
    by (auto simp: store_write_def split: prod.splits sum.splits)
  from WriteBatch_result [OF this] show "stored_ids db' = stored_ids db + mset (map ID rs)"
    by (simp add: stored_ids_def o_def)
next
  fix f rs db db'
  assume "store_write f rs db = (False, db')"
  then obtain x where "WriteBatch (fst f) (snd f) rs db = (Inl x, db')"
    by (auto simp: store_write_def split: prod.splits sum.splits)
  from WriteBatch_result [OF this] show "stored_ids db' = stored_ids db" by simp
qed

subsection \<open>State\<close>

text \<open>
  Where the \<open>Run\<close> goroutine is: at its select, retrying a full or ticked batch, in the shutdown drain,
  retrying a batch of the drain, retrying the last batch, or returned.
\<close>

datatype run_phase = Selecting | Flushing | Draining | FlushingDrain | FlushingLast | Returned

record Buffer =
  Capacity :: nat
  BatchSize :: nat
  queue :: "Record list"
  batch :: "Record list"
  phase :: run_phase
  is_closed :: bool
  cancelled :: bool
  adding :: "Record list"

record BufferOptions =
  opt_Capacity :: int
  opt_BatchSize :: int

definition NewBuffer :: "BufferOptions \<Rightarrow> Buffer" where
  "NewBuffer opts =
     \<lparr>Capacity = nat (if opt_Capacity opts \<le> 0 then 10000 else opt_Capacity opts),
      BatchSize = nat (if opt_BatchSize opts \<le> 0 then 500 else opt_BatchSize opts),
      queue = [], batch = [], phase = Selecting, is_closed = False, cancelled = False, adding = []\<rparr>"

text \<open>
  The buffer with its database and two records of the past: the records whose \<open>Add\<close> returned nil, and
  those reported to \<open>RecordsLost\<close>.
\<close>

record 'db Sys =
  buf :: Buffer
  db :: 'db
  accepted :: "Record list"
  lost :: "Record list"

subsection \<open>Operations\<close>

text \<open>The second half of \<open>Add\<close>: offer the record to the queue, or write it synchronously.\<close>

definition Add_send :: "('f \<Rightarrow> Record list \<Rightarrow> 'db \<Rightarrow> bool \<times> 'db) \<Rightarrow> 'f \<Rightarrow> Record \<Rightarrow> Buffer \<Rightarrow> 'db
    \<Rightarrow> bool \<times> Buffer \<times> 'db" where
  "Add_send wr f r b d =
     (if length (queue b) < Capacity b then (True, b\<lparr>queue := queue b @ [r]\<rparr>, d)
      else (case wr f [r] d of (ok, d') \<Rightarrow> (ok, b, d')))"

definition writeSynchronously :: "('f \<Rightarrow> Record list \<Rightarrow> 'db \<Rightarrow> bool \<times> 'db) \<Rightarrow> 'f \<Rightarrow> Record \<Rightarrow> 'db
    \<Rightarrow> bool \<times> 'db" where
  "writeSynchronously wr f r d = wr f [r] d"

text \<open>Receiving one record from the queue, in the loop of \<open>Run\<close> and in the one of \<open>drainAndFlush\<close>.\<close>

definition receive :: "run_phase \<Rightarrow> Buffer \<Rightarrow> Buffer" where
  "receive full b =
     (case queue b of
        [] \<Rightarrow> b
      | r # q \<Rightarrow> (let b' = b\<lparr>queue := q, batch := batch b @ [r]\<rparr>
                 in if length (batch b') \<ge> BatchSize b' then b'\<lparr>phase := full\<rparr> else b'))"

definition tick :: "Buffer \<Rightarrow> Buffer" where
  "tick b = (if batch b \<noteq> [] then b\<lparr>phase := Flushing\<rparr> else b)"

text \<open>The default case of the drain's select: the queue is empty.\<close>

definition drained :: "Buffer \<Rightarrow> Buffer" where
  "drained b = b\<lparr>phase := (if batch b \<noteq> [] then FlushingLast else Returned)\<rparr>"

text \<open>
  One iteration of \<open>flush\<close>: a successful write empties the batch and continues in \<open>back\<close>; a failed one
  leaves it for the next iteration.
\<close>

definition flush_attempt :: "('f \<Rightarrow> Record list \<Rightarrow> 'db \<Rightarrow> bool \<times> 'db) \<Rightarrow> 'f \<Rightarrow> run_phase \<Rightarrow> Buffer \<Rightarrow> 'db
    \<Rightarrow> Buffer \<times> 'db" where
  "flush_attempt wr f back b d =
     (case wr f (batch b) d of
        (True, d') \<Rightarrow> (b\<lparr>batch := [], phase := back\<rparr>, d')
      | (False, d') \<Rightarrow> (b, d'))"

text \<open>\<open>lastAttempt\<close>: whatever happens the batch is emptied; a failure is reported as a loss.\<close>

definition lastAttempt :: "('f \<Rightarrow> Record list \<Rightarrow> 'db \<Rightarrow> bool \<times> 'db) \<Rightarrow> 'f \<Rightarrow> Buffer \<Rightarrow> 'db
    \<Rightarrow> Buffer \<times> 'db \<times> Record list" where
  "lastAttempt wr f b d =
     (case wr f (batch b) d of
        (ok, d') \<Rightarrow> (b\<lparr>batch := [], phase := Selecting\<rparr>, d', if ok then [] else batch b))"

subsection \<open>Interleavings\<close>

inductive buf_step :: "('f \<Rightarrow> Record list \<Rightarrow> 'db \<Rightarrow> bool \<times> 'db) \<Rightarrow> 'db Sys \<Rightarrow> 'db Sys \<Rightarrow> bool"
  for wr :: "'f \<Rightarrow> Record list \<Rightarrow> 'db \<Rightarrow> bool \<times> 'db" where
  add_open: "\<not> is_closed (buf s) \<Longrightarrow> buf_step wr s (s\<lparr>buf := buf s\<lparr>adding := r # adding (buf s)\<rparr>\<rparr>)"
| add_closed: "is_closed (buf s) \<Longrightarrow> writeSynchronously wr f r (db s) = (ok, d') \<Longrightarrow>
    buf_step wr s (s\<lparr>db := d', accepted := (if ok then r # accepted s else accepted s)\<rparr>)"
| add_send: "adding (buf s) = xs @ r # ys \<Longrightarrow>
    Add_send wr f r ((buf s)\<lparr>adding := xs @ ys\<rparr>) (db s) = (ok, b', d') \<Longrightarrow>
    buf_step wr s (s\<lparr>buf := b', db := d', accepted := (if ok then r # accepted s else accepted s)\<rparr>)"
| run_receive: "phase (buf s) = Selecting \<Longrightarrow> buf_step wr s (s\<lparr>buf := receive Flushing (buf s)\<rparr>)"
| run_tick: "phase (buf s) = Selecting \<Longrightarrow> buf_step wr s (s\<lparr>buf := tick (buf s)\<rparr>)"
| run_done: "phase (buf s) = Selecting \<Longrightarrow> cancelled (buf s) \<Longrightarrow>
    buf_step wr s (s\<lparr>buf := buf s\<lparr>phase := Draining\<rparr>\<rparr>)"
| run_flush: "phase (buf s) = Flushing \<Longrightarrow> flush_attempt wr f Selecting (buf s) (db s) = (b', d') \<Longrightarrow>
    buf_step wr s (s\<lparr>buf := b', db := d'\<rparr>)"
| run_last: "phase (buf s) = Flushing \<Longrightarrow> cancelled (buf s) \<Longrightarrow>
    lastAttempt wr f (buf s) (db s) = (b', d', gone) \<Longrightarrow>
    buf_step wr s (s\<lparr>buf := b', db := d', lost := gone @ lost s\<rparr>)"
| drain_receive: "phase (buf s) = Draining \<Longrightarrow> queue (buf s) \<noteq> [] \<Longrightarrow>
    buf_step wr s (s\<lparr>buf := receive FlushingDrain (buf s)\<rparr>)"
| drain_end: "phase (buf s) = Draining \<Longrightarrow> queue (buf s) = [] \<Longrightarrow>
    buf_step wr s (s\<lparr>buf := drained (buf s)\<rparr>)"
| drain_flush: "phase (buf s) = FlushingDrain \<Longrightarrow> flush_attempt wr f Draining (buf s) (db s) = (b', d') \<Longrightarrow>
    buf_step wr s (s\<lparr>buf := b', db := d'\<rparr>)"
| drain_last: "phase (buf s) = FlushingLast \<Longrightarrow> flush_attempt wr f Returned (buf s) (db s) = (b', d') \<Longrightarrow>
    buf_step wr s (s\<lparr>buf := b', db := d'\<rparr>)"
| close_step: "buf_step wr s (s\<lparr>buf := buf s\<lparr>is_closed := True\<rparr>\<rparr>)"
| cancel_step: "buf_step wr s (s\<lparr>buf := buf s\<lparr>cancelled := True\<rparr>\<rparr>)"

definition start_sys :: "BufferOptions \<Rightarrow> 'db \<Rightarrow> 'db Sys" where
  "start_sys opts d = \<lparr>buf = NewBuffer opts, db = d, accepted = [], lost = []\<rparr>"

text \<open>The bounds, and that losses only happen after cancellation.\<close>

definition in_bounds :: "'db Sys \<Rightarrow> bool" where
  "in_bounds s \<longleftrightarrow> length (queue (buf s)) \<le> Capacity (buf s) \<and> 0 < BatchSize (buf s) \<and>
     length (batch (buf s)) \<le> BatchSize (buf s) \<and>
     (phase (buf s) \<in> {Selecting, Draining} \<longrightarrow> length (batch (buf s)) < BatchSize (buf s)) \<and>
     (phase (buf s) = Returned \<longrightarrow> batch (buf s) = []) \<and>
     (phase (buf s) \<in> {Draining, FlushingDrain, FlushingLast, Returned} \<longrightarrow> cancelled (buf s)) \<and>
     (lost s \<noteq> [] \<longrightarrow> cancelled (buf s))"

lemma receive_simps:
  "receive full b = (if queue b = [] then b
     else b\<lparr>queue := tl (queue b), batch := batch b @ [hd (queue b)],
            phase := (if BatchSize b \<le> Suc (length (batch b)) then full else phase b)\<rparr>)"
  by (cases "queue b") (simp_all add: receive_def Let_def)

lemma Add_send_cases:
  assumes "Add_send wr f r b d = (ok, b', d')"
  obtains "length (queue b) < Capacity b" and ok and "b' = b\<lparr>queue := queue b @ [r]\<rparr>" and "d' = d"
    | "b' = b" and "wr f [r] d = (ok, d')"
  using assms by (auto simp: Add_send_def split: if_splits prod.splits)

lemma in_bounds_step:
  assumes "buf_step wr s t" and "in_bounds s"
  shows "in_bounds t"
  using assms
proof (induction rule: buf_step.induct)
  case (add_send s xs r ys f ok b' d')
  from add_send(2) show ?case
    by (rule Add_send_cases) (use add_send(3) in \<open>simp_all add: in_bounds_def\<close>)
next
  case (run_receive s)
  then show ?case by (cases "queue (buf s)") (auto simp: in_bounds_def receive_simps)
next
  case (run_tick s)
  then show ?case by (auto simp: in_bounds_def tick_def)
next
  case (run_flush s f b' d')
  then show ?case by (auto simp: in_bounds_def flush_attempt_def split: prod.splits bool.splits)
next
  case (run_last s f b' d' gone)
  then show ?case by (auto simp: in_bounds_def lastAttempt_def split: prod.splits)
next
  case (drain_receive s)
  then show ?case by (cases "queue (buf s)") (auto simp: in_bounds_def receive_simps)
next
  case (drain_end s)
  then show ?case by (auto simp: in_bounds_def drained_def)
next
  case (drain_flush s f b' d')
  then show ?case by (auto simp: in_bounds_def flush_attempt_def split: prod.splits bool.splits)
next
  case (drain_last s f b' d')
  then show ?case by (auto simp: in_bounds_def flush_attempt_def split: prod.splits bool.splits)
qed (auto simp: in_bounds_def)

context usage_writer
begin

text \<open>Conservation: every accepted record is accounted for exactly once.\<close>

definition conserved :: "uuid multiset \<Rightarrow> 'db Sys \<Rightarrow> bool" where
  "conserved base s \<longleftrightarrow> base + mset (map ID (accepted s))
     = stored (db s) + mset (map ID (queue (buf s))) + mset (map ID (batch (buf s))) + mset (map ID (lost s))"

lemma write_cases:
  "wr f rs d = (ok, d') \<Longrightarrow> stored d' = stored d + (if ok then mset (map ID rs) else {#})"
  using write_all write_none by (cases ok) auto

lemma conserved_step:
  assumes "buf_step wr s t" and "conserved base s"
  shows "conserved base t"
  using assms
proof (induction rule: buf_step.induct)
  case (add_closed s f r ok d')
  then show ?case by (auto simp: conserved_def writeSynchronously_def dest!: write_cases)
next
  case (add_send s xs r ys f ok b' d')
  from add_send(2) show ?case
    by (rule Add_send_cases) (use add_send(3) in \<open>auto simp: conserved_def dest!: write_cases\<close>)
next
  case (run_flush s f b' d')
  then show ?case
    by (auto simp: conserved_def flush_attempt_def split: prod.splits bool.splits dest!: write_cases)
next
  case (run_last s f b' d' gone)
  then show ?case
    by (auto simp: conserved_def lastAttempt_def ac_simps split: prod.splits if_splits dest!: write_cases)
next
  case (drain_flush s f b' d')
  then show ?case
    by (auto simp: conserved_def flush_attempt_def split: prod.splits bool.splits dest!: write_cases)
next
  case (drain_last s f b' d')
  then show ?case
    by (auto simp: conserved_def flush_attempt_def split: prod.splits bool.splits dest!: write_cases)
qed (auto simp: conserved_def receive_def tick_def drained_def Let_def split: list.splits)

lemma conserved_reachable:
  assumes "(buf_step wr)\<^sup>*\<^sup>* (start_sys opts d) s"
  shows "conserved (stored d) s"
  using assms
proof (induction rule: rtranclp_induct)
  case base
  show ?case by (simp add: conserved_def start_sys_def NewBuffer_def)
qed (rule conserved_step)

end

lemma in_bounds_reachable:
  assumes "(buf_step wr)\<^sup>*\<^sup>* (start_sys opts d) s"
  shows "in_bounds s"
  using assms
proof (induction rule: rtranclp_induct)
  case base
  show ?case by (simp add: in_bounds_def start_sys_def NewBuffer_def)
qed (rule in_bounds_step)

lemma settings_step:
  "buf_step wr s t \<Longrightarrow> Capacity (buf t) = Capacity (buf s) \<and> BatchSize (buf t) = BatchSize (buf s)"
proof (induction rule: buf_step.induct)
  case (add_send s xs r ys f ok b' d')
  from add_send(2) show ?case by (rule Add_send_cases) simp_all
qed (auto simp: receive_simps tick_def drained_def flush_attempt_def lastAttempt_def
      split: prod.splits bool.splits)

subsection \<open>Properties\<close>

definition sample_record :: Record where
  "sample_record = \<lparr>ID = 5, KeyID = 11, ReservationID = None, RequestID = ''q'', RequestedModel = ''m'',
     ServedModel = [], Provider = ''openai'', ServiceTier = [], ProviderRequestID = [], WindowStart = 0,
     TokenDetail = None, CostUSD = None, UsageSource = ''provider'', Rec_Unpriced = False,
     Rec_PartiallyPriced = False, Streamed = False, ClientDisconnected = False, DrainTimeout = False,
     Rec_ParseErrors = 0, FinishReason = [], StatusCode = 200, ErrorCode = [], LatencyMS = 0,
     TTFTMicros = 0\<rparr>"

definition sample_options :: BufferOptions where
  "sample_options = \<lparr>opt_Capacity = 0, opt_BatchSize = 2\<rparr>"

definition queued_sys :: "DB Sys" where
  "queued_sys = (start_sys sample_options sample_db)\<lparr>buf := NewBuffer sample_options\<lparr>queue := [sample_record]\<rparr>,
     accepted := [sample_record]\<rparr>"

lemma queued_sys_reach: "(buf_step store_write)\<^sup>*\<^sup>* (start_sys sample_options sample_db) queued_sys"
proof -
  let ?s = "start_sys sample_options sample_db"
  let ?t = "?s\<lparr>buf := buf ?s\<lparr>adding := sample_record # adding (buf ?s)\<rparr>\<rparr>"
  have "buf_step store_write ?s ?t" by (rule add_open) (simp add: start_sys_def NewBuffer_def)
  moreover have "Add_send store_write f sample_record ((buf ?t)\<lparr>adding := [] @ []\<rparr>) (db ?t)
      = (True, NewBuffer sample_options\<lparr>queue := [sample_record]\<rparr>, sample_db)" for f
    by (simp add: Add_send_def start_sys_def NewBuffer_def sample_options_def)
  then have "buf_step store_write ?t (?t\<lparr>buf := NewBuffer sample_options\<lparr>queue := [sample_record]\<rparr>,
      db := sample_db, accepted := (if True then sample_record # accepted ?t else accepted ?t)\<rparr>)"
    by (intro add_send [where xs = "[]" and ys = "[]"]) (simp_all add: start_sys_def NewBuffer_def)
  moreover have "?t\<lparr>buf := NewBuffer sample_options\<lparr>queue := [sample_record]\<rparr>,
      db := sample_db, accepted := (if True then sample_record # accepted ?t else accepted ?t)\<rparr> = queued_sys"
    by (simp add: queued_sys_def start_sys_def)
  ultimately show ?thesis by (simp add: converse_rtranclp_into_rtranclp)
qed



text \<open>
  Memory is bounded: the queue never holds more than the configured capacity and the batch never
  more than the batch size, with the defaults where a setting is not positive.
\<close>

lemma settings_reachable:
  "(buf_step wr)\<^sup>*\<^sup>* s t \<Longrightarrow> Capacity (buf t) = Capacity (buf s) \<and> BatchSize (buf t) = BatchSize (buf s)"
  by (induction rule: rtranclp_induct) (auto dest: settings_step)

theorem buffer_bounded:
  assumes "(buf_step store_write)\<^sup>*\<^sup>* (start_sys opts d) s"
  shows "int (length (queue (buf s))) \<le> (if opt_Capacity opts \<le> 0 then 10000 else opt_Capacity opts)
    \<and> int (length (batch (buf s))) \<le> (if opt_BatchSize opts \<le> 0 then 500 else opt_BatchSize opts)"
proof -
  have c: "Capacity (buf s) = nat (if opt_Capacity opts \<le> 0 then 10000 else opt_Capacity opts)"
    and b: "BatchSize (buf s) = nat (if opt_BatchSize opts \<le> 0 then 500 else opt_BatchSize opts)"
    using settings_reachable [OF assms] by (simp_all add: start_sys_def NewBuffer_def)
  have "length (queue (buf s)) \<le> Capacity (buf s)" "length (batch (buf s)) \<le> BatchSize (buf s)"
    using in_bounds_reachable [OF assms] by (simp_all only: in_bounds_def)
  moreover have le: "n \<le> nat z \<Longrightarrow> 0 \<le> z \<Longrightarrow> int n \<le> z" for n z by linarith
  ultimately show ?thesis unfolding c b by (intro conjI le) simp_all
qed

theorem buffer_bounded_witness:
  "int (length (queue (buf queued_sys))) \<le> 10000 \<and> length (queue (buf queued_sys)) = 1"
  using buffer_bounded [OF queued_sys_reach] by (simp add: sample_options_def queued_sys_def)

text \<open>
  C21. An orderly shutdown is complete. Once the writer loop has returned with the buffer closed, the
  queue empty and no caller in the middle of an \<open>Add\<close>, every record accepted before or afterwards is in
  the database or was reported as lost, for good.
\<close>

definition shut_down :: "Buffer \<Rightarrow> bool" where
  "shut_down b \<longleftrightarrow> phase b = Returned \<and> is_closed b \<and> adding b = [] \<and> queue b = []"

lemma shut_down_step: "buf_step wr s t \<Longrightarrow> shut_down (buf s) \<Longrightarrow> shut_down (buf t)"
proof (induction rule: buf_step.induct)
  case (add_send s xs r ys f ok b' d')
  then show ?case by (simp add: shut_down_def)
qed (auto simp: shut_down_def)

lemma shut_down_steps: "(buf_step wr)\<^sup>*\<^sup>* s t \<Longrightarrow> shut_down (buf s) \<Longrightarrow> shut_down (buf t)"
  by (induction rule: rtranclp_induct) (auto dest: shut_down_step)


definition ended :: "bool \<Rightarrow> DB Sys" where
  "ended cl = (start_sys sample_options sample_db)\<lparr>buf := (NewBuffer sample_options)\<lparr>phase := Returned,
     is_closed := cl, cancelled := True\<rparr>\<rparr>"

lemma ended_reach: "(buf_step store_write)\<^sup>*\<^sup>* (start_sys sample_options sample_db) (ended False)"
proof -
  let ?s0 = "start_sys sample_options sample_db"
  let ?s1 = "?s0\<lparr>buf := buf ?s0\<lparr>cancelled := True\<rparr>\<rparr>"
  let ?s2 = "?s1\<lparr>buf := buf ?s1\<lparr>phase := Draining\<rparr>\<rparr>"
  have "buf_step store_write ?s0 ?s1" by (rule cancel_step)
  moreover have "buf_step store_write ?s1 ?s2"
    by (rule run_done) (simp_all add: start_sys_def NewBuffer_def)
  moreover have "buf_step store_write ?s2 (?s2\<lparr>buf := drained (buf ?s2)\<rparr>)"
    by (rule drain_end) (simp_all add: start_sys_def NewBuffer_def)
  moreover have "?s2\<lparr>buf := drained (buf ?s2)\<rparr> = ended False"
    by (simp add: ended_def drained_def start_sys_def NewBuffer_def)
  ultimately show ?thesis by (metis rtranclp.simps)
qed


subsection \<open>A record accepted too late\<close>

text \<open>
  The writer loop returns on cancellation whether or not the buffer was closed. An \<open>Add\<close> that comes after
  that and before \<open>Close\<close> succeeds, and its record stays in the queue for ever.
\<close>

lemma returned_step:
  "buf_step wr s t \<Longrightarrow> phase (buf s) = Returned \<Longrightarrow>
     phase (buf t) = Returned \<and> (\<exists>ys. queue (buf t) = queue (buf s) @ ys)"
proof (induction rule: buf_step.induct)
  case (add_send s xs r ys f ok b' d')
  from add_send(2) show ?case by (rule Add_send_cases) (use add_send(3) in simp_all)
qed auto

lemma returned_steps:
  "(buf_step wr)\<^sup>*\<^sup>* s t \<Longrightarrow> phase (buf s) = Returned \<Longrightarrow>
     phase (buf t) = Returned \<and> (\<exists>ys. queue (buf t) = queue (buf s) @ ys)"
proof (induction rule: rtranclp_induct)
  case (step t u)
  then show ?case using returned_step [OF step(2)] by auto
qed auto

theorem late_add_stranded:
  "\<exists>s. (buf_step store_write)\<^sup>*\<^sup>* (start_sys sample_options sample_db) s \<and> accepted s = [sample_record] \<and>
     (\<forall>t. (buf_step store_write)\<^sup>*\<^sup>* s t \<longrightarrow> sample_record \<in> set (queue (buf t)))"
proof -
  let ?s = "ended False"
  let ?t = "?s\<lparr>buf := buf ?s\<lparr>adding := sample_record # adding (buf ?s)\<rparr>\<rparr>"
  let ?b = "(buf ?s)\<lparr>queue := [sample_record]\<rparr>"
  let ?u = "?t\<lparr>buf := ?b, db := db ?t, accepted := (if True then sample_record # accepted ?t else accepted ?t)\<rparr>"
  have "buf_step store_write ?s ?t" by (rule add_open) (simp add: ended_def NewBuffer_def)
  moreover have "Add_send store_write f sample_record ((buf ?t)\<lparr>adding := [] @ []\<rparr>) (db ?t)
      = (True, ?b, db ?t)" for f
    by (simp add: Add_send_def ended_def NewBuffer_def sample_options_def)
  then have "buf_step store_write ?t ?u"
    by (intro add_send [where xs = "[]" and ys = "[]"]) (simp_all add: ended_def NewBuffer_def)
  ultimately have "(buf_step store_write)\<^sup>*\<^sup>* (start_sys sample_options sample_db) ?u"
    by (rule rtranclp.rtrancl_into_rtrancl [OF rtranclp.rtrancl_into_rtrancl [OF ended_reach]])
  moreover have "accepted ?u = [sample_record]" by (simp add: ended_def start_sys_def)
  moreover have "sample_record \<in> set (queue (buf t))" if "(buf_step store_write)\<^sup>*\<^sup>* ?u t" for t
  proof -
    have "phase (buf ?u) = Returned" by (simp add: ended_def)
    with returned_steps [OF that] show ?thesis by auto
  qed
  ultimately show ?thesis by blast
qed

end
