(* ===== verification/Api.thy ===== *)
theory Api
  imports Budget_Store Json
begin

text \<open>
  Package \<open>api\<close>, files \<open>auth.go\<close>, \<open>errors.go\<close> and \<open>budget_errors.go\<close>: reading the credential of a
  request, refusing one in a query string, and rendering failures.

  A request is the headers, query parameters and body bytes that arrived, with whether the body could
  be read to its end. A response collects what a handler sets: headers, the first status, and the
  bodies written, an encoded envelope being the value it encodes. The lemmas say that a credential is
  only ever taken from a bearer header and that each way of refusing a reservation has its own status.
\<close>

record HttpRequest =
  rq_Authorization :: string
  rq_Query :: "string list"
  rq_Header :: "(string \<times> string list) list"
  rq_Body :: string
  rq_Complete :: bool

datatype resp_body = ErrorBody string string | BudgetBody BudgetExceededError | RawBody string | JsonBody json

record HttpResponse =
  rs_Header :: "(string \<times> string) list"
  rs_Status :: "int option"
  rs_Body :: "resp_body list"

definition new_response :: HttpResponse where
  "new_response = \<lparr>rs_Header = [], rs_Status = None, rs_Body = []\<rparr>"

definition set_header :: "string \<Rightarrow> string \<Rightarrow> HttpResponse \<Rightarrow> HttpResponse" where
  "set_header k v w = w\<lparr>rs_Header := AList.update k v (rs_Header w)\<rparr>"

text \<open>Only the first status goes out.\<close>

definition write_header :: "int \<Rightarrow> HttpResponse \<Rightarrow> HttpResponse" where
  "write_header status w = (case rs_Status w of None \<Rightarrow> w\<lparr>rs_Status := Some status\<rparr> | Some _ \<Rightarrow> w)"

definition write_body :: "resp_body \<Rightarrow> HttpResponse \<Rightarrow> HttpResponse" where
  "write_body b w = (write_header 200 w)\<lparr>rs_Body := rs_Body w @ [b]\<rparr>"

definition answer :: "int \<Rightarrow> resp_body \<Rightarrow> HttpResponse \<Rightarrow> HttpResponse" where
  "answer status b w = write_body b (write_header status
     (set_header ''Cache-Control'' ''no-store'' (set_header ''Content-Type'' ''application/json'' w)))"

subsection \<open>Errors (errors.go, budget_errors.go)\<close>

definition ErrorTypeInvalidRequest :: string where "ErrorTypeInvalidRequest = ''invalid_request_error''"
definition ErrorTypeInvalidAPIKey :: string where "ErrorTypeInvalidAPIKey = ''invalid_api_key''"
definition ErrorTypeBudgetExceeded :: string where "ErrorTypeBudgetExceeded = ''budget_exceeded''"
definition ErrorTypeModelNotFound :: string where "ErrorTypeModelNotFound = ''model_not_found''"
definition ErrorTypeModelNotPriced :: string where "ErrorTypeModelNotPriced = ''model_not_priced''"
definition ErrorTypeModelNotAllowed :: string where "ErrorTypeModelNotAllowed = ''model_not_allowed''"
definition ErrorTypeUpstreamTimeout :: string where "ErrorTypeUpstreamTimeout = ''upstream_timeout''"
definition ErrorTypeInternal :: string where "ErrorTypeInternal = ''internal_error''"

definition WriteError :: "int \<Rightarrow> string \<Rightarrow> string \<Rightarrow> HttpResponse \<Rightarrow> HttpResponse" where
  "WriteError status errType message w = answer status (ErrorBody errType message) w"

definition WriteJSON :: "int \<Rightarrow> json \<Rightarrow> HttpResponse \<Rightarrow> HttpResponse" where
  "WriteJSON status doc w = answer status (JsonBody doc) w"

definition writeBudgetExceeded :: "BudgetExceededError \<Rightarrow> HttpResponse \<Rightarrow> HttpResponse" where
  "writeBudgetExceeded e w = answer 402 (BudgetBody e) w"

definition WriteReserveError :: "store_error \<Rightarrow> HttpResponse \<Rightarrow> HttpResponse" where
  "WriteReserveError e w =
     (case e of
        ErrBudgetExceeded b \<Rightarrow> writeBudgetExceeded b w
      | ErrKeyNotFound \<Rightarrow> WriteError 401 ErrorTypeInvalidAPIKey ''the supplied credential is not valid'' w
      | ErrKeyRevoked \<Rightarrow> WriteError 401 ErrorTypeInvalidAPIKey ''the supplied credential is not valid'' w
      | ErrModelNotAllowed \<Rightarrow> WriteError 403 ErrorTypeModelNotAllowed
          ''this key is not permitted to use the requested model'' w
      | _ \<Rightarrow> WriteError 500 ErrorTypeInternal ''the request could not be authorised'' w)"

subsection \<open>Credentials in a request (auth.go)\<close>

definition credentialParams :: "string list" where
  "credentialParams = [''api_key'', ''apikey'', ''key'', ''token'', ''access_token'', ''auth'', ''authorization'']"

definition isCredentialParam :: "string \<Rightarrow> bool" where
  "isCredentialParam name \<longleftrightarrow> list_ex (\<lambda>candidate. to_lower name = candidate) credentialParams"

definition RejectQueryCredentials :: "(HttpRequest \<Rightarrow> 's \<Rightarrow> HttpResponse \<times> 's)
    \<Rightarrow> HttpRequest \<Rightarrow> 's \<Rightarrow> HttpResponse \<times> 's" where
  "RejectQueryCredentials nxt r s =
     (if list_ex isCredentialParam (rq_Query r)
      then (WriteError 400 ErrorTypeInvalidRequest
              (''credentials must be sent in the Authorization header, ''
               @ ''not in the query string, where proxies and access logs record them'') new_response, s)
      else nxt r s)"

definition BearerToken :: "HttpRequest \<Rightarrow> string option" where
  "BearerToken r =
     (if rq_Authorization r = [] then None
      else case cut '' '' (rq_Authorization r) of
             None \<Rightarrow> None
           | Some (scheme, v) \<Rightarrow>
               if to_lower scheme \<noteq> ''bearer'' then None
               else (let value = trim_space v in if value = [] then None else Some value))"

subsection \<open>Facts\<close>

lemma answer_simps [simp]:
  "rs_Status (answer status b w) = Some (case rs_Status w of None \<Rightarrow> status | Some s \<Rightarrow> s)"
  "rs_Body (answer status b w) = rs_Body w @ [b]"
  by (simp_all add: answer_def write_body_def write_header_def set_header_def split: option.splits)

lemma WriteError_simps [simp]:
  "rs_Status (WriteError status ty m w) = Some (case rs_Status w of None \<Rightarrow> status | Some s \<Rightarrow> s)"
  "rs_Body (WriteError status ty m w) = rs_Body w @ [ErrorBody ty m]"
  by (simp_all add: WriteError_def)

text \<open>The statuses of a refused reservation: 402 says the budget, 401 the key, 403 the model, 500 the rest.\<close>

definition reserve_status :: "store_error \<Rightarrow> int" where
  "reserve_status e =
     (case e of ErrBudgetExceeded _ \<Rightarrow> 402 | ErrKeyNotFound \<Rightarrow> 401 | ErrKeyRevoked \<Rightarrow> 401
      | ErrModelNotAllowed \<Rightarrow> 403 | _ \<Rightarrow> 500)"

lemma WriteReserveError_status:
  "rs_Status w = None \<Longrightarrow> rs_Status (WriteReserveError e w) = Some (reserve_status e)"
  by (cases e) (simp_all add: WriteReserveError_def reserve_status_def writeBudgetExceeded_def)

lemma BearerToken_nonempty: "BearerToken r = Some t \<Longrightarrow> t \<noteq> []"
  by (auto simp: BearerToken_def Let_def split: if_splits option.splits)

end
