(* ===== verification/Credentials.thy ===== *)
theory Credentials
  imports Api "HOL-Library.Sublist"
begin

text \<open>
  Package \<open>auth\<close> (\<open>key.go\<close>, \<open>master.go\<close>, \<open>scope.go\<close>), \<open>obs/secret.go\<close> and \<open>api/middleware.go\<close>: virtual
  keys, the master key, scopes, and keeping credentials out of what the gateway says.

  The hash is a parameter. Randomness is the sequence of blocks the operating system returns, None
  for a failed read. A regular expression is the sequence of its character classes; each repeated
  class of these patterns is disjoint from what follows it, so the longest match is the match.

  The lemmas show that a generated key is an unbiased selection of its random bytes, and that no
  configured secret survives redaction.
\<close>

subsection \<open>Secrets (obs/secret.go)\<close>

definition Redacted :: string where "Redacted = ''[redacted]''"
definition Unset :: string where "Unset = ''[unset]''"

definition Secret_String :: "string \<Rightarrow> string" where
  "Secret_String s = (if s = [] then Unset else Redacted)"

definition IsSet :: "string \<Rightarrow> bool" where "IsSet s \<longleftrightarrow> s \<noteq> []"

definition Secret_Equal :: "(string \<Rightarrow> string) \<Rightarrow> string \<Rightarrow> string \<Rightarrow> bool" where
  "Secret_Equal sha s other \<longleftrightarrow> sha s = sha other"

subsection \<open>Redaction\<close>

datatype pat_elem = One "char \<Rightarrow> bool" | Rep "char \<Rightarrow> bool" nat

fun match_here :: "pat_elem list \<Rightarrow> string \<Rightarrow> nat option" where
  "match_here [] s = Some 0"
| "match_here (One p # es) [] = None"
| "match_here (One p # es) (c # cs) = (if p c then map_option Suc (match_here es cs) else None)"
| "match_here (Rep p n # es) s =
     (let k = length (takeWhile p s)
      in if k < n then None else map_option (\<lambda>m. k + m) (match_here es (drop k s)))"

definition lit :: "string \<Rightarrow> pat_elem list" where
  "lit s = map (\<lambda>c. One (\<lambda>d. d = c)) s"

definition lit_i :: "string \<Rightarrow> pat_elem list" where
  "lit_i s = map (\<lambda>c. One (\<lambda>d. lower_char d = c)) s"

definition alnum :: "char \<Rightarrow> bool" where
  "alnum c \<longleftrightarrow> CHR ''A'' \<le> c \<and> c \<le> CHR ''Z'' \<or> CHR ''a'' \<le> c \<and> c \<le> CHR ''z'' \<or> CHR ''0'' \<le> c \<and> c \<le> CHR ''9''"

definition word_dash :: "char \<Rightarrow> bool" where
  "word_dash c \<longleftrightarrow> alnum c \<or> c = CHR ''_'' \<or> c = CHR ''-''"

definition secretPatterns :: "pat_elem list list" where
  "secretPatterns =
    [lit ''sk-ant-'' @ [Rep word_dash 16],
     lit ''sk-proj-'' @ [Rep word_dash 16],
     lit ''sk-'' @ [Rep alnum 20],
     lit ''cl_'' @ [Rep alnum 20],
     lit ''AIza'' @ [Rep word_dash 20],
     lit ''gh'' @ [One (\<lambda>c. c \<in> set ''pousr'')] @ lit ''_'' @ [Rep alnum 20],
     lit_i ''bearer'' @ [Rep (\<lambda>c. c \<in> {CHR 0x09, CHR 0x0A, CHR 0x0C, CHR 0x0D, CHR '' ''}) 1,
       Rep (\<lambda>c. alnum c \<or> c \<in> set ''._-'') 20]]"

text \<open>\<open>Regexp.ReplaceAll\<close>: leftmost matches, none overlapping another. The patterns match no empty text.\<close>

function replace_pat :: "pat_elem list \<Rightarrow> string \<Rightarrow> string \<Rightarrow> string" where
  "replace_pat p new [] = []"
| "replace_pat p new (c # cs) =
     (case match_here p (c # cs) of
        None \<Rightarrow> c # replace_pat p new cs
      | Some n \<Rightarrow> new @ replace_pat p new (drop (n - 1) cs))"
  by pat_completeness auto
termination by (relation "measure (\<lambda>(_, _, s). length s)") auto

definition RedactSecrets :: "string \<Rightarrow> string" where
  "RedactSecrets b = fold (\<lambda>p out. replace_pat p Redacted out) secretPatterns b"

text \<open>\<open>bytes.ReplaceAll\<close> for a non-empty text.\<close>

function replace_all :: "string \<Rightarrow> string \<Rightarrow> string \<Rightarrow> string" where
  "replace_all old new [] = []"
| "replace_all old new (c # cs) =
     (if has_prefix old (c # cs) then new @ replace_all old new (drop (length old - 1) cs)
      else c # replace_all old new cs)"
  by pat_completeness auto
termination by (relation "measure (\<lambda>(_, _, s). length s)") auto

definition NewRedactor :: "string list \<Rightarrow> string list" where
  "NewRedactor secrets = filter (\<lambda>s. 8 \<le> length s) secrets"

text \<open>\<open>Redact\<close> with the literals of a redactor; a nil redactor has none.\<close>

definition Redact :: "string list \<Rightarrow> string \<Rightarrow> string" where
  "Redact literals b = fold (\<lambda>l out. replace_all l Redacted out) literals (RedactSecrets b)"

subsection \<open>Virtual keys (key.go)\<close>

definition Prefix :: string where "Prefix = ''cl_''"
definition bodyLength :: nat where "bodyLength = 43"
definition KeyLength :: nat where "KeyLength = length Prefix + bodyLength"
definition displayLength :: nat where "displayLength = length Prefix + 5"

definition alphabet :: string where
  "alphabet = ''ABCDEFGHIJKLMNOPQRSTUVWXYZabcdefghijklmnopqrstuvwxyz0123456789''"

definition byte_limit :: nat where "byte_limit = 256 - 256 mod length alphabet"

fun take_symbols :: "nat \<Rightarrow> nat list \<Rightarrow> string \<Rightarrow> string" where
  "take_symbols n [] b = b"
| "take_symbols n (c # cs) b =
     (if c \<ge> byte_limit then take_symbols n cs b
      else (let b' = b @ [alphabet ! (c mod length alphabet)]
            in if length b' = n then b' else take_symbols n cs b'))"

datatype key_error = RandomFailed

text \<open>None when the blocks given do not suffice: the loop reads on.\<close>

fun randomString :: "nat \<Rightarrow> nat list option list \<Rightarrow> string \<Rightarrow> (key_error + string) option" where
  "randomString n rs b =
     (if \<not> length b < n then Some (Inr b)
      else case rs of
             [] \<Rightarrow> None
           | None # _ \<Rightarrow> Some (Inl RandomFailed)
           | Some blk # rs' \<Rightarrow> randomString n rs' (take_symbols n blk b))"

declare randomString.simps [simp del]

record Key =
  k_Secret :: string
  k_Prefix :: string
  k_Hash :: string

definition hashString :: "(string \<Rightarrow> string) \<Rightarrow> string \<Rightarrow> string" where
  "hashString sha s = sha s"

definition NewKey :: "(string \<Rightarrow> string) \<Rightarrow> nat list option list \<Rightarrow> (key_error + Key) option" where
  "NewKey sha rs =
     (case randomString bodyLength rs [] of
        None \<Rightarrow> None
      | Some (Inl e) \<Rightarrow> Some (Inl e)
      | Some (Inr body) \<Rightarrow>
          (let secret = Prefix @ body
           in Some (Inr \<lparr>k_Secret = secret, k_Prefix = take displayLength secret, k_Hash = hashString sha secret\<rparr>)))"

definition Hash :: "(string \<Rightarrow> string) \<Rightarrow> string \<Rightarrow> string" where
  "Hash sha key = hashString sha key"

definition DisplayPrefix :: "string \<Rightarrow> string" where
  "DisplayPrefix s = (if length s \<le> displayLength then Redacted else take displayLength s)"

subsection \<open>The master key and scopes (master.go, scope.go, api/middleware.go)\<close>

definition VerifyMaster :: "(string \<Rightarrow> string) \<Rightarrow> string \<Rightarrow> string \<Rightarrow> bool" where
  "VerifyMaster sha configured presented \<longleftrightarrow>
     IsSet configured \<and> IsSet presented \<and> Secret_Equal sha configured presented"

record Scope = sc_master :: bool  sc_keyID :: uuid

definition MasterScope :: Scope where "MasterScope = \<lparr>sc_master = True, sc_keyID = 0\<rparr>"
definition KeyScope :: "uuid \<Rightarrow> Scope" where "KeyScope keyID = \<lparr>sc_master = False, sc_keyID = keyID\<rparr>"
definition Scope_Valid :: "Scope \<Rightarrow> bool" where "Scope_Valid s \<longleftrightarrow> sc_master s \<or> sc_keyID s \<noteq> 0"

definition Allows :: "Scope \<Rightarrow> uuid \<Rightarrow> bool" where
  "Allows s keyID \<longleftrightarrow> Scope_Valid s \<and> (sc_master s \<or> sc_keyID s = keyID)"

definition requireMaster :: "(string \<Rightarrow> string) \<Rightarrow> string \<Rightarrow> (HttpRequest \<Rightarrow> 's \<Rightarrow> HttpResponse \<times> 's)
    \<Rightarrow> HttpRequest \<Rightarrow> 's \<Rightarrow> HttpResponse \<times> 's" where
  "requireMaster sha masterKey nxt r s =
     (case BearerToken r of
        Some token \<Rightarrow> if VerifyMaster sha masterKey token then nxt r s
          else (WriteError 401 ErrorTypeInvalidAPIKey
            ''a valid administrative credential is required in the Authorization header'' new_response, s)
      | None \<Rightarrow> (WriteError 401 ErrorTypeInvalidAPIKey
            ''a valid administrative credential is required in the Authorization header'' new_response, s))"

subsection \<open>Redaction is complete\<close>

text \<open>A literal that can only come back from the text: no brackets, and not part of the placeholder.\<close>

definition hideable :: "string \<Rightarrow> bool" where
  "hideable l \<longleftrightarrow> l \<noteq> [] \<and> CHR ''['' \<notin> set l \<and> CHR '']'' \<notin> set l \<and> \<not> sublist l ''redacted''"

lemma sublist_split:
  assumes "c \<notin> set l"
  shows "sublist l (xs @ c # ys) \<Longrightarrow> sublist l xs \<or> sublist l ys"
proof (induction xs)
  case Nil
  with assms show ?case by (cases l) (auto simp: sublist_Cons_right)
next
  case (Cons x xs)
  have "prefix l (x # xs)" if "prefix l (x # xs @ c # ys)"
  proof -
    from that have "l = take (length l) ((x # xs) @ c # ys)" by (auto simp: prefix_def)
    then have l: "l = take (length l) (x # xs) @ take (length l - length (x # xs)) (c # ys)"
      by (simp only: take_append)
    have "length l \<le> length (x # xs)"
    proof (rule ccontr)
      assume "\<not> ?thesis"
      then have "c \<in> set (take (length l - length (x # xs)) (c # ys))" by (cases "length l - length (x # xs)") auto
      with l assms show False by (metis UnCI set_append)
    qed
    with l show ?thesis by (metis append_Nil2 diff_is_0_eq take0 take_is_prefix)
  qed
  with Cons show ?case by (auto simp: sublist_Cons_right)
qed

lemma hideable_Redacted: "hideable l \<Longrightarrow> sublist l (Redacted @ s) \<Longrightarrow> sublist l s"
proof -
  assume h: "hideable l" and s: "sublist l (Redacted @ s)"
  have "Redacted @ s = [] @ CHR ''['' # (''redacted'' @ CHR '']'' # s)" by (simp add: Redacted_def)
  with s h have "sublist l [] \<or> sublist l (''redacted'' @ CHR '']'' # s)"
    using sublist_split [of "CHR ''[''" l "[]"] by (auto simp: hideable_def)
  with h have "sublist l (''redacted'' @ CHR '']'' # s)" by (auto simp: hideable_def)
  with h show "sublist l s" using sublist_split [of "CHR '']''" l "''redacted''" s] by (auto simp: hideable_def)
qed

lemma prefix_replace_all:
  "prefix p (replace_all old Redacted s) \<Longrightarrow> CHR ''['' \<notin> set p \<Longrightarrow> prefix p s"
proof (induction old Redacted s arbitrary: p rule: replace_all.induct)
  case (2 old c cs)
  show ?case
  proof (cases p)
    case (Cons d ds)
    with "2.prems" have "\<not> has_prefix old (c # cs)" by (auto simp: Redacted_def)
    with "2.prems" Cons "2.hyps" [of ds] show ?thesis by (auto)
  qed simp
qed simp

lemma sublist_dropD: "sublist l (drop k s) \<Longrightarrow> sublist l s"
  unfolding sublist_def by (metis append_take_drop_id append.assoc)

lemma sublist_replace_all:
  "hideable l \<Longrightarrow> sublist l (replace_all old Redacted s) \<Longrightarrow> sublist l s"
proof (induction old Redacted s rule: replace_all.induct)
  case (2 old c cs)
  show ?case
  proof (cases "has_prefix old (c # cs)")
    case True
    with "2.prems" hideable_Redacted have "sublist l (replace_all old Redacted (drop (length old - 1) cs))" by simp
    with "2.hyps"(1) [OF True "2.prems"(1)] have "sublist l (drop (length old - 1) cs)" by simp
    then show ?thesis using sublist_dropD by (auto simp: sublist_Cons_right)
  next
    case False
    with "2.prems"(2) have "prefix l (c # replace_all old Redacted cs) \<or> sublist l (replace_all old Redacted cs)"
      by (simp add: sublist_Cons_right)
    then show ?thesis
    proof
      assume "prefix l (c # replace_all old Redacted cs)"
      then have "prefix l (c # cs)" using "2.prems"(1)
        by (cases l) (auto simp: hideable_def intro: prefix_replace_all)
      then show ?thesis by simp
    qed (use "2.hyps"(2) [OF False "2.prems"(1)] in \<open>simp add: sublist_Cons_right\<close>)
  qed
qed simp

lemma replace_all_gone: "hideable l \<Longrightarrow> \<not> sublist l (replace_all l Redacted s)"
proof (induction l Redacted s rule: replace_all.induct)
  case (1 old)
  then show ?case by (simp add: hideable_def)
next
  case (2 old c cs)
  show ?case
  proof (cases "has_prefix old (c # cs)")
    case True
    with "2.hyps"(1) [OF True "2.prems"] hideable_Redacted [OF "2.prems"] show ?thesis by auto
  next
    case False
    have "\<not> prefix old (c # replace_all old Redacted cs)"
    proof
      assume "prefix old (c # replace_all old Redacted cs)"
      then have "prefix old (c # cs)" using "2.prems"
        by (cases old) (auto simp: hideable_def intro: prefix_replace_all)
      with False show False by (auto simp: has_prefix_def prefix_def)
    qed
    with False "2.hyps"(2) [OF False "2.prems"] show ?thesis by (simp add: sublist_Cons_right)
  qed
qed

lemma Redact_gone:
  assumes "hideable l"
  shows "l \<in> set ls \<or> \<not> sublist l s \<Longrightarrow> \<not> sublist l (fold (\<lambda>l out. replace_all l Redacted out) ls s)"
proof (induction ls arbitrary: s)
  case (Cons x ls)
  have "l \<in> set ls \<or> \<not> sublist l (replace_all x Redacted s)"
    using Cons.prems replace_all_gone [OF assms] sublist_replace_all [OF assms] by auto
  with Cons.IH show ?case by simp
qed simp

subsection \<open>Generated keys\<close>

definition symbol :: "nat \<Rightarrow> char" where
  "symbol c = alphabet ! (c mod length alphabet)"

definition symbols :: "nat list \<Rightarrow> string" where
  "symbols cs = map symbol (filter (\<lambda>c. c < byte_limit) cs)"

lemma take_symbols_eq: "length b < n \<Longrightarrow> take_symbols n cs b = take n (b @ symbols cs)"
proof (induction cs arbitrary: b)
  case (Cons c cs)
  show ?case
  proof (cases "c < byte_limit")
    case True
    with Cons.prems Cons.IH [of "b @ [symbol c]"] show ?thesis
      by (auto simp: symbols_def symbol_def Let_def)
  qed (use Cons in \<open>simp add: symbols_def\<close>)
qed (simp add: symbols_def)

lemma take_take_append: "take n (take n xs @ ys) = take n (xs @ ys)"
  by (cases "length xs \<le> n") simp_all

lemma symbols_append: "symbols (xs @ ys) = symbols xs @ symbols ys"
  by (simp add: symbols_def)

lemma randomString_eq:
  "length b \<le> n \<Longrightarrow> n \<le> length b + length (symbols (concat blks))
   \<Longrightarrow> randomString n (map Some blks) b = Some (Inr (take n (b @ symbols (concat blks))))"
proof (induction blks arbitrary: b)
  case Nil
  then show ?case by (simp add: randomString.simps symbols_def)
next
  case (Cons blk blks)
  show ?case
  proof (cases "length b < n")
    case False
    with Cons.prems show ?thesis by (simp add: randomString.simps)
  next
    case True
    note eq = take_symbols_eq [OF True, of blk]
    have "randomString n (map Some blks) (take_symbols n blk b)
        = Some (Inr (take n (take_symbols n blk b @ symbols (concat blks))))"
      using Cons.prems by (intro Cons.IH) (auto simp: eq symbols_append)
    moreover have "take n (take n (b @ symbols blk) @ symbols (concat blks)) = take n (b @ symbols (concat (blk # blks)))"
      by (simp only: take_take_append symbols_append concat.simps append_assoc)
    ultimately show ?thesis using True eq by (subst randomString.simps) simp
  qed
qed

lemma alphabet_facts: "length alphabet = 62" "distinct alphabet" "byte_limit = 248"
  by (simp_all add: alphabet_def byte_limit_def)

lemma symbol_preimages:
  assumes "a \<in> set alphabet"
  shows "card {c. c < byte_limit \<and> symbol c = a} = 4"
proof -
  from assms obtain i where i: "i < 62" "alphabet ! i = a"
    by (auto simp: in_set_conv_nth alphabet_facts)
  have "{c. c < byte_limit \<and> symbol c = a} = {i, i + 62, i + 124, i + 186}"
  proof (intro set_eqI iffI)
    fix c assume "c \<in> {c. c < byte_limit \<and> symbol c = a}"
    then have c: "c < 248" "alphabet ! (c mod 62) = alphabet ! i"
      using i by (auto simp: alphabet_facts symbol_def)
    then have "c mod 62 = i"
      using i nth_eq_iff_index_eq [of alphabet "c mod 62" i] by (simp add: alphabet_facts)
    then have "c = 62 * (c div 62) + i" using mult_div_mod_eq [of 62 c] by simp
    moreover have "c div 62 \<in> {0, 1, 2, 3}" using c(1) by auto
    ultimately show "c \<in> {i, i + 62, i + 124, i + 186}" by auto
  next
    fix c assume "c \<in> {i, i + 62, i + 124, i + 186}"
    then have "c < 248" "c mod 62 = i" using i(1) by (auto simp: mod_add_eq [symmetric, of i 124] mod_add_eq [symmetric, of i 186])
    with i show "c \<in> {c. c < byte_limit \<and> symbol c = a}" by (simp add: alphabet_facts symbol_def)
  qed
  then show ?thesis by simp
qed

subsection \<open>Scopes\<close>

lemma scope_allows:
  "Allows MasterScope k" "k \<noteq> 0 \<Longrightarrow> Allows (KeyScope k) j \<longleftrightarrow> j = k" "\<not> Allows (KeyScope 0) j"
  by (auto simp: Allows_def MasterScope_def KeyScope_def Scope_Valid_def)

subsection \<open>Properties\<close>

text \<open>
  C31. Redaction. Whatever an upstream sends back, none of the secrets the redactor was built with is
  left in the text, provided they are long enough to be kept, contain no square bracket and are not
  part of the placeholder itself.
\<close>

theorem redaction_complete:
  assumes "l \<in> set secrets" "8 \<le> length l" "hideable l"
  shows "\<not> sublist l (Redact (NewRedactor secrets) b)"
  unfolding Redact_def using assms by (intro Redact_gone) (auto simp: NewRedactor_def)

theorem redaction_complete_witness:
  "\<not> sublist ''opaque-token-1'' (Redact (NewRedactor [''opaque-token-1'']) ''bad key opaque-token-1'')"
  by (rule redaction_complete) (simp_all add: hideable_def sublist_code)

text \<open>
  C32. Key generation. Given blocks of random bytes with at least 43 acceptable ones among them, the key
  is the prefix followed by the symbols of the first 43 acceptable bytes, 46 characters in all, stored
  by its hash; and every symbol of the alphabet stands for exactly four of the 248 acceptable byte
  values, so no symbol is likelier than another.
\<close>

theorem key_unbiased:
  assumes "bodyLength \<le> length (filter (\<lambda>c. c < byte_limit) (concat blks))"
  shows "\<exists>k. NewKey sha (map Some blks) = Some (Inr k)
      \<and> k_Secret k = Prefix @ take bodyLength (symbols (concat blks)) \<and> length (k_Secret k) = KeyLength
      \<and> k_Prefix k = take displayLength (k_Secret k) \<and> displayLength < length (k_Secret k)
      \<and> k_Hash k = Hash sha (k_Secret k)
      \<and> (\<forall>a \<in> set alphabet. card {c. c < byte_limit \<and> symbol c = a} = 4)"
proof -
  have "randomString bodyLength (map Some blks) [] = Some (Inr (take bodyLength (symbols (concat blks))))"
    using randomString_eq [of "[]" bodyLength blks] assms by (simp add: symbols_def)
  moreover have "length (take bodyLength (symbols (concat blks))) = bodyLength"
    using assms by (simp add: symbols_def)
  ultimately show ?thesis using symbol_preimages
    by (simp add: NewKey_def Let_def Hash_def KeyLength_def displayLength_def bodyLength_def Prefix_def)
qed

theorem key_unbiased_witness:
  "\<exists>k. NewKey id [Some (replicate 43 250), Some (replicate 43 62)] = Some (Inr k)
     \<and> k_Secret k = ''cl_'' @ replicate 43 CHR ''A''"
proof -
  let ?blks = "[replicate 43 250, replicate 43 62]"
  have "bodyLength \<le> length (filter (\<lambda>c. c < byte_limit) (concat ?blks))"
    by (simp add: bodyLength_def alphabet_facts filter_replicate del: replicate.simps)
  moreover have "take bodyLength (symbols (concat ?blks)) = replicate 43 CHR ''A''"
    by (simp add: symbols_def bodyLength_def alphabet_facts filter_replicate symbol_def del: replicate.simps)
      (simp add: alphabet_def)
  ultimately show ?thesis using key_unbiased [of ?blks id] by (auto simp: Prefix_def)
qed

end
