(* ===== verification/Json_Print.thy ===== *)
theory Json_Print
  imports Json
begin

text \<open>
  The standard library's JSON encoder, as the translators use it: compact, with the HTML characters
  escaped. (It also escapes U+2028 and U+2029 and replaces bytes that are not UTF-8; both are left as
  they are here.) The lemmas show that parsing what was printed gives the document back, so an edited
  body can be reasoned about as bytes.
\<close>

definition hex_digit :: "nat \<Rightarrow> char" where
  "hex_digit n = char_of (if n < 10 then 48 + n else 87 + n)"

definition esc_char :: "char \<Rightarrow> string" where
  "esc_char c =
     (if c = CHR 0x22 then [CHR 0x5C, CHR 0x22]
      else if c = CHR 0x5C then [CHR 0x5C, CHR 0x5C]
      else if c = CHR 0x08 then [CHR 0x5C, CHR ''b'']
      else if c = CHR 0x0C then [CHR 0x5C, CHR ''f'']
      else if c = CHR 0x0A then [CHR 0x5C, CHR ''n'']
      else if c = CHR 0x0D then [CHR 0x5C, CHR ''r'']
      else if c = CHR 0x09 then [CHR 0x5C, CHR ''t'']
      else if of_char c < (32 :: nat) \<or> c \<in> {CHR ''<'', CHR ''>'', CHR ''&''}
        then [CHR 0x5C, CHR ''u'', CHR ''0'', CHR ''0'', hex_digit (of_char c div 16), hex_digit (of_char c mod 16)]
      else [c])"

definition print_string :: "string \<Rightarrow> string" where
  "print_string s = [CHR 0x22] @ concat (map esc_char s) @ [CHR 0x22]"

fun commas :: "string list \<Rightarrow> string" where
  "commas [] = []"
| "commas [x] = x"
| "commas (x # y # ys) = x @ '','' @ commas (y # ys)"

fun json_print :: "json \<Rightarrow> string" where
  "json_print JNull = ''null''"
| "json_print (JBool b) = (if b then ''true'' else ''false'')"
| "json_print (JNum l) = l"
| "json_print (JStr s) = print_string s"
| "json_print (JArr js) = ''['' @ commas (map json_print js) @ '']''"
| "json_print (JObj kvs) = ''{'' @ commas (map (\<lambda>(k, v). print_string k @ '':'' @ json_print v) kvs) @ ''}''"

subsection \<open>Strings\<close>

lemma esc_hex4:
  assumes "of_char c < (32 :: nat) \<or> c \<in> {CHR ''<'', CHR ''>'', CHR ''&''}"
  shows "unicode_escape (CHR ''0'' # CHR ''0'' # hex_digit (of_char c div 16) # hex_digit (of_char c mod 16) # s)
    = Some ([c], 4)"
proof -
  define n :: nat where "n = of_char c"
  have n: "n < 64" using assms by (auto simp: n_def)
  have hex: "hex_value (hex_digit k) = Some k" if "k < 16" for k
  proof -
    from that have "k \<in> set [0..<16]" by simp
    moreover have "list_all (\<lambda>k. hex_value (hex_digit k) = Some k) [0..<16]" by code_simp
    ultimately show ?thesis by (simp add: list_all_iff)
  qed
  have "hex4 (CHR ''0'' # CHR ''0'' # hex_digit (n div 16) # hex_digit (n mod 16) # s) = Some n"
    using n hex [of "n div 16"] hex [of "n mod 16"]
    by (simp add: hex_value_def [of "CHR ''0''"] is_digit_def)
  moreover have "utf8 n = [c]" using n by (simp add: utf8_def n_def)
  ultimately show ?thesis using n by (simp add: unicode_escape_def flip: n_def)
qed

lemma p_string_esc:
  "length s < n \<Longrightarrow> p_string n (concat (map esc_char s) @ CHR 0x22 # rest) = Some (s, rest)"
proof (induction s arbitrary: n)
  case Nil
  then show ?case by (cases n) simp_all
next
  case (Cons c s)
  obtain m where m: "n = Suc m" "length s < m" using Cons.prems by (cases n) auto
  note IH = Cons.IH [OF m(2)]
  show ?case
    using IH esc_hex4 [of c] unfolding m(1)
    by (auto simp: esc_char_def simple_escape_def)
qed

lemma esc_char_length: "1 \<le> length (esc_char c)"
  by (simp add: esc_char_def)

lemma length_esc: "length s \<le> length (concat (map esc_char s))"
proof (induction s)
  case (Cons c s)
  then show ?case using esc_char_length [of c] by simp
qed simp

lemma p_string_print:
  "p_string (Suc (length (concat (map esc_char s) @ CHR 0x22 # rest))) (concat (map esc_char s) @ CHR 0x22 # rest)
   = Some (s, rest)"
  using length_esc [of s] by (intro p_string_esc) simp

declare p_string.simps [simp del]

subsection \<open>Numbers\<close>

text \<open>A literal is valid when the decoder reads all of it.\<close>

definition num_ok :: "string \<Rightarrow> bool" where
  "num_ok l \<longleftrightarrow> p_number l = Some (l, [])"

definition num_char :: "char \<Rightarrow> bool" where
  "num_char c \<longleftrightarrow> is_digit c \<or> c \<in> {CHR ''.'', CHR ''e'', CHR ''E'', CHR ''+'', CHR ''-''}"

definition ends_num :: "string \<Rightarrow> bool" where
  "ends_num r \<longleftrightarrow> (case r of [] \<Rightarrow> True | c # _ \<Rightarrow> \<not> num_char c)"

text \<open>The parts of a literal: sign, whole part, fraction and exponent.\<close>

definition n_sign :: "string \<Rightarrow> string" where
  "n_sign s = takeWhile (\<lambda>c. c = CHR ''-'') (take 1 s)"

definition n_whole :: "string \<Rightarrow> string" where
  "n_whole s = (if take 1 s = ''0'' then ''0'' else takeWhile is_digit s)"

definition n_frac :: "string \<Rightarrow> string" where
  "n_frac s = (if take 1 s = ''.'' \<and> takeWhile is_digit (drop 1 s) \<noteq> []
     then CHR ''.'' # takeWhile is_digit (drop 1 s) else [])"

definition n_exp :: "string \<Rightarrow> string" where
  "n_exp s = (if take 1 s = ''e'' \<or> take 1 s = ''E'' then
     (let es = takeWhile (\<lambda>c. c = CHR ''+'' \<or> c = CHR ''-'') (take 1 (drop 1 s));
          ds = takeWhile is_digit (drop (length es) (drop 1 s))
      in if ds = [] then [] else take 1 s @ es @ ds) else [])"

lemma p_number_parts:
  "p_number s = (let s1 = drop (length (n_sign s)) s; s2 = drop (length (n_whole s1)) s1;
      s3 = drop (length (n_frac s2)) s2
    in if n_whole s1 = [] then None
       else Some (n_sign s @ n_whole s1 @ n_frac s2 @ n_exp s3, drop (length (n_exp s3)) s3))"
  unfolding p_number_def n_sign_def n_whole_def n_frac_def n_exp_def Let_def by (rule refl)

lemma takeWhile_stop: "(\<forall>x \<in> set xs. P x) \<Longrightarrow> (case ys of [] \<Rightarrow> True | y # _ \<Rightarrow> \<not> P y) \<Longrightarrow> takeWhile P (xs @ ys) = xs"
  by (cases ys) (simp_all add: takeWhile_append2 takeWhile_eq_Nil_iff)

lemma digit_not: "is_digit c \<Longrightarrow> c \<noteq> CHR ''-'' \<and> c \<noteq> CHR ''+'' \<and> c \<noteq> CHR ''.'' \<and> c \<noteq> CHR ''e'' \<and> c \<noteq> CHR ''E''"
  by (auto simp: is_digit_def less_eq_char_def)

lemma ends_num_hd: "ends_num (c # r) \<longleftrightarrow> \<not> num_char c"
  by (simp add: ends_num_def)

definition all_digits :: "string \<Rightarrow> bool" where
  "all_digits s \<longleftrightarrow> (\<forall>c \<in> set s. is_digit c)"

inductive sign_form :: "string \<Rightarrow> bool" where
  "sign_form []" | "sign_form ''-''"

inductive whole_form :: "string \<Rightarrow> bool" where
  "whole_form ''0''"
| "is_digit c \<Longrightarrow> c \<noteq> CHR ''0'' \<Longrightarrow> all_digits ds \<Longrightarrow> whole_form (c # ds)"

inductive frac_form :: "string \<Rightarrow> bool" where
  "frac_form []"
| "ds \<noteq> [] \<Longrightarrow> all_digits ds \<Longrightarrow> frac_form (CHR ''.'' # ds)"

inductive exp_form :: "string \<Rightarrow> bool" where
  "exp_form []"
| "c \<in> {CHR ''e'', CHR ''E''} \<Longrightarrow> es \<in> {[], ''+'', ''-''} \<Longrightarrow> ds \<noteq> [] \<Longrightarrow> all_digits ds \<Longrightarrow> exp_form (c # es @ ds)"

lemma all_digits_takeWhile [simp]: "all_digits (takeWhile is_digit s)"
  by (auto simp: all_digits_def dest: set_takeWhileD)

lemma sign_form_n: "sign_form (n_sign s)"
  by (cases s) (auto simp: n_sign_def intro: sign_form.intros)

lemma whole_form_n: "n_whole s \<noteq> [] \<Longrightarrow> whole_form (n_whole s)"
proof (cases s)
  case (Cons c cs)
  assume "n_whole s \<noteq> []"
  with Cons show ?thesis
    by (auto simp: n_whole_def intro: whole_form.intros split: if_splits)
qed (simp add: n_whole_def)

lemma frac_form_n: "frac_form (n_frac s)"
  by (auto simp: n_frac_def intro: frac_form.intros)

lemma exp_form_digits: "c \<in> {CHR ''e'', CHR ''E''} \<Longrightarrow> is_digit d \<Longrightarrow> all_digits ds \<Longrightarrow> exp_form (c # d # ds)"
  using exp_form.intros(2) [of c "[]" "d # ds"] by (simp add: all_digits_def)

lemma exp_form_n: "exp_form (n_exp s)"
proof (cases s)
  case (Cons c cs)
  then show ?thesis
    by (cases cs) (auto simp: n_exp_def Let_def intro: exp_form.intros(1) exp_form_digits
        exp_form.intros(2) [of _ "[_]", simplified] split: if_splits)
qed (simp add: n_exp_def exp_form.intros)

lemma n_exp_read: "exp_form e \<Longrightarrow> ends_num r \<Longrightarrow> n_exp (e @ r) = e"
proof (induction e rule: exp_form.induct)
  case 1
  then show ?case by (cases r) (auto simp: n_exp_def ends_num_def num_char_def)
next
  case (2 c es ds)
  from 2 obtain d ds' where ds: "ds = d # ds'" "is_digit d" by (cases ds) (auto simp: all_digits_def)
  have tw: "takeWhile is_digit (ds @ r) = ds"
    using 2 by (intro takeWhile_stop) (auto simp: all_digits_def ends_num_def num_char_def split: list.splits)
  have es: "takeWhile (\<lambda>c. c = CHR ''+'' \<or> c = CHR ''-'') (take 1 (es @ ds @ r)) = es"
    using 2(2) ds digit_not [OF ds(2)] by auto
  show ?case using 2(1,3) tw es by (auto simp: n_exp_def)
qed

lemma n_frac_read: "frac_form f \<Longrightarrow> exp_form e \<Longrightarrow> ends_num r \<Longrightarrow> n_frac (f @ e @ r) = f"
proof (induction f rule: frac_form.induct)
  case 1
  then show ?case
    by (cases r) (auto simp: n_frac_def ends_num_def num_char_def elim!: exp_form.cases)
next
  case (2 ds)
  have "takeWhile is_digit (ds @ e @ r) = ds"
    using 2 by (intro takeWhile_stop)
      (auto simp: all_digits_def ends_num_def num_char_def is_digit_def less_eq_char_def elim!: exp_form.cases split: list.splits)
  with 2(1) show ?case by (auto simp: n_frac_def)
qed

lemma n_whole_read:
  assumes "whole_form w" "frac_form f" "exp_form e" "ends_num r"
  shows "n_whole (w @ f @ e @ r) = w"
  using assms(1)
proof cases
  case (2 c ds)
  have "takeWhile is_digit (ds @ f @ e @ r) = ds"
    using 2 assms(2-4) by (intro takeWhile_stop)
      (auto simp: all_digits_def ends_num_def num_char_def is_digit_def less_eq_char_def elim!: exp_form.cases frac_form.cases split: list.splits)
  with 2 show ?thesis by (auto simp: n_whole_def)
qed (simp add: n_whole_def)

lemma n_sign_read: "sign_form g \<Longrightarrow> whole_form w \<Longrightarrow> n_sign (g @ w @ s) = g"
  by (auto simp: n_sign_def is_digit_def less_eq_char_def elim!: sign_form.cases whole_form.cases)

lemma p_number_read:
  assumes "sign_form g" "whole_form w" "frac_form f" "exp_form e" "ends_num r"
  shows "p_number (g @ w @ f @ e @ r) = Some (g @ w @ f @ e, r)"
  using n_sign_read [OF assms(1,2), of "f @ e @ r"] n_whole_read [OF assms(2-5)] n_frac_read [OF assms(3-5)]
    n_exp_read [OF assms(4,5)] assms(2)
  by (auto simp: p_number_parts Let_def elim: whole_form.cases)

lemma p_number_form:
  assumes "p_number s = Some (l, r)"
  obtains g w f e where "l = g @ w @ f @ e" "sign_form g" "whole_form w" "frac_form f" "exp_form e"
proof -
  from assms show ?thesis
    by (intro that) (auto simp: p_number_parts Let_def intro: sign_form_n whole_form_n frac_form_n exp_form_n split: if_splits)
qed

lemma p_number_ok: "p_number s = Some (l, r) \<Longrightarrow> num_ok l"
  by (elim p_number_form) (use p_number_read [where r = "[]"] in \<open>auto simp: num_ok_def ends_num_def\<close>)

lemma p_number_num_ok: "num_ok l \<Longrightarrow> ends_num r \<Longrightarrow> p_number (l @ r) = Some (l, r)"
  unfolding num_ok_def by (elim p_number_form) (use p_number_read in \<open>auto\<close>)

lemma num_ok_hd: "num_ok l \<Longrightarrow> \<exists>c cs. l = c # cs \<and> (c = CHR ''-'' \<or> is_digit c)"
  unfolding num_ok_def
  by (elim p_number_form) (auto elim!: sign_form.cases whole_form.cases simp: is_digit_def)

subsection \<open>Documents\<close>

fun json_ok :: "json \<Rightarrow> bool" where
  "json_ok (JNum l) = num_ok l"
| "json_ok (JArr js) = list_all json_ok js"
| "json_ok (JObj kvs) = list_all (\<lambda>(_, v). json_ok v) kvs"
| "json_ok _ = True"

lemma json_print_hd: "json_ok j \<Longrightarrow> \<exists>c cs. json_print j = c # cs \<and> c \<notin> {CHR '' '', CHR 0x09, CHR 0x0A, CHR 0x0D, CHR '']''}"
proof (cases j)
  case (JNum l)
  moreover assume "json_ok j"
  ultimately show ?thesis using num_ok_hd [of l] by (auto simp: is_digit_def less_eq_char_def)
qed (auto simp: print_string_def)

lemma skip_ws_Cons: "skip_ws (c # cs) = (if c \<in> {CHR '' '', CHR 0x09, CHR 0x0A, CHR 0x0D} then skip_ws cs else c # cs)"
  by (simp add: skip_ws_def)

lemma commas_Cons: "commas (x # xs) = x @ (if xs = [] then [] else '','' @ commas xs)"
  by (cases xs) simp_all

lemma p_value_num:
  assumes "num_ok l" "ends_num r"
  shows "p_value (Suc n) (l @ r) = Some (JNum l, r)"
proof -
  obtain c cs where l: "l = c # cs" "c = CHR ''-'' \<or> is_digit c" using num_ok_hd [OF assms(1)] by blast
  have "c \<notin> {CHR '' '', CHR 0x09, CHR 0x0A, CHR 0x0D, CHR 0x22, CHR ''{'', CHR ''['', CHR ''t'', CHR ''f'', CHR ''n''}"
    using l(2) by (auto simp: is_digit_def less_eq_char_def)
  with p_number_num_ok [OF assms] l(1) show ?thesis by (simp add: skip_ws_Cons has_prefix_def)
qed

lemma p_value_print_string:
  "p_value (Suc n) (print_string s @ r) = Some (JStr s, r)"
  using p_string_print [of s r] by (simp add: print_string_def skip_ws_Cons)

lemma p_elems_print:
  assumes "\<And>j n r. j \<in> set js \<Longrightarrow> ends_num r \<Longrightarrow> 2 * length (json_print j) \<le> n
      \<Longrightarrow> p_value n (json_print j @ r) = Some (j, r)"
    and "\<And>j. j \<in> set js \<Longrightarrow> json_print j \<noteq> []"
    and "js \<noteq> []" "2 * length (commas (map json_print js)) < n"
  shows "p_elems n (commas (map json_print js) @ '']'' @ r) = Some (js, r)"
  using assms
proof (induction js arbitrary: n)
  case (Cons j js)
  obtain m where n: "n = Suc m" using Cons.prems(4) by (cases n) auto
  have j: "json_print j \<noteq> []" using Cons.prems(2) by simp
  show ?case
  proof (cases "js = []")
    case True
    with Cons.prems(4) n Cons.prems(1) [of j "'']'' @ r" m]
    show ?thesis by (simp add: skip_ws_Cons ends_num_def num_char_def is_digit_def less_eq_char_def)
  next
    case False
    from Cons.prems(4) False n
    have m: "2 * length (json_print j) \<le> m" "2 * length (commas (map json_print js)) < m"
      using j by (auto simp: commas_Cons neq_Nil_conv)
    have "p_value m (json_print j @ '','' @ commas (map json_print js) @ '']'' @ r)
        = Some (j, '','' @ commas (map json_print js) @ '']'' @ r)"
      using m(1) by (intro Cons.prems(1)) (simp_all add: ends_num_def num_char_def is_digit_def less_eq_char_def)
    moreover have "p_elems m (commas (map json_print js) @ '']'' @ r) = Some (js, r)"
      using Cons.prems(1,2) False m(2) by (intro Cons.IH) auto
    ultimately show ?thesis using False n by (simp add: commas_Cons skip_ws_Cons)
  qed
qed simp

lemma p_members_print:
  assumes "\<And>k j n r. (k, j) \<in> set kvs \<Longrightarrow> ends_num r \<Longrightarrow> 2 * length (json_print j) \<le> n
      \<Longrightarrow> p_value n (json_print j @ r) = Some (j, r)"
    and "kvs \<noteq> []" "2 * length (commas (map (\<lambda>(k, v). print_string k @ '':'' @ json_print v) kvs)) < n"
  shows "p_members n (commas (map (\<lambda>(k, v). print_string k @ '':'' @ json_print v) kvs) @ ''}'' @ r) = Some (kvs, r)"
  using assms
proof (induction kvs arbitrary: n)
  case (Cons kv kvs)
  obtain k j where kv: "kv = (k, j)" by (cases kv)
  obtain m where n: "n = Suc m" using Cons.prems(3) by (cases n) auto
  define pm where "pm = (\<lambda>(k :: string, v). print_string k @ '':'' @ json_print v)"
  define rest where "rest = (if kvs = [] then ''}'' @ r else '','' @ commas (map pm kvs) @ ''}'' @ r)"
  have ps: "p_string (Suc (length (concat (map esc_char k) @ [CHR 0x22] @ x))) (concat (map esc_char k) @ [CHR 0x22] @ x)
     = Some (k, x)" for x using p_string_print [of k x] by simp
  have m: "2 * length (json_print j) \<le> m" "kvs \<noteq> [] \<Longrightarrow> 2 * length (commas (map pm kvs)) < m"
    using Cons.prems(3) kv n by (auto simp: commas_Cons print_string_def pm_def split: if_splits)
  have v: "p_value m (json_print j @ rest) = Some (j, rest)"
    using m(1) kv by (intro Cons.prems(1) [of k]) (auto simp: rest_def ends_num_def num_char_def is_digit_def less_eq_char_def)
  have ms: "p_members m (commas (map pm kvs) @ ''}'' @ r) = Some (kvs, r)" if "kvs \<noteq> []"
    using Cons.prems(1) that m(2) unfolding pm_def by (intro Cons.IH) auto
  have "commas (map pm (kv # kvs)) @ ''}'' @ r
      = CHR 0x22 # concat (map esc_char k) @ [CHR 0x22] @ '':'' @ json_print j @ rest"
    by (simp add: commas_Cons pm_def kv print_string_def rest_def)
  then show ?case unfolding pm_def [symmetric]
    using ps [of "'':'' @ json_print j @ rest"] v ms by (simp add: n kv skip_ws_Cons rest_def)
qed simp

lemma p_value_print:
  "json_ok j \<Longrightarrow> ends_num r \<Longrightarrow> 2 * length (json_print j) \<le> n \<Longrightarrow> p_value n (json_print j @ r) = Some (j, r)"
proof (induction j arbitrary: n r)
  case (JNum l)
  then obtain m where "n = Suc m" using num_ok_hd [of l] by (cases n) auto
  then show ?case using p_value_num [of l r m] JNum.prems by (simp del: p_value.simps)
next
  case (JStr s)
  then obtain m where "n = Suc m" by (cases n) (auto simp: print_string_def)
  then show ?case using p_value_print_string [of m s r] by (simp del: p_value.simps)
next
  case (JArr js)
  obtain m where n: "n = Suc m" using JArr.prems(3) by (cases n) auto
  show ?case
  proof (cases js)
    case Nil
    then show ?thesis by (simp add: n skip_ws_Cons)
  next
    case (Cons j js')
    obtain c cs where c: "json_print j = c # cs" "c \<notin> {CHR '' '', CHR 0x09, CHR 0x0A, CHR 0x0D, CHR '']''}"
      using json_print_hd [of j] JArr.prems(1) Cons by auto
    have "p_elems m (commas (map json_print js) @ '']'' @ r) = Some (js, r)"
    proof (rule p_elems_print)
      show "p_value n (json_print j @ r) = Some (j, r)" if "j \<in> set js" "ends_num r" "2 * length (json_print j) \<le> n" for j n r
        using JArr.IH [OF that(1) _ that(2,3)] JArr.prems(1) that(1) by (auto simp: list_all_iff)
      show "json_print j \<noteq> []" if "j \<in> set js" for j
        using json_print_hd [of j] JArr.prems(1) that by (auto simp: list_all_iff)
    qed (use Cons JArr.prems(3) n in auto)
    moreover obtain ds where "commas (map json_print js) @ '']'' @ r = c # ds"
      using Cons c(1) by (simp add: commas_Cons)
    ultimately show ?thesis using c(2) by (simp add: n skip_ws_Cons)
  qed
next
  case (JObj kvs)
  obtain m where n: "n = Suc m" using JObj.prems(3) by (cases n) auto
  show ?case
  proof (cases kvs)
    case Nil
    then show ?thesis by (simp add: n skip_ws_Cons)
  next
    case (Cons kv kvs')
    let ?t = "commas (map (\<lambda>(k, v). print_string k @ '':'' @ json_print v) kvs) @ ''}'' @ r"
    have "p_members m ?t = Some (kvs, r)"
    proof (rule p_members_print)
      show "p_value n (json_print j @ r) = Some (j, r)" if "(k, j) \<in> set kvs" "ends_num r" "2 * length (json_print j) \<le> n" for k j n r
        using JObj.IH [of "(k, j)" j] that JObj.prems(1) by (auto simp: list_all_iff)
    qed (use Cons JObj.prems(3) n in auto)
    moreover obtain ds where "?t = CHR 0x22 # ds"
      using Cons by (cases kv) (simp add: commas_Cons print_string_def)
    ultimately show ?thesis by (simp add: n skip_ws_Cons)
  qed
qed (case_tac n; auto simp: skip_ws_Cons has_prefix_def split: if_splits)+

lemma json_parse_print: "json_ok j \<Longrightarrow> json_parse (json_print j) = Some j"
  using p_value_print [of j "[]" "3 * length (json_print j) + 3"]
  by (simp add: json_parse_def ends_num_def skip_ws_def)

text \<open>What the decoder yields can be printed.\<close>

lemma p_values_ok:
  "(\<forall>s j r. p_value n s = Some (j, r) \<longrightarrow> json_ok j) \<and> (\<forall>s js r. p_elems n s = Some (js, r) \<longrightarrow> list_all json_ok js)
   \<and> (\<forall>s kvs r. p_members n s = Some (kvs, r) \<longrightarrow> list_all (\<lambda>(_, v). json_ok v) kvs)"
proof (induction n)
  case (Suc n)
  then have v: "\<And>s j r. p_value n s = Some (j, r) \<Longrightarrow> json_ok j"
    and e: "\<And>s js r. p_elems n s = Some (js, r) \<Longrightarrow> list_all json_ok js"
    and m: "\<And>s kvs r. p_members n s = Some (kvs, r) \<Longrightarrow> list_all (\<lambda>(_, v). json_ok v) kvs" by blast+
  have "json_ok j" if "p_value (Suc n) s = Some (j, r)" for s j r
    using that e m p_number_ok by (auto split: list.splits if_splits simp del: p_elems.simps p_members.simps)
  moreover have "list_all json_ok js" if "p_elems (Suc n) s = Some (js, r)" for s js r
    using that v e by (auto split: list.splits if_splits option.splits prod.splits simp del: p_value.simps)
  moreover have "list_all (\<lambda>(_, v). json_ok v) kvs" if "p_members (Suc n) s = Some (kvs, r)" for s kvs r
    using that v m by (auto split: list.splits if_splits option.splits prod.splits simp del: p_value.simps)
  ultimately show ?case by blast
qed simp

lemma json_parse_ok: "json_parse s = Some j \<Longrightarrow> json_ok j"
  using p_values_ok [of "3 * length s + 3"] unfolding json_parse_def
  by (simp split: option.splits if_splits prod.splits) blast

subsection \<open>Integers\<close>

definition int_lit :: "int \<Rightarrow> string" where
  "int_lit n = (if n < 0 then ''-'' else []) @ (if n = 0 then ''0'' else rev (digits_rev (nat \<bar>n\<bar>)))"

lemma of_char_digit: "k < 10 \<Longrightarrow> of_char (char_of (48 + k) :: char) = (48 + of_nat k :: int)"
proof -
  assume "k < 10"
  then have "(of_char (char_of (48 + k) :: char) :: nat) = 48 + k" by simp
  then show ?thesis by (metis of_nat_add of_nat_numeral of_nat_of_char)
qed

lemma is_digit_char: "(k :: nat) < 10 \<Longrightarrow> is_digit (char_of (48 + k))"
  by (simp add: is_digit_def less_eq_char_def)

lemma digits_rev_digits: "all_digits (digits_rev n)"
proof (induction n rule: digits_rev.induct)
  case (1 n)
  then show ?case by (subst digits_rev.simps) (auto simp: all_digits_def intro: is_digit_char)
qed

lemma digits_rev_last: "0 < n \<Longrightarrow> digits_rev n \<noteq> [] \<and> last (digits_rev n) \<noteq> CHR ''0''"
proof (induction n rule: digits_rev.induct)
  case (1 n)
  show ?case
  proof (cases "n div 10 = 0")
    case True
    then have n: "n < 10" by simp
    have "digits_rev n = [char_of (48 + n)]"
      using 1 n by (subst digits_rev.simps) (simp add: digits_rev.simps [of 0])
    moreover have "char_of (48 + n) \<noteq> (CHR ''0'')"
    proof
      assume "char_of (48 + n) = CHR ''0''"
      then have "(of_char (char_of (48 + n) :: char) :: nat) = 48" by simp
      with n 1 show False by simp
    qed
    ultimately show ?thesis by simp
  next
    case False
    with 1 have "digits_rev (n div 10) \<noteq> [] \<and> last (digits_rev (n div 10)) \<noteq> CHR ''0''" by auto
    with 1 show ?thesis by (subst (1 2) digits_rev.simps) auto
  qed
qed

lemma digits_value_snoc:
  "digits_value acc (xs @ [c]) = (case digits_value acc xs of None \<Rightarrow> None | Some v \<Rightarrow> digits_value v [c])"
  by (induction acc xs rule: digits_value.induct) simp_all

lemma digits_value_rev: "digits_value 0 (rev (digits_rev n)) = Some (int n)"
proof (induction n rule: digits_rev.induct)
  case (1 n)
  show ?case
  proof (cases "n = 0")
    case False
    have "is_digit (char_of (48 + n mod 10))" by (intro is_digit_char) simp
    moreover have "int n = 10 * int (n div 10) + int (n mod 10)" by presburger
    ultimately show ?thesis using 1 False
      by (subst digits_rev.simps) (simp add: digits_value_snoc is_digit_def of_char_digit)
  qed (simp add: digits_rev.simps [of 0])
qed

lemma whole_form_nat: "whole_form (if n = 0 then ''0'' else rev (digits_rev n))"
proof (cases "n = 0")
  case False
  then obtain c ds where "rev (digits_rev n) = c # ds" "c \<noteq> CHR ''0''"
    using digits_rev_last [of n] by (cases "digits_rev n" rule: rev_cases) auto
  then have "digits_rev n = rev ds @ [c]" by (metis rev.simps(2) rev_rev_ident)
  with digits_rev_digits [of n] have "is_digit c" "all_digits ds" by (auto simp: all_digits_def)
  with False \<open>rev (digits_rev n) = c # ds\<close> \<open>c \<noteq> CHR ''0''\<close> show ?thesis by (auto intro: whole_form.intros)
qed (auto intro: whole_form.intros)

lemma num_ok_int [simp]: "num_ok (int_lit n)"
proof -
  have "sign_form (if n < 0 then ''-'' else [])" by (auto intro: sign_form.intros)
  from p_number_read [OF this whole_form_nat [of "nat \<bar>n\<bar>"], OF frac_form.intros(1) exp_form.intros(1), of "[]"]
  show ?thesis by (cases "n = 0") (auto simp: num_ok_def int_lit_def ends_num_def)
qed

lemma ParseInt_int [simp]: "in_i64 n \<Longrightarrow> ParseInt (int_lit n) = Some n"
proof -
  assume n: "in_i64 n"
  consider "n = 0" | "n < 0" | "0 < n" by linarith
  then show ?thesis
  proof cases
    case 2
    then have "rev (digits_rev (nat (- n))) \<noteq> []" using digits_rev_last [of "nat (- n)"] by simp
    with 2 n digits_value_rev [of "nat (- n)"] show ?thesis by (simp add: ParseInt_def int_lit_def)
  next
    case 3
    from whole_form_nat [of "nat n"] 3 have "whole_form (rev (digits_rev (nat n)))" by simp
    then obtain c cs where c: "rev (digits_rev (nat n)) = c # cs" "is_digit c"
      by cases (simp_all add: is_digit_def)
    with digit_not [OF c(2)] 3 n digits_value_rev [of "nat n"] show ?thesis by (simp add: ParseInt_def int_lit_def)
  qed (use n in \<open>simp add: ParseInt_def int_lit_def\<close>)
qed

end
