(* ===== verification/Codec.thy ===== *)
theory Codec
  imports Json_Print "HOL-Library.Monad_Syntax"
begin

text \<open>
  What the reporting API uses of the standard library's codecs: unpadded URL-safe base64, the civil
  calendar and RFC 3339 timestamps, and the decimal text of integers and of stored amounts.

  Each codec comes with its round trip: decoding an encoded byte string, reading back a day, and
  parsing a formatted instant of the years 0 to 9999 give the value that went in.
\<close>

subsection \<open>Base64 (base64.RawURLEncoding)\<close>

definition b64_alphabet :: string where
  "b64_alphabet = ''ABCDEFGHIJKLMNOPQRSTUVWXYZabcdefghijklmnopqrstuvwxyz0123456789-_''"

definition b64_char :: "nat \<Rightarrow> char" where
  "b64_char n = b64_alphabet ! n"

definition b64_val :: "char \<Rightarrow> nat option" where
  "b64_val c = (let k = length (takeWhile (\<lambda>x. x \<noteq> c) b64_alphabet) in if k < 64 then Some k else None)"

fun b64_groups :: "nat list \<Rightarrow> string" where
  "b64_groups [] = []"
| "b64_groups [a] = map b64_char [a div 4, a mod 4 * 16]"
| "b64_groups [a, b] = map b64_char [a div 4, a mod 4 * 16 + b div 16, b mod 16 * 4]"
| "b64_groups (a # b # c # r) =
     map b64_char [a div 4, a mod 4 * 16 + b div 16, b mod 16 * 4 + c div 64, c mod 64] @ b64_groups r"

definition b64_encode :: "string \<Rightarrow> string" where
  "b64_encode s = b64_groups (map of_char s)"

text \<open>
  Decoding skips line breaks. A last group of one character is corrupt; the bits a last group leaves
  over are ignored.
\<close>

fun b64_bytes :: "nat list \<Rightarrow> nat list option" where
  "b64_bytes [] = Some []"
| "b64_bytes [w] = None"
| "b64_bytes [w, x] = Some [w * 4 + x div 16]"
| "b64_bytes [w, x, y] = Some [w * 4 + x div 16, x mod 16 * 16 + y div 4]"
| "b64_bytes (w # x # y # z # r) =
     map_option (\<lambda>bs. (w * 4 + x div 16) # (x mod 16 * 16 + y div 4) # (y mod 4 * 64 + z) # bs) (b64_bytes r)"

definition b64_decode :: "string \<Rightarrow> string option" where
  "b64_decode s =
     (case those (map b64_val (filter (\<lambda>c. c \<noteq> CHR 0x0A \<and> c \<noteq> CHR 0x0D) s)) of
        None \<Rightarrow> None
      | Some vs \<Rightarrow> map_option (map char_of) (b64_bytes vs))"

lemma b64_chars:
  "list_all (\<lambda>n. b64_val (b64_char n) = Some n \<and> b64_char n \<noteq> CHR 0x0A \<and> b64_char n \<noteq> CHR 0x0D) [0..<64]"
  by code_simp

lemma b64_char_val:
  "n < 64 \<Longrightarrow> b64_val (b64_char n) = Some n \<and> b64_char n \<noteq> CHR 0x0A \<and> b64_char n \<noteq> CHR 0x0D"
  using b64_chars by (simp add: list_all_iff)

fun sextets :: "nat list \<Rightarrow> nat list" where
  "sextets [] = []"
| "sextets [a] = [a div 4, a mod 4 * 16]"
| "sextets [a, b] = [a div 4, a mod 4 * 16 + b div 16, b mod 16 * 4]"
| "sextets (a # b # c # r) =
     [a div 4, a mod 4 * 16 + b div 16, b mod 16 * 4 + c div 64, c mod 64] @ sextets r"

lemma b64_groups_sextets: "b64_groups bs = map b64_char (sextets bs)"
  by (induction bs rule: sextets.induct) simp_all

lemma sextets_small: "\<forall>b \<in> set bs. b < 256 \<Longrightarrow> \<forall>v \<in> set (sextets bs). v < 64"
  by (induction bs rule: sextets.induct) (auto simp: less_mult_imp_div_less)

lemma those_map_Some: "(\<And>x. x \<in> set xs \<Longrightarrow> f x = Some (g x)) \<Longrightarrow> those (map f xs) = Some (map g xs)"
  by (induction xs) auto

lemma b64_bytes_sextets: "\<forall>b \<in> set bs. b < 256 \<Longrightarrow> b64_bytes (sextets bs) = Some bs"
proof (induction bs rule: sextets.induct)
  case (4 a b c r)
  have "a div 4 * 4 + (a mod 4 * 16 + b div 16) div 16 = a"
    "(a mod 4 * 16 + b div 16) mod 16 * 16 + (b mod 16 * 4 + c div 64) div 4 = b"
    "(b mod 16 * 4 + c div 64) mod 4 * 64 + c mod 64 = c"
    using 4 by (simp_all add: less_mult_imp_div_less)
  with 4 show ?case by simp
next
  case (3 a b)
  have "a div 4 * 4 + (a mod 4 * 16 + b div 16) div 16 = a"
    "(a mod 4 * 16 + b div 16) mod 16 * 16 + b mod 16 * 4 div 4 = b"
    using 3 by (simp_all add: less_mult_imp_div_less)
  then show ?case by simp
next
  case (2 a)
  have "a div 4 * 4 + a mod 4 * 16 div 16 = a" by simp
  then show ?case by simp
qed simp

lemma b64_round_trip: "b64_decode (b64_encode s) = Some s"
proof -
  let ?bs = "map of_char s :: nat list"
  have small: "\<forall>b \<in> set ?bs. b < 256" by (auto simp: nat_of_char_less_256)
  note six = sextets_small [OF small]
  have "filter (\<lambda>c. c \<noteq> CHR 0x0A \<and> c \<noteq> CHR 0x0D) (map b64_char (sextets ?bs)) = map b64_char (sextets ?bs)"
    using six b64_char_val by (auto simp: filter_id_conv)
  moreover have "those (map b64_val (map b64_char (sextets ?bs))) = Some (sextets ?bs)"
    using those_map_Some [of "sextets ?bs" "\<lambda>n. b64_val (b64_char n)" "\<lambda>n. n"] six b64_char_val
    by (simp add: o_def)
  ultimately show ?thesis
    by (simp add: b64_decode_def b64_encode_def b64_groups_sextets b64_bytes_sextets [OF small] o_def)
qed

subsection \<open>The civil calendar\<close>

text \<open>
  Days are counted from 1970-01-01 in the proleptic Gregorian calendar. Years are taken to begin on
  the first of March, so that the leap day is the last day of its year.
\<close>

definition is_leap :: "int \<Rightarrow> bool" where
  "is_leap y \<longleftrightarrow> y mod 4 = 0 \<and> (y mod 100 \<noteq> 0 \<or> y mod 400 = 0)"

definition days_in :: "int \<Rightarrow> int \<Rightarrow> int" where
  "days_in m y =
     (if m = 2 then (if is_leap y then 29 else 28) else if m \<in> {4, 6, 9, 11} then 30 else 31)"

definition day_number :: "int \<Rightarrow> int \<Rightarrow> int \<Rightarrow> int" where
  "day_number y m d =
     (let y' = (if m \<le> 2 then y - 1 else y); yoe = y' mod 400; mp = (m + 9) mod 12
      in y' div 400 * 146097 + (365 * yoe + yoe div 4 - yoe div 100) + (153 * mp + 2) div 5 + d - 1 - 719468)"

text \<open>The year of the 400-year era and the day of that year.\<close>

definition era_year :: "int \<Rightarrow> int \<times> int" where
  "era_year doe =
     (let c = min 3 (doe div 36524); r = doe - c * 36524; q = r div 1461; s = r mod 1461;
          a = min 3 (s div 365)
      in (100 * c + 4 * q + a, s - 365 * a))"

definition civil :: "int \<Rightarrow> int \<times> int \<times> int" where
  "civil z =
     (let w = z + 719468; (yoe, doy) = era_year (w mod 146097); mp = (5 * doy + 2) div 153;
          m = (if mp < 10 then mp + 3 else mp - 9)
      in (w div 146097 * 400 + yoe + (if m \<le> 2 then 1 else 0), m, doy - (153 * mp + 2) div 5 + 1))"

lemma euclid: "0 < k \<Longrightarrow> k * (n div k) \<le> n \<and> n < k * (n div k) + k" for n k :: int
  using pos_mod_bound [of k n] pos_mod_sign [of k n] mult_div_mod_eq [of k n] by linarith

lemma era_year_bounds:
  assumes "0 \<le> doe" "doe < 146097" "era_year doe = (yoe, doy)"
  shows "0 \<le> yoe" "yoe < 400" "0 \<le> doy" "doy \<le> 365"
    "365 * yoe + yoe div 4 - yoe div 100 + doy = doe"
    "doy = 365 \<Longrightarrow> is_leap (yoe + 1)"
proof -
  define c r q s a where "c = min 3 (doe div 36524)" and "r = doe - c * 36524" and "q = r div 1461"
    and "s = r mod 1461" and "a = min 3 (s div 365)"
  note d = c_def r_def q_def s_def a_def
  have yd: "yoe = 100 * c + 4 * q + a" "doy = s - 365 * a"
    using assms(3) unfolding era_year_def Let_def d [symmetric] by simp_all
  have c: "0 \<le> c" "c \<le> 3" using assms(1) by (simp_all add: c_def)
  have r: "0 \<le> r" "r \<le> 36524" "c < 3 \<Longrightarrow> r < 36524"
    using euclid [of 36524 doe] assms(1,2) unfolding r_def c_def by (auto simp: min_def)
  have rq: "r = 1461 * q + s" "0 \<le> s" "s < 1461" by (simp_all add: q_def s_def)
  have q: "0 \<le> q" "q \<le> 24" using r(1,2) rq by linarith+
  have a: "0 \<le> a" "a \<le> 3" "365 * a \<le> s" "s - 365 * a \<le> 365" "s - 365 * a = 365 \<Longrightarrow> a = 3"
    using euclid [of 365 s] rq(2,3) unfolding a_def by (auto simp: min_def split: if_splits)
  show "0 \<le> yoe" "yoe < 400" "0 \<le> doy" "doy \<le> 365" using yd c q a by linarith+
  have y4: "yoe div 4 = 25 * c + q" 
    using yd(1) a(1,2) euclid [of 4 yoe] by linarith
  have y100: "yoe div 100 = c" 
    using yd(1) a(1,2) q euclid [of 100 yoe] by linarith
  show "365 * yoe + yoe div 4 - yoe div 100 + doy = doe"
    using yd rq(1) r_def y4 y100 by simp
  show "is_leap (yoe + 1)" if "doy = 365"
  proof -
    have "a = 3" "s = 1460" using that yd a by auto
    then have c3: "q = 24 \<Longrightarrow> c = 3" using rq r(3) c by linarith
    have next_year: "yoe + 1 = 4 * (25 * c + q + 1)" using yd(1) \<open>a = 3\<close> by simp
    then have "(yoe + 1) mod 4 = 0" by simp
    moreover have "(yoe + 1) mod 100 = 4 * q + 4" if "q < 24"
    proof -
      have "yoe + 1 = 4 * q + 4 + 100 * c" using next_year by simp
      then have "(yoe + 1) mod 100 = (4 * q + 4) mod 100" by (simp only: mod_mult_self2)
      with that q show ?thesis by simp
    qed
    moreover have "yoe + 1 = 400" if "q = 24" using next_year c3 [OF that] that by simp
    ultimately show ?thesis using q unfolding is_leap_def by (cases "q = 24") auto
  qed
qed

lemma is_leap_era: "is_leap (k * 400 + y) = is_leap y"
proof -
  have "(y + 4 * (100 * k)) mod 4 = y mod 4" "(y + 100 * (4 * k)) mod 100 = y mod 100"
    "(y + 400 * k) mod 400 = y mod 400" by (rule mod_mult_self2)+
  then show ?thesis by (simp add: is_leap_def algebra_simps)
qed

lemma month_of_doy:
  fixes doy :: int
  assumes "0 \<le> doy" "doy \<le> 365"
  defines "mp \<equiv> (5 * doy + 2) div 153"
  shows "0 \<le> mp" "mp \<le> 11" "(153 * mp + 2) div 5 \<le> doy"
    "doy - (153 * mp + 2) div 5 + 1 \<le> (if mp = 11 then doy - 336 else if mp \<in> {1, 3, 6, 8} then 30 else 31)"
proof -
  have mp: "153 * mp \<le> 5 * doy + 2" "5 * doy + 2 < 153 * mp + 153"
    using euclid [of 153 "5 * doy + 2"] by (simp_all add: mp_def)
  with assms(1,2) show b: "0 \<le> mp" "mp \<le> 11" by linarith+
  have five: "5 * ((153 * mp + 2) div 5) \<le> 153 * mp + 2" "153 * mp + 2 < 5 * ((153 * mp + 2) div 5) + 5"
    using euclid [of 5 "153 * mp + 2"] by simp_all
  with mp show "(153 * mp + 2) div 5 \<le> doy" by linarith
  from b have "mp = 0 \<or> mp = 1 \<or> mp = 2 \<or> mp = 3 \<or> mp = 4 \<or> mp = 5 \<or> mp = 6 \<or> mp = 7
    \<or> mp = 8 \<or> mp = 9 \<or> mp = 10 \<or> mp = 11" by presburger
  then show "doy - (153 * mp + 2) div 5 + 1 \<le> (if mp = 11 then doy - 336 else if mp \<in> {1, 3, 6, 8} then 30 else 31)"
    using mp by (elim disjE) simp_all
qed

lemma civil_fields:
  assumes "civil z = (y, m, d)"
  shows "1 \<le> m" "m \<le> 12" "1 \<le> d" "d \<le> days_in m y" "day_number y m d = z"
proof -
  let ?w = "z + 719468"
  obtain yoe doy where ey: "era_year (?w mod 146097) = (yoe, doy)" by fastforce
  define era where "era = ?w div 146097"
  have bounds: "0 \<le> ?w mod 146097" "?w mod 146097 < 146097" by simp_all
  note e = era_year_bounds [OF bounds ey]
  define mp where "mp = (5 * doy + 2) div 153"
  note mp = month_of_doy [OF e(3,4), folded mp_def]
  have m: "m = (if mp < 10 then mp + 3 else mp - 9)"
    and y: "y = era * 400 + yoe + (if m \<le> 2 then 1 else 0)"
    and d: "d = doy - (153 * mp + 2) div 5 + 1"
    using assms ey by (auto simp: civil_def Let_def mp_def era_def)
  show "1 \<le> m" "m \<le> 12" "1 \<le> d" using m d mp by auto
  have low: "m \<le> 2 \<longleftrightarrow> 10 \<le> mp" using m mp by auto
  have leap: "is_leap (era * 400 + yoe + 1)" if "doy = 365"
    using e(6) [OF that] is_leap_era [of era "yoe + 1"] by (simp add: add.assoc)
  show "d \<le> days_in m y"
  proof (cases "mp = 11")
    case True
    then have "m = 2" "y = era * 400 + yoe + 1" "d \<le> doy - 336" using m y d mp(4) by auto
    with leap e(4) show ?thesis by (cases "doy = 365") (auto simp: days_in_def)
  next
    case False
    then show ?thesis using mp(1,2,4) m d by (auto simp: days_in_def)
  qed
  have mm: "(m + 9) mod 12 = mp" using m mp(1,2) by auto
  have yy: "(if m \<le> 2 then y - 1 else y) = yoe + era * 400" using y by simp
  have "(yoe + era * 400) mod 400 = yoe" "(yoe + era * 400) div 400 = era" using e(1,2) by simp_all
  then have "day_number y m d = era * 146097 + (365 * yoe + yoe div 4 - yoe div 100) + doy - 719468"
    unfolding day_number_def Let_def yy mm d by simp
  also have "\<dots> = era * 146097 + ?w mod 146097 - 719468" using e(5) by simp
  also have "\<dots> = z" using div_mult_mod_eq [of ?w 146097] by (simp add: era_def)
  finally show "day_number y m d = z" .
qed

subsection \<open>Decimal text\<close>

definition digit_val :: "char \<Rightarrow> int" where
  "digit_val c = int (of_char c) - 48"

definition dec_val :: "string \<Rightarrow> int" where
  "dec_val s = foldl (\<lambda>a c. 10 * a + digit_val c) 0 s"

text \<open>Package \<open>time\<close>'s \<open>appendInt\<close>: at least \<open>w\<close> digits, behind the sign.\<close>

definition append_int :: "nat \<Rightarrow> int \<Rightarrow> string" where
  "append_int w x =
     (let ds = rev (digits_rev (nat \<bar>x\<bar>))
      in (if x < 0 then ''-'' else []) @ replicate (w - length ds) (CHR ''0'') @ ds)"

text \<open>The \<open>w\<close> last digits of a number.\<close>

fun pad_dec :: "nat \<Rightarrow> nat \<Rightarrow> string" where
  "pad_dec 0 n = []"
| "pad_dec (Suc w) n = pad_dec w (n div 10) @ [char_of (48 + n mod 10)]"

lemma length_pad_dec [simp]: "length (pad_dec w n) = w"
  by (induction w arbitrary: n) simp_all

lemma zero_char: "char_of (48 :: nat) = CHR ''0''"
  by code_simp

lemma pad_dec_0: "pad_dec w 0 = replicate w (CHR ''0'')"
  by (induction w) (simp_all add: zero_char replicate_append_same)

lemma digits_rev_pad: "n < 10 ^ w \<Longrightarrow>
  replicate (w - length (digits_rev n)) (CHR ''0'') @ rev (digits_rev n) = pad_dec w n"
proof (induction w arbitrary: n)
  case (Suc w)
  show ?case
  proof (cases "n = 0")
    case True
    then show ?thesis using pad_dec_0 [of "Suc w"] by (simp add: digits_rev.simps [of 0])
  next
    case False
    then have "digits_rev n = char_of (48 + n mod 10) # digits_rev (n div 10)"
      by (subst digits_rev.simps) simp
    moreover have "n div 10 < 10 ^ w" using Suc.prems by (simp add: less_mult_imp_div_less mult.commute)
    note Suc.IH [OF this]
    ultimately show ?thesis by (simp flip: append_assoc)
  qed
qed (simp add: digits_rev.simps [of 0])

lemma append_int_pad: "0 \<le> x \<Longrightarrow> x < 10 ^ w \<Longrightarrow> append_int w x = pad_dec w (nat x)"
  using digits_rev_pad [of "nat x" w] by (simp add: append_int_def Let_def nat_less_iff)

lemma digit_val_char: "n < 10 \<Longrightarrow> digit_val (char_of (48 + n :: nat)) = int n"
  by (simp add: digit_val_def)

lemma pad_dec_digits: "c \<in> set (pad_dec w n) \<Longrightarrow> is_digit c"
  by (induction w arbitrary: n) (auto intro: is_digit_char)

lemma dec_val_snoc: "dec_val (s @ [c]) = 10 * dec_val s + digit_val c"
  by (simp add: dec_val_def)

lemma dec_val_pad: "n < 10 ^ w \<Longrightarrow> dec_val (pad_dec w n) = int n"
proof (induction w arbitrary: n)
  case (Suc w)
  then have "n div 10 < 10 ^ w" by (simp add: less_mult_imp_div_less mult.commute)
  from Suc.IH [OF this] have "dec_val (pad_dec (Suc w) n) = 10 * int (n div 10) + int (n mod 10)"
    by (simp add: dec_val_snoc digit_val_char)
  also have "\<dots> = int n" using mult_div_mod_eq [of 10 n] by linarith
  finally show ?case .
qed (simp add: dec_val_def)

lemma dec_val_zeros: "dec_val (s @ replicate k (CHR ''0'')) = dec_val s * 10 ^ k"
proof (induction k)
  case (Suc k)
  have "s @ replicate (Suc k) (CHR ''0'') = (s @ replicate k (CHR ''0'')) @ [CHR ''0'']"
    by (simp flip: replicate_append_same)
  then show ?case using Suc by (simp only: dec_val_snoc) (simp add: digit_val_def)
qed simp

text \<open>\<open>strconv.Atoi\<close>: an optional sign and decimal digits, within the range of an \<open>int\<close>.\<close>

definition Atoi :: "string \<Rightarrow> int option" where
  "Atoi s =
     (case (case s of
              [] \<Rightarrow> None
            | c # cs \<Rightarrow>
                if c = CHR ''-'' then (if cs = [] then None else map_option uminus (digits_value 0 cs))
                else if c = CHR ''+'' then (if cs = [] then None else digits_value 0 cs)
                else digits_value 0 s) of
        None \<Rightarrow> None
      | Some n \<Rightarrow> if in_i64 n then Some n else None)"

lemma Atoi_range: "Atoi s = Some n \<Longrightarrow> in_i64 n"
  by (auto simp: Atoi_def split: option.splits if_splits)

text \<open>\<open>strings.Split\<close> on one character.\<close>

fun split_char :: "char \<Rightarrow> string \<Rightarrow> string list" where
  "split_char x [] = [[]]"
| "split_char x (c # s) =
     (if c = x then [] # split_char x s
      else case split_char x s of [] \<Rightarrow> [[c]] | p # ps \<Rightarrow> (c # p) # ps)"

subsection \<open>RFC 3339 timestamps\<close>

definition day_ns :: int where "day_ns = 86400000000000"

definition date_text :: "int \<Rightarrow> string" where
  "date_text z = (case civil z of (y, m, d) \<Rightarrow> append_int 4 y @ ''-'' @ append_int 2 m @ ''-'' @ append_int 2 d)"

definition clock_text :: "int \<Rightarrow> string" where
  "clock_text sec =
     append_int 2 (sec div 3600) @ '':'' @ append_int 2 (sec div 60 mod 60) @ '':'' @ append_int 2 (sec mod 60)"

text \<open>The fraction of a second, without trailing zeros.\<close>

definition frac_text :: "int \<Rightarrow> string" where
  "frac_text ns = (if ns = 0 then [] else CHR ''.'' # rev (dropWhile (\<lambda>c. c = CHR ''0'') (rev (append_int 9 ns))))"

text \<open>\<open>t.UTC().Format(time.RFC3339)\<close> and \<open>t.UTC().Format(time.RFC3339Nano)\<close>.\<close>

definition format_rfc3339 :: "time \<Rightarrow> string" where
  "format_rfc3339 t = date_text (t div day_ns) @ ''T'' @ clock_text (t mod day_ns div 1000000000) @ ''Z''"

definition format_rfc3339nano :: "time \<Rightarrow> string" where
  "format_rfc3339nano t =
     date_text (t div day_ns) @ ''T'' @ clock_text (t mod day_ns div 1000000000)
       @ frac_text (t mod 1000000000) @ ''Z''"

fun getnum :: "bool \<Rightarrow> string \<Rightarrow> (int \<times> string) option" where
  "getnum fixed [] = None"
| "getnum fixed [a] = (if is_digit a \<and> \<not> fixed then Some (digit_val a, []) else None)"
| "getnum fixed (a # b # s) =
     (if \<not> is_digit a then None
      else if is_digit b then Some (10 * digit_val a + digit_val b, s)
      else if fixed then None else Some (digit_val a, b # s))"

definition expect :: "char \<Rightarrow> string \<Rightarrow> string option" where
  "expect c s = (case s of [] \<Rightarrow> None | x # r \<Rightarrow> if x = c then Some r else None)"

definition get_year :: "string \<Rightarrow> (int \<times> string) option" where
  "get_year s =
     (if length s < 4 \<or> \<not> list_all is_digit (take 4 s) then None else Some (dec_val (take 4 s), drop 4 s))"

definition in_range :: "int \<Rightarrow> int \<Rightarrow> int \<times> string \<Rightarrow> (int \<times> string) option" where
  "in_range lo hi p = (if lo \<le> fst p \<and> fst p \<le> hi then Some p else None)"

text \<open>An optional fraction, of which nine digits count.\<close>

definition nanoseconds :: "string \<Rightarrow> int" where
  "nanoseconds ds = (let k = take 9 ds in dec_val k * 10 ^ (9 - length k))"

definition get_frac :: "string \<Rightarrow> int \<times> string" where
  "get_frac s =
     (case s of
        c # d # r \<Rightarrow>
          if (c = CHR ''.'' \<or> c = CHR '','') \<and> is_digit d
          then (nanoseconds (takeWhile is_digit (d # r)), dropWhile is_digit (d # r)) else (0, s)
      | _ \<Rightarrow> (0, s))"

definition get_zone :: "string \<Rightarrow> (int \<times> string) option" where
  "get_zone s =
     (case s of
        [] \<Rightarrow> None
      | c # r \<Rightarrow>
        if c = CHR ''Z'' then Some (0, r)
        else if length s < 6 \<or> s ! 3 \<noteq> CHR '':'' then None
        else do {
          (hr, _) \<leftarrow> getnum True [s ! 1, s ! 2];
          (mm, _) \<leftarrow> getnum True [s ! 4, s ! 5];
          if 24 < hr \<or> 60 < mm then None
          else if c = CHR ''+'' then Some ((hr * 60 + mm) * 60, drop 6 s)
          else if c = CHR ''-'' then Some (- ((hr * 60 + mm) * 60), drop 6 s)
          else None
        })"

text \<open>
  \<open>time.Parse\<close> with either layout: a fraction is accepted after the seconds whether or not the layout
  has one.
\<close>

definition get_date :: "string \<Rightarrow> ((int \<times> int \<times> int) \<times> string) option" where
  "get_date s = do {
     (y, s) \<leftarrow> get_year s;
     s \<leftarrow> expect (CHR ''-'') s;
     (m, s) \<leftarrow> Option.bind (getnum True s) (in_range 1 12);
     s \<leftarrow> expect (CHR ''-'') s;
     (d, s) \<leftarrow> getnum True s;
     Some ((y, m, d), s)
   }"

definition get_clock :: "string \<Rightarrow> (int \<times> string) option" where
  "get_clock s = do {
     (h, s) \<leftarrow> Option.bind (getnum False s) (in_range 0 23);
     s \<leftarrow> expect (CHR '':'') s;
     (m, s) \<leftarrow> Option.bind (getnum True s) (in_range 0 59);
     s \<leftarrow> expect (CHR '':'') s;
     (c, s) \<leftarrow> Option.bind (getnum True s) (in_range 0 59);
     Some (h * 3600 + m * 60 + c, s)
   }"

definition parse_rfc3339 :: "string \<Rightarrow> time option" where
  "parse_rfc3339 s = do {
     ((y, m, d), s) \<leftarrow> get_date s;
     s \<leftarrow> expect (CHR ''T'') s;
     (sec, s) \<leftarrow> get_clock s;
     let (ns, s) = get_frac s;
     (off, s) \<leftarrow> get_zone s;
     if s \<noteq> [] \<or> d < 1 \<or> days_in m y < d then None
     else Some ((day_number y m d * 86400 + sec - off) * 1000000000 + ns)
   }"

lemma getnum_pad: "n < 100 \<Longrightarrow> getnum f (pad_dec 2 n @ r) = Some (int n, r)"
proof -
  assume n: "n < 100"
  then have q: "n div 10 < 10" by (simp add: less_mult_imp_div_less)
  then have "pad_dec 2 n = [char_of (48 + n div 10), char_of (48 + n mod 10)]"
    by (simp add: numeral_2_eq_2)
  moreover have "10 * int (n div 10) + int (n mod 10) = int n" using mult_div_mod_eq [of 10 n] by linarith
  ultimately show ?thesis using q by (simp add: is_digit_char digit_val_char)
qed

lemma getnum_append_int: "0 \<le> x \<Longrightarrow> x < 100 \<Longrightarrow> getnum f (append_int 2 x @ r) = Some (x, r)"
  using getnum_pad [of "nat x"] by (simp add: append_int_pad nat_less_iff)

lemma get_year_append_int: "0 \<le> y \<Longrightarrow> y \<le> 9999 \<Longrightarrow> get_year (append_int 4 y @ r) = Some (y, r)"
  by (simp add: append_int_pad get_year_def dec_val_pad list_all_iff pad_dec_digits nat_less_iff)

lemma get_date_text:
  assumes "civil z = (y, m, d)" "0 \<le> y" "y \<le> 9999"
  shows "get_date (date_text z @ r) = Some ((y, m, d), r)"
proof -
  note f = civil_fields [OF assms(1)]
  have "d \<le> 31" using f(4) by (auto simp: days_in_def split: if_splits)
  then show ?thesis
    using assms f(1-3)
    by (simp add: get_date_def date_text_def get_year_append_int expect_def getnum_append_int in_range_def)
qed

lemma get_clock_text:
  assumes "0 \<le> sec" "sec < 86400"
  shows "get_clock (clock_text sec @ r) = Some (sec, r)"
proof -
  define h m c where "h = sec div 3600" and "m = sec div 60 mod 60" and "c = sec mod 60"
  have "sec div 60 div 60 = sec div 3600" using zdiv_zmult2_eq [of 60 sec 60] by simp
  then have "h * 3600 + m * 60 + c = sec"
    using mult_div_mod_eq [of 60 sec] mult_div_mod_eq [of 60 "sec div 60"] unfolding h_def m_def c_def by linarith
  moreover have "0 \<le> m" "m < 60" "0 \<le> c" "c < 60" by (simp_all add: m_def c_def)
  moreover from calculation assms have "0 \<le> h" "h \<le> 23" by linarith+
  moreover have "clock_text sec = append_int 2 h @ '':'' @ append_int 2 m @ '':'' @ append_int 2 c"
    by (simp add: clock_text_def h_def m_def c_def)
  ultimately show ?thesis by (simp add: get_clock_def expect_def getnum_append_int in_range_def)
qed

lemma trim_zeros: "\<exists>k. s = rev (dropWhile (\<lambda>c. c = x) (rev s)) @ replicate k x"
proof (induction s rule: rev_induct)
  case (snoc c s)
  then obtain k where k: "s = rev (dropWhile (\<lambda>c. c = x) (rev s)) @ replicate k x" by blast
  show ?case
  proof (cases "c = x")
    case True
    define a where "a = rev (dropWhile (\<lambda>c. c = x) (rev s))"
    have "s @ [x] = a @ replicate (Suc k) x"
      unfolding a_def by (subst k) (simp flip: replicate_append_same)
    moreover have "rev (dropWhile (\<lambda>c. c = x) (rev (s @ [x]))) = a" by (simp add: a_def)
    ultimately show ?thesis unfolding True by (metis (no_types))
  next
    case False
    then show ?thesis by (intro exI [of _ 0]) simp
  qed
qed simp

lemma get_frac_text:
  assumes "0 \<le> ns" "ns < 1000000000"
  shows "get_frac (frac_text ns @ CHR ''Z'' # r) = (ns, CHR ''Z'' # r)"
proof (cases "ns = 0")
  case True
  then show ?thesis by (cases r) (simp_all add: frac_text_def get_frac_def)
next
  case False
  let ?p = "pad_dec 9 (nat ns)"
  define ds where "ds = rev (dropWhile (\<lambda>c. c = CHR ''0'') (rev ?p))"
  obtain k where k: "?p = ds @ replicate k (CHR ''0'')" using trim_zeros [of ?p "CHR ''0''"] by (auto simp: ds_def)
  have n: "nat ns < 10 ^ 9" using assms by (simp add: nat_less_iff)
  have len: "length ds + k = 9" using arg_cong [OF k, of length] by simp
  have val: "dec_val ds * 10 ^ k = ns"
    using arg_cong [OF k, of dec_val] n assms(1) by (simp add: dec_val_zeros dec_val_pad)
  with False have "ds \<noteq> []" by (auto simp: dec_val_def)
  have dig: "\<forall>c \<in> set ds. is_digit c" using k pad_dec_digits [of _ 9 "nat ns"] by (metis UnCI set_append)
  obtain e es where ds: "ds = e # es" using \<open>ds \<noteq> []\<close> by (cases ds) auto
  have z: "\<not> is_digit (CHR ''Z'')" by (simp add: is_digit_def less_eq_char_def)
  have tw: "takeWhile is_digit (ds @ CHR ''Z'' # r) = ds" "dropWhile is_digit (ds @ CHR ''Z'' # r) = CHR ''Z'' # r"
    using dig z by (simp_all add: takeWhile_append dropWhile_append)
  have "frac_text ns = CHR ''.'' # ds"
    using False assms n by (simp add: frac_text_def append_int_pad ds_def)
  moreover have "nanoseconds ds = ns" using len val by (auto simp: nanoseconds_def Let_def)
  ultimately show ?thesis using tw dig by (simp add: get_frac_def ds)
qed

definition year_of :: "time \<Rightarrow> int" where
  "year_of t = fst (civil (t div day_ns))"

lemma ns_split: "86400000000000 * q + r = t \<Longrightarrow> 1000000000 * c + n = r
    \<Longrightarrow> (q * 86400 + c) * 1000000000 + n = t" for q r t c n :: int
  by simp

lemma rfc3339_round_trip:
  assumes "0 \<le> year_of t" "year_of t \<le> 9999"
  shows "parse_rfc3339 (format_rfc3339nano t) = Some t"
proof -
  obtain y m d where c: "civil (t div day_ns) = (y, m, d)" by (metis surj_pair)
  note f = civil_fields [OF c]
  have y: "0 \<le> y" "y \<le> 9999" using assms c by (simp_all add: year_of_def)
  let ?sec = "t mod day_ns div 1000000000"
  have sec: "0 \<le> ?sec" "?sec < 86400" by (simp_all add: day_ns_def)
  have split: "(t div day_ns * 86400 + ?sec) * 1000000000 + t mod 1000000000 = t"
  proof -
    have "t mod day_ns mod 1000000000 = t mod 1000000000"
      by (rule mod_mod_cancel) (simp add: day_ns_def)
    with mult_div_mod_eq [of 1000000000 "t mod day_ns"]
    have "1000000000 * ?sec + t mod 1000000000 = t mod day_ns" by simp
    with ns_split [of "t div day_ns"] mult_div_mod_eq [of day_ns t] show ?thesis
      by (simp only: day_ns_def)
  qed
  show ?thesis
    using f(3,4,5) split
    by (simp add: parse_rfc3339_def format_rfc3339nano_def get_date_text [OF c y] expect_def
        get_clock_text [OF sec] get_frac_text get_zone_def)
qed

end
