(* ===== verification/Config.thy ===== *)
theory Config
  imports Credentials Codec Price_Estimate
begin

text \<open>
  Package \<open>config\<close>: the configuration of the process, read from its environment and validated.

  The environment is a lookup function. The standard library's parsers of durations, floats and
  booleans are modelled, overflow of the 64-bit nanosecond count included, since a duration may be as
  large as 292 years and the validation adds them. Every problem found is collected; a configuration is
  returned only when there is none. The text forms of durations and floats in the log line are
  parameters of \<open>Config_String\<close>.
\<close>

subsection \<open>time.ParseDuration\<close>

definition two63 :: int where "two63 = 9223372036854775808"

fun leadingInt :: "int \<Rightarrow> string \<Rightarrow> (int \<times> string) option" where
  "leadingInt x [] = Some (x, [])"
| "leadingInt x (c # s) =
     (if \<not> is_digit c then Some (x, c # s)
      else if two63 div 10 < x then None
      else let y = x * 10 + digit_val c in if two63 < y then None else leadingInt y s)"

text \<open>Digits beyond the range are dropped; the scale counts the ones that were kept.\<close>

fun leadingFraction :: "int \<Rightarrow> int \<Rightarrow> bool \<Rightarrow> string \<Rightarrow> int \<times> int \<times> string" where
  "leadingFraction x scale over [] = (x, scale, [])"
| "leadingFraction x scale over (c # s) =
     (if \<not> is_digit c then (x, scale, c # s)
      else if over \<or> (two63 - 1) div 10 < x \<or> two63 < x * 10 + digit_val c then leadingFraction x scale True s
      else leadingFraction (x * 10 + digit_val c) (scale * 10) False s)"

definition unitMap :: "(string \<times> int) list" where
  "unitMap = [(''ns'', 1), (''us'', 1000), (map char_of [0xC2, 0xB5, 115 :: nat], 1000),
     (map char_of [0xCE, 0xBC, 115 :: nat], 1000), (''ms'', 1000000), (''s'', 1000000000),
     (''m'', 60000000000), (''h'', 3600000000000)]"

definition float_floor :: "float64 \<Rightarrow> int" where
  "float_floor x = (case x of Fin r \<Rightarrow> \<lfloor>r\<rfloor> | _ \<Rightarrow> 0)"

definition float_mult :: "float64 \<Rightarrow> float64 \<Rightarrow> float64" where
  "float_mult x y = (case (x, y) of (Fin a, Fin b) \<Rightarrow> fround (a * b) | _ \<Rightarrow> NaN)"

definition fraction_ns :: "int \<Rightarrow> int \<Rightarrow> int \<Rightarrow> int" where
  "fraction_ns f scale unit = float_floor (float_mult (fround (of_int f)) (fround (of_int unit / of_int scale)))"

definition unit_char :: "char \<Rightarrow> bool" where
  "unit_char c \<longleftrightarrow> c \<noteq> CHR ''.'' \<and> \<not> is_digit c"

text \<open>One number with its unit: the nanoseconds it adds and the rest of the text.\<close>

definition duration_part :: "string \<Rightarrow> (int \<times> string) option" where
  "duration_part s =
     (case leadingInt 0 s of
        None \<Rightarrow> None
      | Some (v, s1) \<Rightarrow>
        (let pre = (length s1 \<noteq> length s);
             dot = (take 1 s1 = ''.'');
             (f, scale, s2) = (if dot then leadingFraction 0 1 False (drop 1 s1) else (0, 1, s1));
             post = (dot \<and> length s2 \<noteq> length (drop 1 s1));
             u = takeWhile unit_char s2;
             s3 = dropWhile unit_char s2
         in if \<not> pre \<and> \<not> post \<or> u = [] then None
            else (case map_of unitMap u of
                    None \<Rightarrow> None
                  | Some unit \<Rightarrow>
                    if two63 div unit < v then None
                    else (let w = v * unit + (if 0 < f then fraction_ns f scale unit else 0)
                          in if two63 < w then None else Some (w, s3)))))"

text \<open>The fuel is the length of the text: every part consumes its unit.\<close>

fun duration_parts :: "nat \<Rightarrow> int \<Rightarrow> string \<Rightarrow> int option" where
  "duration_parts n d [] = Some d"
| "duration_parts 0 d (c # s) = None"
| "duration_parts (Suc n) d (c # s) =
     (if c \<noteq> CHR ''.'' \<and> \<not> is_digit c then None
      else case duration_part (c # s) of
             None \<Rightarrow> None
           | Some (v, rest) \<Rightarrow>
               (let d' = (d + v) mod (2 * two63) in if two63 < d' then None else duration_parts n d' rest))"

definition ParseDuration :: "string \<Rightarrow> duration option" where
  "ParseDuration orig =
     (let neg = (take 1 orig = ''-''); s = (if neg \<or> take 1 orig = ''+'' then drop 1 orig else orig)
      in if s = ''0'' then Some 0
         else if s = [] then None
         else case duration_parts (length s) 0 s of
                None \<Rightarrow> None
              | Some d \<Rightarrow> if neg then Some (- d) else if two63 - 1 < d then None else Some d)"

subsection \<open>strconv.ParseBool and strconv.ParseFloat\<close>

definition ParseBool :: "string \<Rightarrow> bool option" where
  "ParseBool s =
     (if s \<in> {''1'', ''t'', ''T'', ''true'', ''TRUE'', ''True''} then Some True
      else if s \<in> {''0'', ''f'', ''F'', ''false'', ''FALSE'', ''False''} then Some False
      else None)"

definition is_hex_letter :: "char \<Rightarrow> bool" where
  "is_hex_letter c \<longleftrightarrow> CHR ''a'' \<le> lower_char c \<and> lower_char c \<le> CHR ''f''"

definition hex_digit :: "char \<Rightarrow> int" where
  "hex_digit c = (if is_digit c then digit_val c else int (of_char (lower_char c)) - 87)"

text \<open>An underscore stands between digits, or between the base prefix and a digit.\<close>

fun underscores_ok :: "bool \<Rightarrow> char \<Rightarrow> string \<Rightarrow> bool" where
  "underscores_ok hx i [] = (i \<noteq> CHR ''_'')"
| "underscores_ok hx i (c # s) =
     (if is_digit c \<or> hx \<and> is_hex_letter c then underscores_ok hx (CHR ''0'') s
      else if c = CHR ''_'' then i = CHR ''0'' \<and> underscores_ok hx (CHR ''_'') s
      else i \<noteq> CHR ''_'' \<and> underscores_ok hx (CHR ''!'') s)"

text \<open>The digits of a mantissa: its value, how many of them follow the point, and the rest of the text.\<close>

fun mantissa :: "bool \<Rightarrow> bool \<Rightarrow> int \<Rightarrow> nat \<Rightarrow> bool \<Rightarrow> string \<Rightarrow> int \<times> nat \<times> bool \<times> string" where
  "mantissa hx dot v k seen [] = (v, k, seen, [])"
| "mantissa hx dot v k seen (c # s) =
     (if c = CHR ''_'' then mantissa hx dot v k seen s
      else if c = CHR ''.'' then (if dot then (v, k, seen, c # s) else mantissa hx True v k seen s)
      else if is_digit c \<or> hx \<and> is_hex_letter c
        then mantissa hx dot (v * (if hx then 16 else 10) + hex_digit c) (if dot then Suc k else k) True s
      else (v, k, seen, c # s))"

definition exponent_digits :: "string \<Rightarrow> int" where
  "exponent_digits s = fold (\<lambda>c e. if c = CHR ''_'' \<or> 10000 \<le> e then e else e * 10 + digit_val c) s 0"

text \<open>The exponent behind its letter, all of the rest of the text; None when malformed.\<close>

definition exponent :: "string \<Rightarrow> int option" where
  "exponent s =
     (let neg = (take 1 s = ''-''); ds = (if neg \<or> take 1 s = ''+'' then drop 1 s else s)
      in if ds = [] \<or> \<not> is_digit (hd ds) \<or> \<not> list_all (\<lambda>c. is_digit c \<or> c = CHR ''_'') ds then None
         else Some (if neg then - exponent_digits ds else exponent_digits ds))"

definition scaled :: "int \<Rightarrow> int \<Rightarrow> int \<Rightarrow> rat" where
  "scaled v b e = (if 0 \<le> e then of_int (v * b ^ nat e) else of_int v / of_int (b ^ nat (- e)))"

definition ParseFloat :: "string \<Rightarrow> float64 option" where
  "ParseFloat orig =
     (let neg = (take 1 orig = ''-''); signed = (neg \<or> take 1 orig = ''+'');
          s = (if signed then drop 1 orig else orig)
      in if to_lower s = ''inf'' \<or> to_lower s = ''infinity'' then Some (if neg then NInf else PInf)
         else if \<not> signed \<and> to_lower s = ''nan'' then Some NaN
         else (let hx = (2 < length s \<and> to_lower (take 2 s) = ''0x''); t = (if hx then drop 2 s else s);
                   (v, k, seen, r) = mantissa hx False 0 0 False t;
                   e = (if r = [] then (if hx then None else Some 0)
                        else if lower_char (hd r) = (if hx then CHR ''p'' else CHR ''e'') then exponent (tl r)
                        else None)
               in if \<not> seen \<or> CHR ''_'' \<in> set s \<and> \<not> underscores_ok hx (if hx then CHR ''0'' else CHR ''^'') t then None
                  else (case e of
                          None \<Rightarrow> None
                        | Some x \<Rightarrow>
                          (let q = (if hx then scaled v 2 (x - 4 * int k) else scaled v 10 (x - int k))
                           in case fround (if neg then - q else q) of Fin y \<Rightarrow> Some (Fin y) | _ \<Rightarrow> None))))"

subsection \<open>Reading one variable\<close>

type_synonym Lookup = "string \<Rightarrow> string option"

datatype config_error = IsRequired string | NotDuration string | NotInteger string | NotNumber string
  | NotBoolean string | NotPositive string | OutOfRange string | KeyTooShort int | UnknownPolicy string
  | CaptureWithoutRetention | DrainBeyondProvider | TTLTooShort

type_synonym 'a reading = "'a \<times> config_error list"

definition requireString :: "Lookup \<Rightarrow> string \<Rightarrow> string reading" where
  "requireString look key =
     (let v = trim_space (case look key of None \<Rightarrow> [] | Some raw \<Rightarrow> raw)
      in (v, if v = [] then [IsRequired key] else []))"

definition optString :: "Lookup \<Rightarrow> string \<Rightarrow> string \<Rightarrow> string" where
  "optString look key dflt = (case look key of Some v \<Rightarrow> if v \<noteq> [] then v else dflt | None \<Rightarrow> dflt)"

text \<open>The pattern of the typed readers: unset or empty is the default, and so is a value that is refused.\<close>

definition read_var :: "(string \<Rightarrow> 'a option) \<Rightarrow> config_error \<Rightarrow> ('a \<Rightarrow> config_error option) \<Rightarrow> Lookup \<Rightarrow> string \<Rightarrow> 'a
    \<Rightarrow> 'a reading" where
  "read_var parse bad refuse look key dflt =
     (case look key of
        None \<Rightarrow> (dflt, [])
      | Some raw \<Rightarrow>
        if raw = [] then (dflt, [])
        else (case parse raw of
                None \<Rightarrow> (dflt, [bad])
              | Some v \<Rightarrow> (case refuse v of Some e \<Rightarrow> (dflt, [e]) | None \<Rightarrow> (v, []))))"

definition read_duration :: "Lookup \<Rightarrow> string \<Rightarrow> duration \<Rightarrow> duration reading" where
  "read_duration look key dflt =
     read_var ParseDuration (NotDuration key) (\<lambda>d. if d \<le> 0 then Some (NotPositive key) else None) look key dflt"

definition positiveInt :: "Lookup \<Rightarrow> string \<Rightarrow> int \<Rightarrow> int reading" where
  "positiveInt look key dflt =
     read_var Atoi (NotInteger key) (\<lambda>n. if n \<le> 0 then Some (NotPositive key) else None) look key dflt"

text \<open>Comparisons with NaN are false.\<close>

definition float_le :: "float64 \<Rightarrow> rat \<Rightarrow> bool" where
  "float_le x r = (case x of Fin a \<Rightarrow> a \<le> r | NInf \<Rightarrow> True | _ \<Rightarrow> False)"

definition float_gt :: "float64 \<Rightarrow> rat \<Rightarrow> bool" where
  "float_gt x r = (case x of Fin a \<Rightarrow> r < a | PInf \<Rightarrow> True | _ \<Rightarrow> False)"

definition fraction :: "Lookup \<Rightarrow> string \<Rightarrow> float64 \<Rightarrow> float64 reading" where
  "fraction look key dflt =
     read_var ParseFloat (NotNumber key) (\<lambda>v. if float_le v 0 \<or> float_gt v 1 then Some (OutOfRange key) else None)
       look key dflt"

definition boolean :: "Lookup \<Rightarrow> string \<Rightarrow> bool \<Rightarrow> bool reading" where
  "boolean look key dflt = read_var ParseBool (NotBoolean key) (\<lambda>_. None) look key dflt"

subsection \<open>The configuration\<close>

definition PolicyCancel :: string where "PolicyCancel = ''cancel''"
definition PolicyDrain :: string where "PolicyDrain = ''drain''"
definition minMasterKeyLen :: nat where "minMasterKeyLen = 32"

record Config =
  cf_DatabaseURL :: string
  cf_MasterKey :: string
  cf_ListenAddr :: string
  cf_MetricsAddr :: string
  cf_ProviderTimeout :: duration
  cf_DrainTimeout :: duration
  cf_ReservationTTL :: duration
  cf_DisconnectPolicy :: string
  cf_MaxConcurrentDrains :: int
  cf_DefaultMaxTokens :: int
  cf_TierGuard :: float64
  cf_ReaperInterval :: duration
  cf_ReadTimeout :: duration
  cf_MaxQueryWindow :: duration
  cf_ShutdownTimeout :: duration
  cf_LogPrompts :: bool
  cf_MigrateOnBoot :: bool
  cf_PromptRetention :: duration
  cf_UsageRetention :: duration
  cf_RetentionInterval :: duration
  cf_MaxBodyBytes :: int
  cf_StreamWriteTimeout :: duration
  cf_UsageBufferSize :: int
  cf_UsageBatchSize :: int
  cf_UsageFlushInterval :: duration
  cf_DrainDelay :: duration
  cf_OpenAIKey :: string
  cf_OpenAIBaseURL :: string
  cf_AnthropicKey :: string
  cf_AnthropicBaseURL :: string
  cf_GoogleKey :: string
  cf_GoogleBaseURL :: string

text \<open>
  The fields as \<open>LoadFrom\<close> reads them, before the reservation TTL has its default, and the problems of
  the individual variables.
\<close>

definition sec :: "int \<Rightarrow> duration" where "sec n = n * 1000000000"

definition read_config :: "Lookup \<Rightarrow> Config reading" where
  "read_config look =
     (let url = requireString look ''COSTLANE_DATABASE_URL'';
          master = requireString look ''COSTLANE_MASTER_KEY'';
          e3 = (if IsSet (fst master) \<and> length (fst master) < minMasterKeyLen then [KeyTooShort (int (length (fst master)))] else []);
          provider = read_duration look ''COSTLANE_PROVIDER_TIMEOUT'' (sec 300);
          drain = read_duration look ''COSTLANE_DRAIN_TIMEOUT'' (sec 60);
          ttl = read_duration look ''COSTLANE_RESERVATION_TTL'' 0;
          reaper = read_duration look ''COSTLANE_REAPER_INTERVAL'' (sec 30);
          readT = read_duration look ''COSTLANE_READ_TIMEOUT'' (sec 5);
          window = read_duration look ''COSTLANE_MAX_QUERY_WINDOW'' (sec (90 * 24 * 3600));
          shutdown = read_duration look ''COSTLANE_SHUTDOWN_TIMEOUT'' (sec 30);
          policy = optString look ''COSTLANE_DISCONNECT_POLICY'' PolicyCancel;
          e11 = (if policy \<noteq> PolicyCancel \<and> policy \<noteq> PolicyDrain then [UnknownPolicy policy] else []);
          drains = positiveInt look ''COSTLANE_MAX_CONCURRENT_DRAINS'' 64;
          guard = fraction look ''COSTLANE_TIER_GUARD'' (Fin (3 / 4));
          tokens = positiveInt look ''COSTLANE_DEFAULT_MAX_TOKENS'' 4096;
          body = positiveInt look ''COSTLANE_MAX_BODY_BYTES'' 10485760;
          streamT = read_duration look ''COSTLANE_STREAM_WRITE_TIMEOUT'' (sec 30);
          bufferN = positiveInt look ''COSTLANE_USAGE_BUFFER_SIZE'' 10000;
          batchN = positiveInt look ''COSTLANE_USAGE_BATCH_SIZE'' 500;
          flushI = read_duration look ''COSTLANE_USAGE_FLUSH_INTERVAL'' 200000000;
          delay = read_duration look ''COSTLANE_DRAIN_DELAY'' (sec 5);
          prompts = boolean look ''COSTLANE_LOG_PROMPTS'' False;
          migrate = boolean look ''COSTLANE_MIGRATE_ON_BOOT'' True;
          promptR = read_duration look ''COSTLANE_PROMPT_RETENTION'' 0;
          usageR = read_duration look ''COSTLANE_USAGE_RETENTION'' 0;
          retentionI = read_duration look ''COSTLANE_RETENTION_INTERVAL'' (sec 3600)
      in (\<lparr>cf_DatabaseURL = fst url, cf_MasterKey = fst master,
           cf_ListenAddr = optString look ''COSTLANE_LISTEN_ADDR'' '':8080'',
           cf_MetricsAddr = optString look ''COSTLANE_METRICS_ADDR'' '':9090'',
           cf_ProviderTimeout = fst provider, cf_DrainTimeout = fst drain, cf_ReservationTTL = fst ttl,
           cf_DisconnectPolicy = policy, cf_MaxConcurrentDrains = fst drains, cf_DefaultMaxTokens = fst tokens,
           cf_TierGuard = fst guard, cf_ReaperInterval = fst reaper, cf_ReadTimeout = fst readT, cf_MaxQueryWindow = fst window,
           cf_ShutdownTimeout = fst shutdown, cf_LogPrompts = fst prompts, cf_MigrateOnBoot = fst migrate,
           cf_PromptRetention = fst promptR, cf_UsageRetention = fst usageR, cf_RetentionInterval = fst retentionI,
           cf_MaxBodyBytes = fst body, cf_StreamWriteTimeout = fst streamT, cf_UsageBufferSize = fst bufferN,
           cf_UsageBatchSize = fst batchN, cf_UsageFlushInterval = fst flushI, cf_DrainDelay = fst delay,
           cf_OpenAIKey = optString look ''COSTLANE_OPENAI_API_KEY'' [],
           cf_OpenAIBaseURL = optString look ''COSTLANE_OPENAI_BASE_URL'' ''https://api.openai.com'',
           cf_AnthropicKey = optString look ''COSTLANE_ANTHROPIC_API_KEY'' [],
           cf_AnthropicBaseURL = optString look ''COSTLANE_ANTHROPIC_BASE_URL'' ''https://api.anthropic.com'',
           cf_GoogleKey = optString look ''COSTLANE_GOOGLE_API_KEY'' [],
           cf_GoogleBaseURL = optString look ''COSTLANE_GOOGLE_BASE_URL'' ''https://generativelanguage.googleapis.com''\<rparr>,
          snd url @ snd master @ e3 @ snd provider @ snd drain @ snd ttl @ snd reaper @ snd readT @ snd window @ snd shutdown @ e11 @ snd drains @ snd guard @ snd tokens @ snd body @ snd streamT @ snd bufferN @ snd batchN @ snd flushI
            @ snd delay @ snd prompts @ snd migrate @ snd promptR @ snd usageR @ snd retentionI))"

definition default_ttl :: "Config \<Rightarrow> Config" where
  "default_ttl cfg =
     (if cf_ReservationTTL cfg = 0
      then cfg\<lparr>cf_ReservationTTL := i64 (i64 (cf_ProviderTimeout cfg + cf_DrainTimeout cfg) + sec 60)\<rparr> else cfg)"

definition cross_checks :: "Config \<Rightarrow> config_error list" where
  "cross_checks cfg =
     (if cf_LogPrompts cfg \<and> cf_PromptRetention cfg \<le> 0 then [CaptureWithoutRetention] else [])
     @ (if cf_ProviderTimeout cfg < cf_DrainTimeout cfg then [DrainBeyondProvider] else [])
     @ (if cf_ReservationTTL cfg < i64 (cf_ProviderTimeout cfg + cf_DrainTimeout cfg) then [TTLTooShort] else [])"

definition LoadFrom :: "Lookup \<Rightarrow> config_error list + Config" where
  "LoadFrom look =
     (case read_config look of
        (cfg0, errs) \<Rightarrow>
          (let cfg = default_ttl cfg0; all_errs = errs @ cross_checks cfg
           in if all_errs \<noteq> [] then Inl all_errs else Inr cfg))"

definition redactURL :: "string \<Rightarrow> string" where
  "redactURL raw =
     (if raw = [] then Unset
      else case cut ''://'' raw of
             None \<Rightarrow> Redacted
           | Some (scheme, rest) \<Rightarrow>
               (case cut ''@'' rest of
                  Some (_, after) \<Rightarrow> scheme @ ''://'' @ Redacted @ ''@'' @ after
                | None \<Rightarrow> scheme @ ''://'' @ rest))"

definition bool_text :: "bool \<Rightarrow> string" where
  "bool_text b = (if b then ''true'' else ''false'')"

definition Config_String :: "(duration \<Rightarrow> string) \<Rightarrow> (float64 \<Rightarrow> string) \<Rightarrow> Config \<Rightarrow> string" where
  "Config_String dur flt c =
     ''database_url='' @ redactURL (cf_DatabaseURL c) @ '' ''
     @ ''master_key='' @ Secret_String (cf_MasterKey c) @ '' ''
     @ ''listen='' @ cf_ListenAddr c @ '' metrics='' @ cf_MetricsAddr c @ '' ''
     @ ''provider_timeout='' @ dur (cf_ProviderTimeout c) @ '' drain_timeout='' @ dur (cf_DrainTimeout c)
     @ '' reservation_ttl='' @ dur (cf_ReservationTTL c) @ '' ''
     @ ''disconnect_policy='' @ cf_DisconnectPolicy c @ '' max_concurrent_drains='' @ int_lit (cf_MaxConcurrentDrains c) @ '' ''
     @ ''default_max_tokens='' @ int_lit (cf_DefaultMaxTokens c) @ '' tier_guard='' @ flt (cf_TierGuard c) @ '' ''
     @ ''reaper_interval='' @ dur (cf_ReaperInterval c) @ '' read_timeout='' @ dur (cf_ReadTimeout c)
     @ '' max_query_window='' @ dur (cf_MaxQueryWindow c) @ '' shutdown_timeout='' @ dur (cf_ShutdownTimeout c) @ '' ''
     @ ''max_body_bytes='' @ int_lit (cf_MaxBodyBytes c) @ '' stream_write_timeout='' @ dur (cf_StreamWriteTimeout c) @ '' ''
     @ ''openai_key='' @ Secret_String (cf_OpenAIKey c) @ '' anthropic_key='' @ Secret_String (cf_AnthropicKey c)
     @ '' google_key='' @ Secret_String (cf_GoogleKey c) @ '' ''
     @ ''prompt_retention='' @ dur (cf_PromptRetention c) @ '' usage_retention='' @ dur (cf_UsageRetention c)
     @ '' retention_interval='' @ dur (cf_RetentionInterval c) @ '' ''
     @ ''log_prompts='' @ bool_text (cf_LogPrompts c) @ '' migrate_on_boot='' @ bool_text (cf_MigrateOnBoot c)"

subsection \<open>An accepted configuration is consistent\<close>

lemma read_var_Nil:
  assumes "read_var parse bad refuse look key dflt = (v, [])"
  shows "v = dflt \<or> refuse v = None \<and> (\<exists>raw. look key = Some raw \<and> parse raw = Some v)"
  using assms by (auto simp: read_var_def split: option.splits if_splits)

lemma reading_positive:
  "read_duration look key dflt = (d, []) \<Longrightarrow> d = dflt \<or> 0 < d"
  "positiveInt look key n0 = (n, []) \<Longrightarrow> n = n0 \<or> 0 < n"
  by (auto simp: read_duration_def positiveInt_def dest!: read_var_Nil split: if_splits)

lemma digit_val_nonneg: "is_digit c \<Longrightarrow> 0 \<le> digit_val c \<and> digit_val c \<le> 9"
  by (auto simp: is_digit_def digit_val_def less_eq_char_def)

lemma duration_parts_range: "0 \<le> d \<Longrightarrow> d \<le> two63 \<Longrightarrow> duration_parts n d s = Some x \<Longrightarrow> 0 \<le> x \<and> x \<le> two63"
proof (induction n d s rule: duration_parts.induct)
  case (3 n d c s)
  from "3.prems"(3) obtain v rest where
    vr: "\<not> (c \<noteq> CHR ''.'' \<and> \<not> is_digit c)" "duration_part (c # s) = Some (v, rest)"
    "\<not> two63 < (d + v) mod (2 * two63)" "duration_parts n ((d + v) mod (2 * two63)) rest = Some x"
    by (auto simp: Let_def split: if_splits option.splits)
  have "0 \<le> (d + v) mod (2 * two63)" by (simp add: two63_def)
  with "3.IH" [OF vr(1,2) refl refl] vr(3,4) show ?case by simp
qed simp_all

lemma ParseDuration_range: "ParseDuration s = Some d \<Longrightarrow> in_i64 d"
  by (auto simp: ParseDuration_def Let_def two63_def min_i64_def max_i64_def split: if_splits option.splits
      dest!: duration_parts_range [rotated 2])

lemma fraction_range:
  assumes "fraction look key dflt = (g, [])"
  shows "g = dflt \<or> g = NaN \<or> (\<exists>r. g = Fin r \<and> 0 < r \<and> r \<le> 1)"
  using read_var_Nil [OF assms [unfolded fraction_def]]
  by (cases g) (auto simp: float_le_def float_gt_def split: if_splits)

lemma requireString_Nil: "requireString look key = (v, []) \<Longrightarrow> v \<noteq> []"
  by (auto simp: requireString_def Let_def split: if_splits)

lemma read_config_fields:
  "cf_ProviderTimeout (fst (read_config look)) = fst (read_duration look ''COSTLANE_PROVIDER_TIMEOUT'' (sec 300))"
  "cf_DrainTimeout (fst (read_config look)) = fst (read_duration look ''COSTLANE_DRAIN_TIMEOUT'' (sec 60))"
  "cf_ReservationTTL (fst (read_config look)) = fst (read_duration look ''COSTLANE_RESERVATION_TTL'' 0)"
  "cf_ReaperInterval (fst (read_config look)) = fst (read_duration look ''COSTLANE_REAPER_INTERVAL'' (sec 30))"
  "cf_MaxQueryWindow (fst (read_config look)) = fst (read_duration look ''COSTLANE_MAX_QUERY_WINDOW'' (sec (90 * 24 * 3600)))"
  "cf_UsageFlushInterval (fst (read_config look)) = fst (read_duration look ''COSTLANE_USAGE_FLUSH_INTERVAL'' 200000000)"
  "cf_RetentionInterval (fst (read_config look)) = fst (read_duration look ''COSTLANE_RETENTION_INTERVAL'' (sec 3600))"
  "cf_MaxConcurrentDrains (fst (read_config look)) = fst (positiveInt look ''COSTLANE_MAX_CONCURRENT_DRAINS'' 64)"
  "cf_DefaultMaxTokens (fst (read_config look)) = fst (positiveInt look ''COSTLANE_DEFAULT_MAX_TOKENS'' 4096)"
  "cf_MaxBodyBytes (fst (read_config look)) = fst (positiveInt look ''COSTLANE_MAX_BODY_BYTES'' 10485760)"
  "cf_UsageBufferSize (fst (read_config look)) = fst (positiveInt look ''COSTLANE_USAGE_BUFFER_SIZE'' 10000)"
  "cf_UsageBatchSize (fst (read_config look)) = fst (positiveInt look ''COSTLANE_USAGE_BATCH_SIZE'' 500)"
  "cf_TierGuard (fst (read_config look)) = fst (fraction look ''COSTLANE_TIER_GUARD'' (Fin (3 / 4)))"
  "cf_MasterKey (fst (read_config look)) = fst (requireString look ''COSTLANE_MASTER_KEY'')"
  "cf_StreamWriteTimeout (fst (read_config look)) = fst (read_duration look ''COSTLANE_STREAM_WRITE_TIMEOUT'' (sec 30))"
  unfolding read_config_def Let_def fst_conv by (simp_all only: Config.select_convs)

lemma read_config_errors:
  assumes "snd (read_config look) = []"
  shows
    "snd (read_duration look ''COSTLANE_PROVIDER_TIMEOUT'' (sec 300)) = []"
    "snd (read_duration look ''COSTLANE_DRAIN_TIMEOUT'' (sec 60)) = []"
    "snd (read_duration look ''COSTLANE_RESERVATION_TTL'' 0) = []"
    "snd (read_duration look ''COSTLANE_REAPER_INTERVAL'' (sec 30)) = []"
    "snd (read_duration look ''COSTLANE_MAX_QUERY_WINDOW'' (sec (90 * 24 * 3600))) = []"
    "snd (read_duration look ''COSTLANE_USAGE_FLUSH_INTERVAL'' 200000000) = []"
    "snd (read_duration look ''COSTLANE_RETENTION_INTERVAL'' (sec 3600)) = []"
    "snd (positiveInt look ''COSTLANE_MAX_CONCURRENT_DRAINS'' 64) = []"
    "snd (positiveInt look ''COSTLANE_DEFAULT_MAX_TOKENS'' 4096) = []"
    "snd (positiveInt look ''COSTLANE_MAX_BODY_BYTES'' 10485760) = []"
    "snd (positiveInt look ''COSTLANE_USAGE_BUFFER_SIZE'' 10000) = []"
    "snd (positiveInt look ''COSTLANE_USAGE_BATCH_SIZE'' 500) = []"
    "snd (fraction look ''COSTLANE_TIER_GUARD'' (Fin (3 / 4))) = []"
    "snd (requireString look ''COSTLANE_MASTER_KEY'') = []"
    "\<not> (IsSet (fst (requireString look ''COSTLANE_MASTER_KEY''))
       \<and> length (fst (requireString look ''COSTLANE_MASTER_KEY'')) < minMasterKeyLen)"
    "cf_DisconnectPolicy (fst (read_config look)) \<in> {PolicyCancel, PolicyDrain}"
    "snd (read_duration look ''COSTLANE_STREAM_WRITE_TIMEOUT'' (sec 30)) = []"
  using assms unfolding read_config_def Let_def snd_conv append_is_Nil_conv by (simp_all split: if_splits)

lemma read_config_ok:
  assumes "fst (read_config look) = cfg" "snd (read_config look) = []"
  shows
    "read_duration look ''COSTLANE_PROVIDER_TIMEOUT'' (sec 300) = (cf_ProviderTimeout cfg, [])"
    "read_duration look ''COSTLANE_DRAIN_TIMEOUT'' (sec 60) = (cf_DrainTimeout cfg, [])"
    "read_duration look ''COSTLANE_RESERVATION_TTL'' 0 = (cf_ReservationTTL cfg, [])"
    "read_duration look ''COSTLANE_REAPER_INTERVAL'' (sec 30) = (cf_ReaperInterval cfg, [])"
    "read_duration look ''COSTLANE_MAX_QUERY_WINDOW'' (sec (90 * 24 * 3600)) = (cf_MaxQueryWindow cfg, [])"
    "read_duration look ''COSTLANE_USAGE_FLUSH_INTERVAL'' 200000000 = (cf_UsageFlushInterval cfg, [])"
    "read_duration look ''COSTLANE_RETENTION_INTERVAL'' (sec 3600) = (cf_RetentionInterval cfg, [])"
    "positiveInt look ''COSTLANE_MAX_CONCURRENT_DRAINS'' 64 = (cf_MaxConcurrentDrains cfg, [])"
    "positiveInt look ''COSTLANE_DEFAULT_MAX_TOKENS'' 4096 = (cf_DefaultMaxTokens cfg, [])"
    "positiveInt look ''COSTLANE_MAX_BODY_BYTES'' 10485760 = (cf_MaxBodyBytes cfg, [])"
    "positiveInt look ''COSTLANE_USAGE_BUFFER_SIZE'' 10000 = (cf_UsageBufferSize cfg, [])"
    "positiveInt look ''COSTLANE_USAGE_BATCH_SIZE'' 500 = (cf_UsageBatchSize cfg, [])"
    "fraction look ''COSTLANE_TIER_GUARD'' (Fin (3 / 4)) = (cf_TierGuard cfg, [])"
    "requireString look ''COSTLANE_MASTER_KEY'' = (cf_MasterKey cfg, [])"
    "read_duration look ''COSTLANE_STREAM_WRITE_TIMEOUT'' (sec 30) = (cf_StreamWriteTimeout cfg, [])"
  by (rule prod_eqI; simp only: read_config_fields [of look, unfolded assms(1)] read_config_errors [OF assms(2)]
      fst_conv snd_conv)+

lemma default_ttl_simps [simp]:
  "cf_ProviderTimeout (default_ttl c) = cf_ProviderTimeout c" "cf_DrainTimeout (default_ttl c) = cf_DrainTimeout c"
  "cf_ReaperInterval (default_ttl c) = cf_ReaperInterval c" "cf_MaxQueryWindow (default_ttl c) = cf_MaxQueryWindow c"
  "cf_UsageFlushInterval (default_ttl c) = cf_UsageFlushInterval c"
  "cf_MaxConcurrentDrains (default_ttl c) = cf_MaxConcurrentDrains c"
  "cf_DefaultMaxTokens (default_ttl c) = cf_DefaultMaxTokens c" "cf_MaxBodyBytes (default_ttl c) = cf_MaxBodyBytes c"
  "cf_UsageBufferSize (default_ttl c) = cf_UsageBufferSize c" "cf_UsageBatchSize (default_ttl c) = cf_UsageBatchSize c"
  "cf_TierGuard (default_ttl c) = cf_TierGuard c" "cf_MasterKey (default_ttl c) = cf_MasterKey c"
  "cf_DisconnectPolicy (default_ttl c) = cf_DisconnectPolicy c" "cf_LogPrompts (default_ttl c) = cf_LogPrompts c"
  "cf_PromptRetention (default_ttl c) = cf_PromptRetention c"
  "cf_StreamWriteTimeout (default_ttl c) = cf_StreamWriteTimeout c"
  by (simp_all add: default_ttl_def)

lemma LoadFrom_consistent:
  assumes "LoadFrom look = Inr cfg" "cf_ProviderTimeout cfg + cf_DrainTimeout cfg + sec 60 \<le> max_i64"
  shows "cf_DrainTimeout cfg \<le> cf_ProviderTimeout cfg
    \<and> cf_ProviderTimeout cfg + cf_DrainTimeout cfg \<le> cf_ReservationTTL cfg
    \<and> list_all (\<lambda>n. 0 < n) [cf_DrainTimeout cfg, cf_ReaperInterval cfg, cf_MaxQueryWindow cfg,
         cf_UsageFlushInterval cfg, cf_MaxConcurrentDrains cfg, cf_DefaultMaxTokens cfg, cf_MaxBodyBytes cfg,
         cf_UsageBufferSize cfg, cf_UsageBatchSize cfg, cf_StreamWriteTimeout cfg]
    \<and> 32 \<le> length (cf_MasterKey cfg) \<and> cf_DisconnectPolicy cfg \<in> {''cancel'', ''drain''}
    \<and> (cf_LogPrompts cfg \<longrightarrow> 0 < cf_PromptRetention cfg)
    \<and> (cf_TierGuard cfg = NaN \<or> (\<exists>g. cf_TierGuard cfg = Fin g \<and> 0 < g \<and> g \<le> 1))"
proof -
  obtain cfg0 where read: "read_config look = (cfg0, [])" and cfg: "cfg = default_ttl cfg0"
    and checks: "cross_checks cfg = []"
    using assms(1) by (auto simp: LoadFrom_def Let_def split: prod.splits if_splits)
  from read have "fst (read_config look) = cfg0" "snd (read_config look) = []" by simp_all
  note ok = read_config_ok [OF this]
  have t: "minMasterKeyLen \<le> length (cf_MasterKey cfg0)" "cf_DisconnectPolicy cfg0 \<in> {PolicyCancel, PolicyDrain}"
    using read_config_errors(15,16) [of look] requireString_Nil [OF ok(14)] ok(14) read by (auto simp: IsSet_def)
  have pos: "0 < cf_ProviderTimeout cfg" "0 < cf_DrainTimeout cfg" "0 < cf_ReaperInterval cfg"
    "0 < cf_MaxQueryWindow cfg" "0 < cf_UsageFlushInterval cfg" "0 < cf_StreamWriteTimeout cfg"
    using reading_positive(1) [OF ok(1)] reading_positive(1) [OF ok(2)] reading_positive(1) [OF ok(4)]
      reading_positive(1) [OF ok(5)] reading_positive(1) [OF ok(6)] reading_positive(1) [OF ok(15)] by (auto simp: cfg sec_def)
  have num: "0 < cf_MaxConcurrentDrains cfg" "0 < cf_DefaultMaxTokens cfg" "0 < cf_MaxBodyBytes cfg"
    "0 < cf_UsageBufferSize cfg" "0 < cf_UsageBatchSize cfg"
    using ok(8-12) [THEN reading_positive(2)] by (auto simp: cfg)
  have id: "i64 (cf_ProviderTimeout cfg + cf_DrainTimeout cfg) = cf_ProviderTimeout cfg + cf_DrainTimeout cfg"
    using assms(2) pos by (intro i64_id) (auto simp: sec_def max_i64_def min_i64_def)
  have guard: "cf_TierGuard cfg = NaN \<or> (\<exists>g. cf_TierGuard cfg = Fin g \<and> 0 < g \<and> g \<le> 1)"
    using fraction_range [OF ok(13)] by (auto simp: cfg)
  from checks have "cf_LogPrompts cfg \<longrightarrow> 0 < cf_PromptRetention cfg"
    "cf_DrainTimeout cfg \<le> cf_ProviderTimeout cfg"
    "cf_ProviderTimeout cfg + cf_DrainTimeout cfg \<le> cf_ReservationTTL cfg"
    by (auto simp: cross_checks_def id split: if_splits)
  then show ?thesis
    using pos num guard t by (simp add: cfg minMasterKeyLen_def PolicyCancel_def PolicyDrain_def)
qed

text \<open>
  C35. An accepted configuration is consistent. As long as the provider and drain timeouts and the margin do
  not overflow 64 bits of nanoseconds, a configuration \<open>LoadFrom\<close> returns has a reservation TTL that covers the
  provider timeout and the drain that follows it, a drain no longer than the provider timeout, positive
  intervals and sizes, a master key of at least 32 bytes, one of the two disconnect policies, a
  retention whenever prompts are captured, and a tier guard in (0, 1] or NaN.
\<close>

theorem accepted_config_consistent:
  assumes "LoadFrom look = Inr cfg" "cf_ProviderTimeout cfg + cf_DrainTimeout cfg + sec 60 \<le> max_i64"
  shows "cf_DrainTimeout cfg \<le> cf_ProviderTimeout cfg
    \<and> cf_ProviderTimeout cfg + cf_DrainTimeout cfg \<le> cf_ReservationTTL cfg
    \<and> list_all (\<lambda>n. 0 < n) [cf_DrainTimeout cfg, cf_ReaperInterval cfg, cf_MaxQueryWindow cfg,
         cf_UsageFlushInterval cfg, cf_MaxConcurrentDrains cfg, cf_DefaultMaxTokens cfg, cf_MaxBodyBytes cfg,
         cf_UsageBufferSize cfg, cf_UsageBatchSize cfg, cf_StreamWriteTimeout cfg]
    \<and> 32 \<le> length (cf_MasterKey cfg) \<and> cf_DisconnectPolicy cfg \<in> {''cancel'', ''drain''}
    \<and> (cf_LogPrompts cfg \<longrightarrow> 0 < cf_PromptRetention cfg)
    \<and> (cf_TierGuard cfg = NaN \<or> (\<exists>g. cf_TierGuard cfg = Fin g \<and> 0 < g \<and> g \<le> 1))"
  using assms by (rule LoadFrom_consistent)

definition sample_env_of :: "(string \<times> string) list \<Rightarrow> Lookup" where
  "sample_env_of extra = map_of (extra @ [(''COSTLANE_DATABASE_URL'', ''postgres://u:p@h/d''),
     (''COSTLANE_MASTER_KEY'', ''0123456789abcdef0123456789abcdef'')])"

lemma sample_env_required:
  "''COSTLANE_DATABASE_URL'' \<notin> fst ` set extra \<Longrightarrow>
     requireString (sample_env_of extra) ''COSTLANE_DATABASE_URL'' = (''postgres://u:p@h/d'', [])"
  "''COSTLANE_MASTER_KEY'' \<notin> fst ` set extra \<Longrightarrow>
     requireString (sample_env_of extra) ''COSTLANE_MASTER_KEY'' = (''0123456789abcdef0123456789abcdef'', [])"
proof -
  have t: "trim_space ''postgres://u:p@h/d'' = ''postgres://u:p@h/d''"
    "trim_space ''0123456789abcdef0123456789abcdef'' = ''0123456789abcdef0123456789abcdef''"
    by (rule trim_space_plain; simp add: plain_char_def)+
  have a: "map_of (extra @ ys) k = map_of ys k" if "k \<notin> fst ` set extra" for k and ys :: "(string \<times> string) list"
    using that by (simp add: map_add_def map_of_eq_None_iff [THEN iffD2])
  note [simp del] = map_of_append
  show "''COSTLANE_DATABASE_URL'' \<notin> fst ` set extra \<Longrightarrow>
     requireString (sample_env_of extra) ''COSTLANE_DATABASE_URL'' = (''postgres://u:p@h/d'', [])"
    by (simp add: requireString_def sample_env_of_def a t)
  show "''COSTLANE_MASTER_KEY'' \<notin> fst ` set extra \<Longrightarrow>
     requireString (sample_env_of extra) ''COSTLANE_MASTER_KEY'' = (''0123456789abcdef0123456789abcdef'', [])"
    by (simp add: requireString_def sample_env_of_def a t)
qed

lemma sample_env_None: "k \<notin> fst ` set extra \<Longrightarrow> k \<notin> {''COSTLANE_DATABASE_URL'', ''COSTLANE_MASTER_KEY''}
    \<Longrightarrow> sample_env_of extra k = None"
  by (simp add: sample_env_of_def map_add_def map_of_eq_None_iff [THEN iffD2])

lemmas LoadFrom_eval = LoadFrom_def read_config_def sample_env_required sample_env_None Let_def read_duration_def
  positiveInt_def fraction_def boolean_def read_var_def optString_def IsSet_def minMasterKeyLen_def default_ttl_def
  cross_checks_def sec_def i64_def

lemma sample_LoadFrom: "\<exists>cfg. LoadFrom (sample_env_of []) = Inr cfg \<and> cf_ProviderTimeout cfg = sec 300
    \<and> cf_DrainTimeout cfg = sec 60 \<and> cf_ReservationTTL cfg = sec 420"
  by (simp add: LoadFrom_eval)

theorem accepted_config_consistent_witness:
  "\<exists>cfg. LoadFrom (sample_env_of []) = Inr cfg \<and> cf_ProviderTimeout cfg + cf_DrainTimeout cfg \<le> cf_ReservationTTL cfg
     \<and> 0 < cf_MaxConcurrentDrains cfg \<and> 32 \<le> length (cf_MasterKey cfg)"
proof -
  obtain cfg where cfg: "LoadFrom (sample_env_of []) = Inr cfg" "cf_ProviderTimeout cfg = sec 300" "cf_DrainTimeout cfg = sec 60"
    using sample_LoadFrom by blast
  have "cf_ProviderTimeout cfg + cf_DrainTimeout cfg + sec 60 \<le> max_i64"
    by (simp add: cfg sec_def max_i64_def)
  from accepted_config_consistent [OF cfg(1) this] cfg(1) show ?thesis by auto
qed

subsection \<open>What the validation lets through\<close>

text \<open>
  NaN compares false with both bounds, so it is accepted as a tier guard; two timeouts whose sum
  overflows are accepted with a reservation TTL that has already elapsed; and a password that contains
  an at sign is only redacted up to it.
\<close>

lemma nan_guard_accepted:
  "\<exists>cfg. LoadFrom (sample_env_of [(''COSTLANE_TIER_GUARD'', ''NaN'')]) = Inr cfg \<and> cf_TierGuard cfg = NaN"
proof -
  let ?env = "sample_env_of [(''COSTLANE_TIER_GUARD'', ''NaN'')]"
  have "?env ''COSTLANE_TIER_GUARD'' = Some ''NaN''" by (simp add: sample_env_of_def)
  moreover have "ParseFloat ''NaN'' = Some NaN" by code_simp
  ultimately have f: "fraction ?env ''COSTLANE_TIER_GUARD'' d = (NaN, [])" for d
    by (simp add: fraction_def read_var_def float_le_def float_gt_def)
  show ?thesis
    by (simp add: LoadFrom_def read_config_def sample_env_required sample_env_None Let_def read_duration_def f
  positiveInt_def boolean_def read_var_def optString_def IsSet_def minMasterKeyLen_def default_ttl_def
  cross_checks_def sec_def i64_def)
qed

lemma overflowing_ttl_accepted:
  "\<exists>cfg. LoadFrom (sample_env_of [(''COSTLANE_PROVIDER_TIMEOUT'', ''2000000h''), (''COSTLANE_DRAIN_TIMEOUT'', ''2000000h'')])
      = Inr cfg \<and> cf_ReservationTTL cfg < 0"
proof -
  let ?env = "sample_env_of [(''COSTLANE_PROVIDER_TIMEOUT'', ''2000000h''), (''COSTLANE_DRAIN_TIMEOUT'', ''2000000h'')]"
  have v: "?env ''COSTLANE_PROVIDER_TIMEOUT'' = Some ''2000000h''" "?env ''COSTLANE_DRAIN_TIMEOUT'' = Some ''2000000h''"
    by (simp_all add: sample_env_of_def)
  have p: "ParseDuration ''2000000h'' = Some 7200000000000000000" by code_simp
  show ?thesis
    by (simp add: LoadFrom_eval v p)
qed

lemma redaction_stops_at_first_at:
  "redactURL ''postgres://u:p@ss@h/d'' = ''postgres://[redacted]@ss@h/d''"
  by code_simp

end
