(* ===== verification/Retention.thy ===== *)
theory Retention
  imports Budget_Store Config
begin

text \<open>
  The rest of \<open>store/usage.go\<close>: retention of usage records and captured prompts, and the dated insert.

  The payload table stands beside the database of theory \<open>Store\<close>: only the operations here touch it, and
  deleting a usage record cascades to its payload. Which rows a \<open>LIMIT\<close> without an order picks is the
  database's choice, an argument \<open>limited\<close> of which only the meaning of \<open>LIMIT\<close> is assumed. The type of
  a \<open>jsonb\<close> value and the function that reads one are arguments as well.

  The lemmas show that one pass removes nothing but expired rows, at most a batch of each kind and as
  many as the batch allows, never touches the ledger, and never leaves a payload without its record.
\<close>

subsection \<open>Tables\<close>

record 'j Payload =
  py_usage_record_id :: uuid
  py_request_body :: "'j option"
  py_response_body :: "'j option"
  py_created_at :: time

record 'j Tables =
  tb_db :: DB
  request_payloads :: "'j Payload list"

subsection \<open>Writing\<close>

definition nullIfNoBytes :: "string \<Rightarrow> string option" where
  "nullIfNoBytes b = (if b = [] then None else Some b)"

text \<open>A \<open>jsonb\<close> column from an argument: NULL, a value, or the error of a text that is not JSON.\<close>

definition jsonb_column :: "(string \<Rightarrow> 'j option) \<Rightarrow> string option \<Rightarrow> 'j option option" where
  "jsonb_column jsonb arg = (case arg of None \<Rightarrow> Some None | Some t \<Rightarrow> map_option Some (jsonb t))"

definition WritePayload :: "(string \<Rightarrow> 'j option) \<Rightarrow> string option \<Rightarrow> time \<Rightarrow> uuid \<Rightarrow> string \<Rightarrow> string \<Rightarrow> 'j Tables
    \<Rightarrow> (store_error + unit) \<times> 'j Tables" where
  "WritePayload jsonb fault now i request response tb =
     (case fault of Some e \<Rightarrow> (Inl (Driver e), tb) | None \<Rightarrow>
     (case jsonb_column jsonb (nullIfNoBytes request) of None \<Rightarrow> (Inl (Driver ''22P02''), tb) | Some a \<Rightarrow>
     (case jsonb_column jsonb (nullIfNoBytes response) of None \<Rightarrow> (Inl (Driver ''22P02''), tb) | Some b \<Rightarrow>
      if list_ex (\<lambda>p. py_usage_record_id p = i) (request_payloads tb) then (Inr (), tb)
      else if \<not> list_ex (\<lambda>u. ur_id u = i) (usage_records (tb_db tb))
        then (Inl (ForeignKeyViolation ''request_payloads_usage_record_id_fkey''), tb)
      else (Inr (), tb\<lparr>request_payloads := request_payloads tb @ [\<lparr>py_usage_record_id = i, py_request_body = a,
             py_response_body = b, py_created_at = now\<rparr>]\<rparr>))))"

text \<open>A record with the time it was made; None is the zero time.\<close>

definition WriteBatchAt :: "string option \<Rightarrow> time \<Rightarrow> (Record \<times> time option) list \<Rightarrow> DB \<Rightarrow> unit stored" where
  "WriteBatchAt fault now rs db =
     (if rs = [] then (Inr (), db)
      else (case fault of Some e \<Rightarrow> (Inl (Driver e), db) | None \<Rightarrow>
           (case insertAll (map (\<lambda>(r, t). usageRow (case t of None \<Rightarrow> now | Some x \<Rightarrow> x) r) rs) db of
              Inl e \<Rightarrow> (Inl e, db)
            | Inr db' \<Rightarrow> (Inr (), db'))))"

subsection \<open>Retention\<close>

record RetentionPolicy =
  rp_UsageRecords :: duration
  rp_RequestPayloads :: duration
  rp_BatchSize :: int

record RetentionResult =
  rt_UsageRecords :: nat
  rt_RequestPayloads :: nat

text \<open>\<open>Duration.Seconds\<close>, and the interval of whole seconds that is sent, in nanoseconds.\<close>

definition float_add :: "float64 \<Rightarrow> float64 \<Rightarrow> float64" where
  "float_add x y =
     (case (x, y) of
        (Fin a, Fin b) \<Rightarrow> fround (a + b)
      | (Fin _, _) \<Rightarrow> y
      | (_, Fin _) \<Rightarrow> x
      | _ \<Rightarrow> if x = y then x else NaN)"

definition Seconds :: "duration \<Rightarrow> float64" where
  "Seconds d = float_add (fround (of_int (sgn d * (\<bar>d\<bar> div 1000000000))))
     (fround (of_int (sgn d * (\<bar>d\<bar> mod 1000000000)) / 1000000000))"

definition float_trunc :: "float64 \<Rightarrow> int" where
  "float_trunc x = (case x of Fin r \<Rightarrow> if 0 \<le> r then \<lfloor>r\<rfloor> else \<lceil>r\<rceil> | _ \<Rightarrow> min_i64)"

definition intervalOf :: "duration \<Rightarrow> duration" where
  "intervalOf d = sec (float_trunc (Seconds d))"

definition batch_of :: "RetentionPolicy \<Rightarrow> nat" where
  "batch_of policy = nat (if rp_BatchSize policy \<le> 0 then 10000 else rp_BatchSize policy)"

definition expired_payload :: "time \<Rightarrow> RetentionPolicy \<Rightarrow> 'j Payload \<Rightarrow> bool" where
  "expired_payload now policy p \<longleftrightarrow> py_created_at p < now - intervalOf (rp_RequestPayloads policy)"

definition expired_record :: "time \<Rightarrow> RetentionPolicy \<Rightarrow> usage_record \<Rightarrow> bool" where
  "expired_record now policy u \<longleftrightarrow> ur_created_at u < now - intervalOf (rp_UsageRecords policy)"

definition prunePayloads :: "(nat \<Rightarrow> uuid list \<Rightarrow> uuid list) \<Rightarrow> time \<Rightarrow> RetentionPolicy \<Rightarrow> 'j Tables \<Rightarrow> nat \<times> 'j Tables" where
  "prunePayloads limited now policy tb =
     (let ids = limited (batch_of policy) (map py_usage_record_id (filter (expired_payload now policy) (request_payloads tb)));
          gone = (\<lambda>p. py_usage_record_id p \<in> set ids)
      in (length (filter gone (request_payloads tb)),
          tb\<lparr>request_payloads := filter (\<lambda>p. \<not> gone p) (request_payloads tb)\<rparr>))"

definition pruneRecords :: "(nat \<Rightarrow> uuid list \<Rightarrow> uuid list) \<Rightarrow> time \<Rightarrow> RetentionPolicy \<Rightarrow> 'j Tables \<Rightarrow> nat \<times> 'j Tables" where
  "pruneRecords limited now policy tb =
     (let us = usage_records (tb_db tb);
          ids = limited (batch_of policy) (map ur_id (filter (expired_record now policy) us))
      in (length (filter (\<lambda>u. ur_id u \<in> set ids) us),
          \<lparr>tb_db = (tb_db tb)\<lparr>usage_records := filter (\<lambda>u. ur_id u \<notin> set ids) us\<rparr>,
           request_payloads = filter (\<lambda>p. py_usage_record_id p \<notin> set ids) (request_payloads tb)\<rparr>))"

definition ApplyRetention :: "(nat \<Rightarrow> uuid list \<Rightarrow> uuid list) \<Rightarrow> (nat \<Rightarrow> string option) \<Rightarrow> (nat \<Rightarrow> time) \<Rightarrow> RetentionPolicy
    \<Rightarrow> 'j Tables \<Rightarrow> (store_error option \<times> RetentionResult) \<times> 'j Tables" where
  "ApplyRetention limited fault now policy tb =
     (let zero = \<lparr>rt_UsageRecords = 0, rt_RequestPayloads = 0\<rparr>;
          on1 = (0 < rp_RequestPayloads policy);
          on2 = (0 < rp_UsageRecords policy)
      in case (if on1 then fault 0 else None) of
           Some e \<Rightarrow> ((Some (Driver e), zero), tb)
         | None \<Rightarrow>
           (let (n1, tb1) = (if on1 then prunePayloads limited (now 0) policy tb else (0, tb));
                res1 = zero\<lparr>rt_RequestPayloads := n1\<rparr>
            in case (if on2 then fault 1 else None) of
                 Some e \<Rightarrow> ((Some (Driver e), res1), tb1)
               | None \<Rightarrow>
                 (let (n2, tb2) = (if on2 then pruneRecords limited (now 1) policy tb1 else (0, tb1))
                  in ((None, res1\<lparr>rt_UsageRecords := n2\<rparr>), tb2))))"

subsection \<open>What a pass removes\<close>

text \<open>A retention of whole seconds is sent exactly.\<close>

lemma intervalOf_whole:
  assumes "0 \<le> n" "n < 2 ^ 53"
  shows "intervalOf (sec n) = sec n"
proof -
  have "fround (of_int n) = Fin (of_int n)" using fround_exact [of n 0] assms by simp
  moreover have "sgn (sec n) * (\<bar>sec n\<bar> div 1000000000) = n" "\<bar>sec n\<bar> mod 1000000000 = 0"
    using assms by (auto simp: sec_def sgn_if zero_less_mult_iff)
  ultimately show ?thesis
    using assms by (simp add: intervalOf_def Seconds_def float_add_def float_trunc_def fround_def [of 0])
qed

text \<open>What \<open>LIMIT\<close> promises of the rows it picks, and the constraints of the payload table.\<close>

definition row_limit :: "(nat \<Rightarrow> uuid list \<Rightarrow> uuid list) \<Rightarrow> bool" where
  "row_limit limited \<longleftrightarrow> (\<forall>n ids. distinct ids \<longrightarrow>
     distinct (limited n ids) \<and> set (limited n ids) \<subseteq> set ids \<and> length (limited n ids) = min n (length ids))"

definition tables_ok :: "'j Tables \<Rightarrow> bool" where
  "tables_ok tb \<longleftrightarrow> distinct (map ur_id (usage_records (tb_db tb))) \<and> distinct (map py_usage_record_id (request_payloads tb))
     \<and> py_usage_record_id ` set (request_payloads tb) \<subseteq> ur_id ` set (usage_records (tb_db tb))"

lemma row_limit_take: "row_limit take"
  by (auto simp: row_limit_def dest: in_set_takeD)

lemma chosen_rows:
  assumes "row_limit limited" "distinct (map f xs)"
  shows "length (filter (\<lambda>x. f x \<in> set (limited n (map f (filter P xs)))) xs) = min n (length (filter P xs))"
    and "x \<in> set xs \<Longrightarrow> f x \<in> set (limited n (map f (filter P xs))) \<Longrightarrow> P x"
proof -
  let ?ids = "limited n (map f (filter P xs))"
  have "distinct (map f (filter P xs))" using assms(2) by (simp add: distinct_map_filter)
  with assms(1) have c: "distinct ?ids" "set ?ids \<subseteq> f ` set (filter P xs)" "length ?ids = min n (length (filter P xs))"
    unfolding row_limit_def by (metis list.set_map, metis list.set_map, metis length_map)
  have inj: "inj_on f (set xs)" and dx: "distinct xs" using assms(2) by (simp_all add: distinct_map)
  have "map f (filter (\<lambda>x. f x \<in> set ?ids) xs) = filter (\<lambda>i. i \<in> set ?ids) (map f xs)" by (simp add: filter_map o_def)
  moreover have "set (filter (\<lambda>i. i \<in> set ?ids) (map f xs)) = set ?ids" using c(2) by auto
  moreover have "distinct (filter (\<lambda>i. i \<in> set ?ids) (map f xs))" using assms(2) by simp
  ultimately have "length (map f (filter (\<lambda>x. f x \<in> set ?ids) xs)) = length ?ids"
    using c(1) by (metis distinct_card)
  then show "length (filter (\<lambda>x. f x \<in> set ?ids) xs) = min n (length (filter P xs))" using c(3) by simp
  show "P x" if "x \<in> set xs" "f x \<in> set ?ids"
    using that c(2) inj by (auto dest: inj_onD)
qed

lemma prunePayloads_ok:
  assumes "row_limit limited" "tables_ok tb" "prunePayloads limited now policy tb = (n, tb')"
  shows "n = min (batch_of policy) (length (filter (expired_payload now policy) (request_payloads tb)))"
    and "tb_db tb' = tb_db tb" and "tables_ok tb'"
    and "\<And>p. p \<in> set (request_payloads tb) \<Longrightarrow> p \<notin> set (request_payloads tb') \<Longrightarrow> expired_payload now policy p"
    and "set (request_payloads tb') \<subseteq> set (request_payloads tb)"
proof -
  define ids where "ids = limited (batch_of policy) (map py_usage_record_id (filter (expired_payload now policy) (request_payloads tb)))"
  have n: "n = length (filter (\<lambda>p. py_usage_record_id p \<in> set ids) (request_payloads tb))"
    and tb': "tb' = tb\<lparr>request_payloads := filter (\<lambda>p. py_usage_record_id p \<notin> set ids) (request_payloads tb)\<rparr>"
    using assms(3) by (simp_all add: prunePayloads_def Let_def ids_def)
  have d: "distinct (map py_usage_record_id (request_payloads tb))" using assms(2) by (simp add: tables_ok_def)
  note rows = chosen_rows [OF assms(1) d, where n = "batch_of policy" and P = "expired_payload now policy", folded ids_def]
  show "n = min (batch_of policy) (length (filter (expired_payload now policy) (request_payloads tb)))"
    using rows(1) n by simp
  show "tb_db tb' = tb_db tb" "set (request_payloads tb') \<subseteq> set (request_payloads tb)" by (auto simp: tb')
  show "tables_ok tb'" using assms(2) by (auto simp: tables_ok_def tb' distinct_map_filter)
  show "expired_payload now policy p" if "p \<in> set (request_payloads tb)" "p \<notin> set (request_payloads tb')" for p
    using that rows(2) by (simp add: tb')
qed

lemma pruneRecords_ok:
  assumes "row_limit limited" "tables_ok tb" "pruneRecords limited now policy tb = (n, tb')"
  shows "n = min (batch_of policy) (length (filter (expired_record now policy) (usage_records (tb_db tb))))"
    and "\<exists>us. tb_db tb' = (tb_db tb)\<lparr>usage_records := us\<rparr>" and "tables_ok tb'"
    and "\<And>u. u \<in> set (usage_records (tb_db tb)) \<Longrightarrow> u \<notin> set (usage_records (tb_db tb')) \<Longrightarrow> expired_record now policy u"
    and "\<And>p. p \<in> set (request_payloads tb) \<Longrightarrow> p \<notin> set (request_payloads tb') \<Longrightarrow>
           \<exists>u. u \<in> set (usage_records (tb_db tb)) \<and> u \<notin> set (usage_records (tb_db tb')) \<and> ur_id u = py_usage_record_id p"
proof -
  let ?us = "usage_records (tb_db tb)"
  define ids where "ids = limited (batch_of policy) (map ur_id (filter (expired_record now policy) ?us))"
  have n: "n = length (filter (\<lambda>u. ur_id u \<in> set ids) ?us)"
    and tb': "tb' = \<lparr>tb_db = (tb_db tb)\<lparr>usage_records := filter (\<lambda>u. ur_id u \<notin> set ids) ?us\<rparr>,
      request_payloads = filter (\<lambda>p. py_usage_record_id p \<notin> set ids) (request_payloads tb)\<rparr>"
    using assms(3) by (simp_all add: pruneRecords_def Let_def ids_def)
  have d: "distinct (map ur_id ?us)" and fk: "py_usage_record_id ` set (request_payloads tb) \<subseteq> ur_id ` set ?us"
    using assms(2) by (simp_all add: tables_ok_def)
  note rows = chosen_rows [OF assms(1) d, where n = "batch_of policy" and P = "expired_record now policy", folded ids_def]
  show "n = min (batch_of policy) (length (filter (expired_record now policy) ?us))" using rows(1) n by simp
  show "\<exists>us. tb_db tb' = (tb_db tb)\<lparr>usage_records := us\<rparr>" by (auto simp: tb')
  show "tables_ok tb'" using assms(2) by (auto simp: tables_ok_def tb' distinct_map_filter)
  show "expired_record now policy u" if "u \<in> set ?us" "u \<notin> set (usage_records (tb_db tb'))" for u
    using that rows(2) by (simp add: tb')
  show "\<exists>u. u \<in> set ?us \<and> u \<notin> set (usage_records (tb_db tb')) \<and> ur_id u = py_usage_record_id p"
    if p: "p \<in> set (request_payloads tb)" "p \<notin> set (request_payloads tb')" for p
  proof -
    have "py_usage_record_id p \<in> ur_id ` set ?us" using fk p(1) by (rule subsetD [OF _ imageI])
    then obtain u where u: "u \<in> set ?us" "ur_id u = py_usage_record_id p" by (elim imageE) simp
    with p show ?thesis by (intro exI [of _ u]) (simp add: tb')
  qed
qed

lemma ApplyRetention_parts:
  assumes "ApplyRetention limited fault now policy tb = ((err, out), tb')"
  obtains n1 n2 tb1 where
    "if 0 < rp_RequestPayloads policy \<and> fault 0 = None then prunePayloads limited (now 0) policy tb = (n1, tb1) else n1 = 0 \<and> tb1 = tb"
    "if 0 < rp_UsageRecords policy \<and> err = None then pruneRecords limited (now 1) policy tb1 = (n2, tb') else n2 = 0 \<and> tb' = tb1"
    "out = \<lparr>rt_UsageRecords = n2, rt_RequestPayloads = n1\<rparr>"
    "(\<forall>k. fault k = None) \<longrightarrow> err = None"
proof -
  let ?one = "0 < rp_RequestPayloads policy \<and> fault 0 = None"
  obtain n1 tb1 where 1: "if ?one then prunePayloads limited (now 0) policy tb = (n1, tb1) else n1 = 0 \<and> tb1 = tb"
    by (cases ?one; cases "prunePayloads limited (now 0) policy tb") auto
  let ?two = "0 < rp_UsageRecords policy \<and> err = None"
  obtain n2 tb2 where 2: "if ?two then pruneRecords limited (now 1) policy tb1 = (n2, tb2) else n2 = 0 \<and> tb2 = tb1"
    by (cases ?two; cases "pruneRecords limited (now 1) policy tb1") auto
  note def = assms [unfolded ApplyRetention_def Let_def]
  have r: "tb2 = tb' \<and> out = \<lparr>rt_UsageRecords = n2, rt_RequestPayloads = n1\<rparr> \<and> ((\<forall>k. fault k = None) \<longrightarrow> err = None)"
  proof (cases "0 < rp_RequestPayloads policy \<and> fault 0 \<noteq> None")
    case True
    then show ?thesis using def 1 2 by auto
  next
    case False
    then have "(if 0 < rp_RequestPayloads policy then prunePayloads limited (now 0) policy tb else (0, tb)) = (n1, tb1)"
      "(if 0 < rp_RequestPayloads policy then fault 0 else None) = None" using 1 by (auto split: if_splits)
    then show ?thesis using def 2 by (auto split: option.splits if_splits prod.splits)
  qed
  show ?thesis by (rule that [OF 1 2 [unfolded conjunct1 [OF r]]]) (use r in simp_all)
qed

lemma ApplyRetention_keeps:
  assumes "row_limit limited" "tables_ok tb" "ApplyRetention limited fault now policy tb = ((err, out), tb')"
  shows "tables_ok tb'" "\<exists>us. tb_db tb' = (tb_db tb)\<lparr>usage_records := us\<rparr>"
proof -
  obtain n1 n2 tb1 where
    one: "if 0 < rp_RequestPayloads policy \<and> fault 0 = None then prunePayloads limited (now 0) policy tb = (n1, tb1) else n1 = 0 \<and> tb1 = tb"
    and two: "if 0 < rp_UsageRecords policy \<and> err = None then pruneRecords limited (now 1) policy tb1 = (n2, tb') else n2 = 0 \<and> tb' = tb1"
    by (rule ApplyRetention_parts [OF assms(3)])
  have same: "\<exists>us. tb_db tb = (tb_db tb)\<lparr>usage_records := us\<rparr>" by (rule exI [of _ "usage_records (tb_db tb)"]) simp
  have 1: "tables_ok tb1" "tb_db tb1 = tb_db tb"
    using one prunePayloads_ok(2,3) [OF assms(1,2)] assms(2) by (auto split: if_splits)
  show "tables_ok tb'"
    using two pruneRecords_ok(3) [OF assms(1) 1(1)] 1(1) by (auto split: if_splits)
  show "\<exists>us. tb_db tb' = (tb_db tb)\<lparr>usage_records := us\<rparr>"
    using two pruneRecords_ok(2) [OF assms(1) 1(1)] 1(2) same by (auto split: if_splits)
qed


definition old_record :: Record where
  "old_record = \<lparr>ID = 9, KeyID = 1, ReservationID = Some 7, RequestID = ''r'', RequestedModel = ''m'', ServedModel = ''m'',
     Provider = ''openai'', ServiceTier = [], ProviderRequestID = [], WindowStart = 0, TokenDetail = Some [],
     CostUSD = Some 0, UsageSource = ''provider'', Rec_Unpriced = False, Rec_PartiallyPriced = False, Streamed = False,
     ClientDisconnected = False, DrainTimeout = False, Rec_ParseErrors = 0, FinishReason = [], StatusCode = 200,
     ErrorCode = [], LatencyMS = 1, TTFTMicros = 1\<rparr>"

definition old_tables :: "unit Tables" where
  "old_tables = \<lparr>tb_db = empty_DB\<lparr>usage_records := [usageRow 0 old_record]\<rparr>, request_payloads = []\<rparr>"

definition hour_policy :: RetentionPolicy where
  "hour_policy = \<lparr>rp_UsageRecords = sec 3600, rp_RequestPayloads = 0, rp_BatchSize = 0\<rparr>"



subsection \<open>Retention against reconciliation\<close>

text \<open>
  The reservation log is never pruned. Once retention removes the only usage record of a settled
  reservation, reconciliation counts that reservation as settled without a record.
\<close>

lemma retention_breaks_reconcile:
  assumes "r \<in> set (budget_reservations (tb_db tb))" "rv_state r = Settled"
    and "pruneRecords limited now policy tb = (n, tb')"
    and "\<And>u. u \<in> set (usage_records (tb_db tb')) \<Longrightarrow> ur_reservation_id u \<noteq> Some (rv_id r)"
    and "Reconcile (\<lambda>_. None) (tb_db tb') = Inr report"
  shows "\<not> ReconcileReport_OK report"
proof -
  have "budget_reservations (tb_db tb') = budget_reservations (tb_db tb)"
    using assms(3) by (auto simp: pruneRecords_def Let_def)
  with assms(1,2,4) have "settledWithoutUsage (tb_db tb') \<noteq> 0"
    by (auto simp: settledWithoutUsage_def list_ex_iff filter_empty_conv)
  with assms(5) show ?thesis by (auto simp: Reconcile_def ReconcileReport_OK_def)
qed

end
