(* ===== verification/Queries.thy ===== *)
theory Queries
  imports Credentials Codec "HOL-Library.Product_Lexorder"
begin

text \<open>
  Package \<open>store\<close>, file \<open>queries.go\<close>: the usage report, the paginated listing of requests and the
  budget of a key, read from the tables of theory \<open>Store\<close>.

  A query is evaluated as SQL evaluates it: the rows its \<open>WHERE\<close> clause keeps, grouped by the values of
  the chosen expressions (a NULL is None), ordered, and scanned one by one into Go vals, where a NULL
  scanned into a string and a sum beyond an \<open>int64\<close> are errors. The text form of an identifier and its
  parser belong to the uuid package and are parameters, as are the collation of the database and the
  faults of the connection. The lemmas show that a report accounts for every visible row exactly once
  and that following the cursors of the listing visits every row that stays, once, in order.
\<close>

subsection \<open>Dimensions\<close>

type_synonym Dimension = string

definition pg_date :: "date \<Rightarrow> string" where
  "pg_date z = (case civil z of (y, m, d) \<Rightarrow>
     append_int 4 (if y \<le> 0 then 1 - y else y) @ ''-'' @ append_int 2 m @ ''-'' @ append_int 2 d)"

definition pg_hour :: "time \<Rightarrow> string" where
  "pg_hour t = pg_date (t div day_ns) @ ''T'' @ append_int 2 (t mod day_ns div 3600000000000) @ '':00:00Z''"

definition dimensionSQL :: "(uuid \<Rightarrow> string) \<Rightarrow> (Dimension \<times> (usage_record \<Rightarrow> string option)) list" where
  "dimensionSQL uuid_text =
     [(''key'', \<lambda>u. Some (uuid_text (ur_key_id u))),
      (''model'', ur_served_model),
      (''provider'', \<lambda>u. Some (ur_provider u)),
      (''day'', \<lambda>u. Some (pg_date (ur_created_at u div day_ns))),
      (''hour'', \<lambda>u. Some (pg_hour (ur_created_at u)))]"

definition Dimension_Valid :: "Dimension \<Rightarrow> bool" where
  "Dimension_Valid d \<longleftrightarrow> map_of (dimensionSQL (\<lambda>_. [])) d \<noteq> None"

definition dimension_value :: "(uuid \<Rightarrow> string) \<Rightarrow> Dimension \<Rightarrow> usage_record \<Rightarrow> string option" where
  "dimension_value uuid_text d u =
     (case map_of (dimensionSQL uuid_text) d of None \<Rightarrow> None | Some f \<Rightarrow> f u)"

datatype query_error = ErrNoScope | ErrTooManyDimensions | ErrUnknownDimension Dimension | ErrRangeTooWide
  | ErrBadCursor string | QueryFailed string | ScanFailed | NoBudget

subsection \<open>Values as the database and the driver give them\<close>

text \<open>A difference of instants saturates; a timestamp parameter is cut to microseconds.\<close>

definition Time_Sub :: "time \<Rightarrow> time \<Rightarrow> duration" where
  "Time_Sub t u = max min_i64 (min max_i64 (t - u))"

definition pg_time :: "time \<Rightarrow> time" where
  "pg_time t = t - t mod 1000"

text \<open>The text of a \<open>numeric(20,10)\<close>, and of a sum that is NULL over no rows.\<close>

definition numeric_text :: "num10 \<Rightarrow> string" where
  "numeric_text n =
     (if n < 0 then ''-'' else []) @ append_int 1 (\<bar>n\<bar> div 10000000000) @ ''.''
       @ append_int 10 (\<bar>n\<bar> mod 10000000000)"

definition cost_text :: "usage_record list \<Rightarrow> string" where
  "cost_text rows =
     (let costs = List.map_filter ur_cost_usd rows
      in if costs = [] then ''0'' else numeric_text (sum_list costs))"

subsection \<open>The usage report (QueryUsage)\<close>

record UsageQuery =
  uq_Scope :: Scope
  uq_From :: time
  uq_To :: time
  uq_GroupBy :: "Dimension list"
  uq_MaxWindow :: duration

record UsageBucket =
  ub_Group :: "(string \<times> string) list"
  ub_Requests :: int
  ub_InputTokens :: int
  ub_CachedReadTokens :: int
  ub_CacheWriteTokens :: int
  ub_OutputTokens :: int
  ub_ReasoningTokens :: int
  ub_CostUSD :: string
  ub_UnpricedRequests :: int

definition in_scope :: "Scope \<Rightarrow> usage_record \<Rightarrow> bool" where
  "in_scope scope u \<longleftrightarrow> sc_master scope \<or> ur_key_id u = sc_keyID scope"

definition in_window :: "time \<Rightarrow> time \<Rightarrow> usage_record \<Rightarrow> bool" where
  "in_window from to u \<longleftrightarrow> pg_time from \<le> ur_created_at u \<and> ur_created_at u < pg_time to"

definition visible :: "Scope \<Rightarrow> time \<Rightarrow> time \<Rightarrow> DB \<Rightarrow> usage_record list" where
  "visible scope from to db = filter (\<lambda>u. in_window from to u \<and> in_scope scope u) (usage_records db)"

definition bucket_of :: "(string \<times> string) list \<Rightarrow> usage_record list \<Rightarrow> UsageBucket" where
  "bucket_of g rows =
     \<lparr>ub_Group = g, ub_Requests = int (length rows),
      ub_InputTokens = (\<Sum>u\<leftarrow>rows. ur_input_tokens u),
      ub_CachedReadTokens = (\<Sum>u\<leftarrow>rows. ur_cached_read_tokens u),
      ub_CacheWriteTokens = (\<Sum>u\<leftarrow>rows. ur_cache_write_tokens u),
      ub_OutputTokens = (\<Sum>u\<leftarrow>rows. ur_output_tokens u),
      ub_ReasoningTokens = (\<Sum>u\<leftarrow>rows. ur_reasoning_tokens u),
      ub_CostUSD = cost_text rows,
      ub_UnpricedRequests = int (length (filter (\<lambda>u. ur_cost_usd u = None) rows))\<rparr>"

text \<open>The rows of the result: one per group in the order of the database, or a single one.\<close>

definition group_key :: "(string \<Rightarrow> 'o :: linorder) \<Rightarrow> string option list \<Rightarrow> (nat \<times> 'o) list" where
  "group_key coll vs = map (\<lambda>v. case v of None \<Rightarrow> (1, coll []) | Some x \<Rightarrow> (0, coll x)) vs"

definition group_values :: "(uuid \<Rightarrow> string) \<Rightarrow> Dimension list \<Rightarrow> usage_record \<Rightarrow> string option list" where
  "group_values uuid_text dims u = map (\<lambda>d. dimension_value uuid_text d u) dims"

definition result_groups :: "(string \<Rightarrow> 'o :: linorder) \<Rightarrow> (uuid \<Rightarrow> string) \<Rightarrow> Dimension list \<Rightarrow> usage_record list
    \<Rightarrow> string option list list" where
  "result_groups coll uuid_text dims rows =
     (if dims = [] then [[]]
      else sort_key (group_key coll) (remdups (map (group_values uuid_text dims) rows)))"

definition scan_bucket :: "Dimension list \<Rightarrow> string option list \<Rightarrow> usage_record list
    \<Rightarrow> query_error + UsageBucket" where
  "scan_bucket dims vs rows =
     (case those vs of
        None \<Rightarrow> Inl ScanFailed
      | Some vals \<Rightarrow>
          let b = bucket_of (fold (\<lambda>(d, v). AList.update d v) (zip dims vals) []) rows
          in if in_i64 (ub_InputTokens b) \<and> in_i64 (ub_CachedReadTokens b) \<and> in_i64 (ub_CacheWriteTokens b)
               \<and> in_i64 (ub_OutputTokens b) \<and> in_i64 (ub_ReasoningTokens b)
             then Inr b else Inl ScanFailed)"

fun scan_rows :: "('r \<Rightarrow> 'e + 'b) \<Rightarrow> 'r list \<Rightarrow> 'e + 'b list" where
  "scan_rows scan [] = Inr []"
| "scan_rows scan (r # rs) =
     (case scan r of
        Inl e \<Rightarrow> Inl e
      | Inr b \<Rightarrow> (case scan_rows scan rs of Inl e \<Rightarrow> Inl e | Inr bs \<Rightarrow> Inr (b # bs)))"

text \<open>\<open>faults 0\<close> fails the query, \<open>faults 1\<close> the connection while the rows are read.\<close>

definition QueryUsage :: "(string \<Rightarrow> 'o :: linorder) \<Rightarrow> (uuid \<Rightarrow> string) \<Rightarrow> (nat \<Rightarrow> string option) \<Rightarrow> DB
    \<Rightarrow> UsageQuery \<Rightarrow> query_error + UsageBucket list" where
  "QueryUsage coll uuid_text faults db q =
     (if \<not> Scope_Valid (uq_Scope q) then Inl ErrNoScope
      else if 2 < length (uq_GroupBy q) then Inl ErrTooManyDimensions
      else case find (\<lambda>d. \<not> Dimension_Valid d) (uq_GroupBy q) of
        Some d \<Rightarrow> Inl (ErrUnknownDimension d)
      | None \<Rightarrow>
      if 0 < uq_MaxWindow q \<and> uq_MaxWindow q < Time_Sub (uq_To q) (uq_From q) then Inl ErrRangeTooWide
      else case faults 0 of
        Some e \<Rightarrow> Inl (QueryFailed e)
      | None \<Rightarrow>
        let rows = visible (uq_Scope q) (uq_From q) (uq_To q) db;
            gv = group_values uuid_text (uq_GroupBy q)
        in case scan_rows (\<lambda>g. scan_bucket (uq_GroupBy q) g (filter (\<lambda>u. gv u = g) rows))
                  (result_groups coll uuid_text (uq_GroupBy q) rows) of
             Inl e \<Rightarrow> Inl e
           | Inr bs \<Rightarrow> (case faults 1 of None \<Rightarrow> Inr bs | Some e \<Rightarrow> Inl (QueryFailed e)))"

subsection \<open>The listing of requests (QueryRequests)\<close>

record RequestQuery =
  rq_Scope :: Scope
  rq_From :: time
  rq_To :: time
  rq_Limit :: int
  rq_Cursor :: string
  rq_MaxWindow :: duration

record RequestRow =
  rr_ID :: uuid
  rr_RequestID :: string
  rr_KeyID :: uuid
  rr_RequestedModel :: string
  rr_ServedModel :: string
  rr_Provider :: string
  rr_ProviderRequestID :: string
  rr_InputTokens :: int
  rr_OutputTokens :: int
  rr_CostUSD :: "string option"
  rr_UsageSource :: string
  rr_Unpriced :: bool
  rr_Streamed :: bool
  rr_StatusCode :: int
  rr_ErrorCode :: "string option"
  rr_CreatedAt :: time

record RequestPage =
  rp_Data :: "RequestRow list"
  rp_NextCursor :: "string option"

definition coalesce_empty :: "string option \<Rightarrow> string" where
  "coalesce_empty x = (case x of None \<Rightarrow> [] | Some v \<Rightarrow> v)"

definition request_row :: "usage_record \<Rightarrow> RequestRow" where
  "request_row u =
     \<lparr>rr_ID = ur_id u, rr_RequestID = ur_request_id u, rr_KeyID = ur_key_id u,
      rr_RequestedModel = ur_requested_model u, rr_ServedModel = coalesce_empty (ur_served_model u),
      rr_Provider = ur_provider u, rr_ProviderRequestID = coalesce_empty (ur_provider_request_id u),
      rr_InputTokens = ur_input_tokens u, rr_OutputTokens = ur_output_tokens u,
      rr_CostUSD = map_option numeric_text (ur_cost_usd u), rr_UsageSource = ur_usage_source u,
      rr_Unpriced = ur_unpriced u, rr_Streamed = ur_streamed u, rr_StatusCode = ur_status_code u,
      rr_ErrorCode = ur_error_code u, rr_CreatedAt = ur_created_at u\<rparr>"

definition encodeCursor :: "(uuid \<Rightarrow> string) \<Rightarrow> time \<Rightarrow> uuid \<Rightarrow> string" where
  "encodeCursor uuid_text t i = b64_encode (format_rfc3339nano t @ ''|'' @ uuid_text i)"

definition decodeCursor :: "(string \<Rightarrow> uuid option) \<Rightarrow> string \<Rightarrow> query_error + time \<times> uuid" where
  "decodeCursor uuid_parse cursor =
     (case b64_decode cursor of
        None \<Rightarrow> Inl (ErrBadCursor ''not valid base64'')
      | Some raw \<Rightarrow>
     (case cut ''|'' raw of
        None \<Rightarrow> Inl (ErrBadCursor ''malformed'')
      | Some (t, i) \<Rightarrow>
     (case parse_rfc3339 t of
        None \<Rightarrow> Inl (ErrBadCursor ''bad timestamp'')
      | Some parsed \<Rightarrow>
     (case uuid_parse i of
        None \<Rightarrow> Inl (ErrBadCursor ''bad identifier'')
      | Some parsedID \<Rightarrow> Inr (parsed, parsedID)))))"

definition row_key :: "usage_record \<Rightarrow> time \<times> uuid" where
  "row_key u = (ur_created_at u, ur_id u)"

definition before_cursor :: "(time \<times> uuid) option \<Rightarrow> usage_record \<Rightarrow> bool" where
  "before_cursor c u = (case c of None \<Rightarrow> True | Some (t, i) \<Rightarrow> row_key u < (pg_time t, i))"

definition effective_limit :: "int \<Rightarrow> nat" where
  "effective_limit n = (if n \<le> 0 \<or> 1000 < n then 100 else nat n)"

definition cursor_of :: "(string \<Rightarrow> uuid option) \<Rightarrow> string \<Rightarrow> query_error + (time \<times> uuid) option" where
  "cursor_of uuid_parse s =
     (if s = [] then Inr None
      else case decodeCursor uuid_parse s of Inl e \<Rightarrow> Inl e | Inr p \<Rightarrow> Inr (Some p))"

definition QueryRequests :: "(uuid \<Rightarrow> string) \<Rightarrow> (string \<Rightarrow> uuid option) \<Rightarrow> (nat \<Rightarrow> string option) \<Rightarrow> DB
    \<Rightarrow> RequestQuery \<Rightarrow> query_error + RequestPage" where
  "QueryRequests uuid_text uuid_parse faults db q =
     (if \<not> Scope_Valid (rq_Scope q) then Inl ErrNoScope
      else if 0 < rq_MaxWindow q \<and> rq_MaxWindow q < Time_Sub (rq_To q) (rq_From q) then Inl ErrRangeTooWide
      else case cursor_of uuid_parse (rq_Cursor q) of
        Inl e \<Rightarrow> Inl e
      | Inr c \<Rightarrow>
        (case faults 0 of
           Some e \<Rightarrow> Inl (QueryFailed e)
         | None \<Rightarrow>
           let n = effective_limit (rq_Limit q);
               found = take (n + 1) (rev (sort_key row_key
                 (filter (before_cursor c) (visible (rq_Scope q) (rq_From q) (rq_To q) db))))
           in case faults 1 of
                Some e \<Rightarrow> Inl (QueryFailed e)
              | None \<Rightarrow>
                if n < length found
                then Inr \<lparr>rp_Data = map request_row (take n found),
                          rp_NextCursor = Some (encodeCursor uuid_text (ur_created_at (found ! (n - 1)))
                            (ur_id (found ! (n - 1))))\<rparr>
                else Inr \<lparr>rp_Data = map request_row found, rp_NextCursor = None\<rparr>))"

subsection \<open>The budget of a key (BudgetStatusFor)\<close>

record BudgetStatus =
  bs_LimitUSD :: "string option"
  bs_SpentUSD :: string
  bs_ReservedUSD :: string
  bs_RemainingUSD :: "string option"
  bs_WindowStart :: string
  bs_WindowResetsAt :: time

definition BudgetStatusFor :: "string option \<Rightarrow> time \<Rightarrow> DB \<Rightarrow> uuid \<Rightarrow> query_error + BudgetStatus" where
  "BudgetStatusFor fault now db i =
     (case fault of
        Some e \<Rightarrow> Inl (QueryFailed e)
      | None \<Rightarrow>
        (case find (\<lambda>kb. kb_key_id kb = i) (key_budgets db) of
           None \<Rightarrow> Inl NoBudget
         | Some kb \<Rightarrow>
             Inr \<lparr>bs_LimitUSD = map_option numeric_text (kb_limit_usd kb),
                  bs_SpentUSD = numeric_text (kb_spent_usd kb),
                  bs_ReservedUSD = numeric_text (kb_reserved_usd kb),
                  bs_RemainingUSD = map_option (\<lambda>l. numeric_text (l - kb_spent_usd kb - kb_reserved_usd kb))
                    (kb_limit_usd kb),
                  bs_WindowStart = date_text (kb_window_start kb),
                  bs_WindowResetsAt = nextWindowStart now\<rparr>))"

subsection \<open>A small table\<close>

definition sample_usage :: "uuid \<Rightarrow> uuid \<Rightarrow> string option \<Rightarrow> time \<Rightarrow> usage_record" where
  "sample_usage i key model t =
     \<lparr>ur_id = i, ur_key_id = key, ur_reservation_id = None, ur_request_id = ''r'', ur_requested_model = ''m'',
      ur_served_model = model, ur_provider = ''openai'', ur_service_tier = ''standard'',
      ur_provider_request_id = None, ur_window_start = 0, ur_token_detail = [], ur_input_tokens = 3,
      ur_cached_read_tokens = 0, ur_cache_write_tokens = 0, ur_output_tokens = 4, ur_reasoning_tokens = 0,
      ur_cost_usd = Some 25000000000, ur_usage_source = ''provider'', ur_unpriced = False,
      ur_partially_priced = False, ur_streamed = False, ur_client_disconnected = False,
      ur_drain_timeout = False, ur_parse_errors = 0, ur_finish_reason = None, ur_status_code = 200,
      ur_error_code = None, ur_latency_ms = None, ur_ttft_us = None, ur_created_at = t\<rparr>"

definition sample_table :: DB where
  "sample_table = empty_DB\<lparr>usage_records := [sample_usage 1 7 (Some ''m'') 1000, sample_usage 2 7 (Some ''m'') 2000,
     sample_usage 3 8 None 2000]\<rparr>"

definition unary :: "uuid \<Rightarrow> string" where
  "unary i = replicate i (CHR ''1'')"

definition of_unary :: "string \<Rightarrow> uuid option" where
  "of_unary s = Some (length s)"

subsection \<open>A report accounts for every row once\<close>

lemma scan_rows_Inr: "scan_rows scan rs = Inr bs \<Longrightarrow> map scan rs = map Inr bs"
  by (induction rs arbitrary: bs) (auto split: sum.splits)

lemma scan_bucket_Inr:
  assumes "scan_bucket dims vs rows = Inr b"
  obtains vals where "vs = map Some vals"
    "b = bucket_of (fold (\<lambda>(d, v). AList.update d v) (zip dims vals) []) rows"
proof -
  obtain vals where v: "those vs = Some vals" using assms by (auto simp: scan_bucket_def split: option.splits)
  moreover have "vs = map Some vals" using v by (induction vs arbitrary: vals) (auto split: option.splits)
  ultimately show thesis using assms that by (auto simp: scan_bucket_def Let_def split: if_splits)
qed

lemma mset_groups:
  assumes "distinct gs" "\<And>x. x \<in> set xs \<Longrightarrow> f x \<in> set gs"
  shows "mset (concat (map (\<lambda>g. filter (\<lambda>x. f x = g) xs) gs)) = mset xs"
  using assms
proof (induction gs arbitrary: xs)
  case Nil
  then show ?case by (cases xs) auto
next
  case (Cons g gs)
  have "mset (concat (map (\<lambda>h. filter (\<lambda>x. f x = h) [x\<leftarrow>xs. f x \<noteq> g]) gs)) = mset [x\<leftarrow>xs. f x \<noteq> g]"
    using Cons.prems by (intro Cons.IH) auto
  moreover have "map (\<lambda>h. filter (\<lambda>x. f x = h) [x\<leftarrow>xs. f x \<noteq> g]) gs = map (\<lambda>h. filter (\<lambda>x. f x = h) xs) gs"
    using Cons.prems(1) by (intro map_cong) (auto intro: filter_cong)
  ultimately have rest: "mset (concat (map (\<lambda>h. filter (\<lambda>x. f x = h) xs) gs)) = mset [x\<leftarrow>xs. f x \<noteq> g]"
    by (simp only:)
  show ?case using multiset_partition [of "mset xs" "\<lambda>x. f x = g"] by (simp add: rest)
qed

lemma distinct_groups: "distinct (result_groups coll ut dims rows)"
  by (simp add: result_groups_def distinct_sort)

lemma group_in_result: "u \<in> set rows \<Longrightarrow> group_values ut dims u \<in> set (result_groups coll ut dims rows)"
  by (auto simp: result_groups_def group_values_def)

text \<open>The label a bucket gives a dimension.\<close>

lemma fold_update_get:
  "length vs = length ds \<Longrightarrow>
   map_of (fold (\<lambda>(d, v). AList.update d v) (zip ds vs) m) d
     = (case map_of (rev (zip ds vs)) d of None \<Rightarrow> map_of m d | Some v \<Rightarrow> Some v)"
proof (induction ds vs arbitrary: m rule: list_induct2')
  case (4 d' ds v vs)
  then show ?case by (simp add: update_conv' map_add_def split: option.splits)
qed simp_all

lemma bucket_label:
  assumes "group_values ut dims u = map Some vals" "d \<in> set dims"
  shows "map_of (fold (\<lambda>(d, v). AList.update d v) (zip dims vals) []) d = dimension_value ut d u"
proof -
  have len: "length vals = length dims" using arg_cong [OF assms(1), of length] by (simp add: group_values_def)
  have pair: "dimension_value ut x u = Some v" if "(x, v) \<in> set (zip dims vals)" for x v
  proof -
    from that obtain n where "n < length dims" "n < length vals" "dims ! n = x" "vals ! n = v"
      by (auto simp: in_set_zip)
    with arg_cong [OF assms(1), of "\<lambda>l. l ! n"] show ?thesis by (simp add: group_values_def)
  qed
  have "d \<in> fst ` set (rev (zip dims vals))" using assms(2) len by (simp add: set_map [symmetric] del: set_map)
  then obtain v where v: "map_of (rev (zip dims vals)) d = Some v" by (metis map_of_eq_None_iff not_None_eq)
  then have "(d, v) \<in> set (zip dims vals)" by (auto dest: map_of_SomeD)
  with v pair show ?thesis by (simp add: fold_update_get [OF len])
qed

text \<open>
  C17. A usage report adds up: the buckets \<open>QueryUsage\<close> returns partition the rows the caller may see in the
  window. Every such row is counted in exactly one bucket, each bucket's count, token sums, cost text
  and number of unpriced requests are those of its rows, its labels are the values of the dimensions of
  its rows, and rows of different buckets differ in one of them.
\<close>

theorem usage_report_exact:
  assumes "QueryUsage coll uuid_text faults db q = Inr bs"
  shows "\<exists>parts. length parts = length bs
    \<and> mset (concat parts) = mset (visible (uq_Scope q) (uq_From q) (uq_To q) db)
    \<and> list_all2 (\<lambda>b rows. b = bucket_of (ub_Group b) rows
        \<and> list_all (\<lambda>u. list_all (\<lambda>d. map_of (ub_Group b) d = dimension_value uuid_text d u) (uq_GroupBy q)) rows) bs parts
    \<and> sorted_wrt (\<lambda>rows rows'. \<forall>u \<in> set rows. \<forall>v \<in> set rows'.
        group_values uuid_text (uq_GroupBy q) u \<noteq> group_values uuid_text (uq_GroupBy q) v) parts"
proof -
  define dims rows gs part where "dims = uq_GroupBy q"
    and "rows = visible (uq_Scope q) (uq_From q) (uq_To q) db"
    and "gs = result_groups coll uuid_text dims rows"
    and "part = (\<lambda>g. filter (\<lambda>u. group_values uuid_text dims u = g) rows)"
  have "scan_rows (\<lambda>g. scan_bucket dims g (part g)) gs = Inr bs"
    using assms by (auto simp: QueryUsage_def Let_def dims_def rows_def gs_def part_def
        split: if_splits option.splits sum.splits)
  then have scanned: "map (\<lambda>g. scan_bucket dims g (part g)) gs = map Inr bs" by (rule scan_rows_Inr)
  then have len: "length gs = length bs" by (metis length_map)
  have bucket: "bs ! i = bucket_of (ub_Group (bs ! i)) (part (gs ! i))
      \<and> list_all (\<lambda>u. list_all (\<lambda>d. map_of (ub_Group (bs ! i)) d = dimension_value uuid_text d u) dims) (part (gs ! i))"
    if "i < length bs" for i
  proof -
    have "scan_bucket dims (gs ! i) (part (gs ! i)) = Inr (bs ! i)"
      using scanned len that by (metis (no_types, lifting) nth_map)
    then obtain vals where v: "gs ! i = map Some vals"
        "bs ! i = bucket_of (fold (\<lambda>(d, v). AList.update d v) (zip dims vals) []) (part (gs ! i))"
      by (rule scan_bucket_Inr)
    then have g: "ub_Group (bs ! i) = fold (\<lambda>(d, v). AList.update d v) (zip dims vals) []"
      by (simp add: bucket_of_def)
    have "group_values uuid_text dims u = map Some vals" if "u \<in> set (part (gs ! i))" for u
      using that v(1) by (simp add: part_def)
    then show ?thesis using v(2) g by (simp add: list_all_iff bucket_label)
  qed
  have "mset (concat (map part gs)) = mset rows"
    unfolding part_def by (rule mset_groups) (simp_all add: gs_def distinct_groups group_in_result)
  moreover have "group_values uuid_text dims u \<noteq> group_values uuid_text dims v"
    if "i < j" "j < length (map part gs)" "u \<in> set (map part gs ! i)" "v \<in> set (map part gs ! j)" for i j u v
    using that distinct_groups [of coll uuid_text dims rows]
    by (auto simp: part_def gs_def [symmetric] nth_eq_iff_index_eq)
  ultimately show ?thesis
    using bucket len
    by (intro exI [of _ "map part gs"] conjI) (auto simp: list_all2_conv_all_nth sorted_wrt_iff_nth_less dims_def rows_def)
qed

definition sample_report :: UsageQuery where
  "sample_report = \<lparr>uq_Scope = KeyScope 7, uq_From = 0, uq_To = 5000, uq_GroupBy = [''model'', ''provider''],
     uq_MaxWindow = 0\<rparr>"

lemma sample_report_result:
  "QueryUsage id unary (\<lambda>_. None) sample_table sample_report
     = Inr [bucket_of [(''model'', ''m''), (''provider'', ''openai'')]
         [sample_usage 1 7 (Some ''m'') 1000, sample_usage 2 7 (Some ''m'') 2000]]"
  by code_simp

lemma usage_report_exact_witness:
  "\<exists>parts. length parts = length [bucket_of [(''model'', ''m''), (''provider'', ''openai'')]
         [sample_usage 1 7 (Some ''m'') 1000, sample_usage 2 7 (Some ''m'') 2000]]
    \<and> mset (concat parts) = mset (visible (KeyScope 7) 0 5000 sample_table)"
  using usage_report_exact [OF sample_report_result] by (auto simp: sample_report_def)

text \<open>
  One request whose served model is not known breaks every report grouped by model that includes it: the
  column is nullable and the NULL cannot be scanned into the string of the bucket.
\<close>

lemma unserved_model_breaks_report:
  "QueryUsage id unary (\<lambda>_. None) sample_table
     \<lparr>uq_Scope = MasterScope, uq_From = 0, uq_To = 5000, uq_GroupBy = [''model''], uq_MaxWindow = 0\<rparr>
     = Inl ScanFailed"
  by code_simp

subsection \<open>Following the cursors\<close>

lemma format_no_bar: "CHR ''|'' \<notin> set (format_rfc3339nano t)"
proof -
  have digits: "CHR ''|'' \<notin> set (append_int w x)" for w x
  proof -
    have "CHR ''|'' \<notin> set (digits_rev n)" for n
    proof (induction n rule: digits_rev.induct)
      case (1 n)
      have "char_of (48 + n mod 10) \<noteq> CHR ''|''"
      proof -
        have "is_digit (char_of (48 + n mod 10))" by (rule is_digit_char) simp
        moreover have "\<not> is_digit (CHR ''|'')" by (simp add: is_digit_def less_eq_char_def)
        ultimately show ?thesis by metis
      qed
      with 1 show ?case by (subst digits_rev.simps) auto
    qed
    then show ?thesis by (auto simp: append_int_def Let_def)
  qed
  have "CHR ''|'' \<notin> set (frac_text ns)" for ns
    using digits [of 9 ns] by (auto simp: frac_text_def dest: set_dropWhileD)
  then show ?thesis
    using digits by (auto simp: format_rfc3339nano_def date_text_def clock_text_def split: prod.splits)
qed

lemma cursor_round_trip:
  assumes "0 \<le> year_of t" "year_of t \<le> 9999" "uuid_parse (uuid_text i) = Some i"
  shows "decodeCursor uuid_parse (encodeCursor uuid_text t i) = Inr (t, i)"
  using assms cut_char_append [OF format_no_bar [of t], of "uuid_text i"]
  by (simp add: decodeCursor_def encodeCursor_def b64_round_trip rfc3339_round_trip)

lemma encodeCursor_nonempty: "encodeCursor uuid_text t i \<noteq> []"
proof -
  have "format_rfc3339nano t @ ''|'' @ uuid_text i \<noteq> []" by simp
  then obtain c s where "format_rfc3339nano t @ ''|'' @ uuid_text i = c # s" by (meson list.exhaust)
  then show ?thesis by (cases "map of_char s :: nat list" rule: b64_groups.cases; cases s)
      (auto simp: encodeCursor_def b64_encode_def neq_Nil_conv)
qed

text \<open>
  A client that follows \<open>next_cursor\<close> to the end: page \<open>k\<close> is read from the state \<open>dbs k\<close> the database has
  by then. None is a page that fails, or more than \<open>n\<close> pages.
\<close>

fun follow :: "(uuid \<Rightarrow> string) \<Rightarrow> (string \<Rightarrow> uuid option) \<Rightarrow> (nat \<Rightarrow> DB) \<Rightarrow> RequestQuery \<Rightarrow> nat \<Rightarrow> nat \<Rightarrow> string
    \<Rightarrow> RequestRow list option" where
  "follow uuid_text uuid_parse dbs q 0 k cursor = None"
| "follow uuid_text uuid_parse dbs q (Suc n) k cursor =
     (case QueryRequests uuid_text uuid_parse (\<lambda>_. None) (dbs k) (q\<lparr>rq_Cursor := cursor\<rparr>) of
        Inl e \<Rightarrow> None
      | Inr page \<Rightarrow>
        (case rp_NextCursor page of
           None \<Rightarrow> Some (rp_Data page)
         | Some c \<Rightarrow> map_option (\<lambda>rest. rp_Data page @ rest) (follow uuid_text uuid_parse dbs q n (Suc k) c)))"

definition query_ok :: "RequestQuery \<Rightarrow> bool" where
  "query_ok q \<longleftrightarrow> Scope_Valid (rq_Scope q)
     \<and> \<not> (0 < rq_MaxWindow q \<and> rq_MaxWindow q < Time_Sub (rq_To q) (rq_From q))"

text \<open>What the schema says of a row: a timestamp is a number of microseconds, here of a four-digit year.\<close>

definition row_time_ok :: "usage_record \<Rightarrow> bool" where
  "row_time_ok u \<longleftrightarrow> ur_created_at u mod 1000 = 0 \<and> 0 \<le> year_of (ur_created_at u) \<and> year_of (ur_created_at u) \<le> 9999"

abbreviation newest_first :: "usage_record list \<Rightarrow> bool" where
  "newest_first us \<equiv> sorted_wrt (\<lambda>u v. row_key v < row_key u) us"

lemma newest_first_sorted:
  assumes "distinct (map ur_id us)"
  shows "newest_first (rev (sort_key row_key us))"
proof -
  have "distinct (map row_key us)" using assms by (auto simp: distinct_map row_key_def inj_on_def)
  then have "distinct (map row_key (sort_key row_key us))" using distinct_map by (metis mset_map mset_sort mset_eq_imp_distinct_iff)
  moreover have "sorted (map row_key (sort_key row_key us))" by simp
  ultimately have "sorted_wrt (<) (map row_key (sort_key row_key us))" by (simp add: strict_sorted_iff)
  then show ?thesis by (simp add: sorted_wrt_rev sorted_wrt_map)
qed

text \<open>One page: the newest rows before the cursor, and a cursor behind the last of them if there are more.\<close>

lemma page_cases:
  assumes "query_ok q" "cursor_of uuid_parse cursor = Inr c"
    "distinct (map ur_id (usage_records db))"
  obtains us where
    "QueryRequests uuid_text uuid_parse (\<lambda>_. None) db (q\<lparr>rq_Cursor := cursor\<rparr>)
       = Inr \<lparr>rp_Data = map request_row us, rp_NextCursor = None\<rparr>"
    "newest_first us"
    "set us = {u \<in> set (visible (rq_Scope q) (rq_From q) (rq_To q) db). before_cursor c u}"
  | us z where
    "QueryRequests uuid_text uuid_parse (\<lambda>_. None) db (q\<lparr>rq_Cursor := cursor\<rparr>)
       = Inr \<lparr>rp_Data = map request_row us,
              rp_NextCursor = Some (encodeCursor uuid_text (ur_created_at z) (ur_id z))\<rparr>"
    "newest_first us" "z \<in> set us"
    "\<forall>u \<in> set us. row_key z \<le> row_key u"
    "set us \<subseteq> {u \<in> set (visible (rq_Scope q) (rq_From q) (rq_To q) db). before_cursor c u}"
    "{u \<in> set (visible (rq_Scope q) (rq_From q) (rq_To q) db). before_cursor c u \<and> row_key z \<le> row_key u} \<subseteq> set us"
proof -
  define vis where "vis = filter (before_cursor c) (visible (rq_Scope q) (rq_From q) (rq_To q) db)"
  define ss where "ss = rev (sort_key row_key vis)"
  define n where "n = effective_limit (rq_Limit q)"
  have n: "0 < n" by (simp add: n_def effective_limit_def)
  have "distinct (map ur_id vis)" using assms(3) by (simp add: vis_def visible_def distinct_map_filter)
  then have sorted: "newest_first ss" unfolding ss_def by (rule newest_first_sorted)
  have set: "set ss = {u \<in> set (visible (rq_Scope q) (rq_From q) (rq_To q) db). before_cursor c u}"
    by (auto simp: ss_def vis_def)
  have page: "QueryRequests uuid_text uuid_parse (\<lambda>_. None) db (q\<lparr>rq_Cursor := cursor\<rparr>)
      = (if n < length (take (n + 1) ss)
         then Inr \<lparr>rp_Data = map request_row (take n ss),
                   rp_NextCursor = Some (encodeCursor uuid_text (ur_created_at (ss ! (n - 1))) (ur_id (ss ! (n - 1))))\<rparr>
         else Inr \<lparr>rp_Data = map request_row (take (n + 1) ss), rp_NextCursor = None\<rparr>)"
    using assms(1,2) n by (auto simp: QueryRequests_def query_ok_def Let_def n_def [symmetric]
        vis_def [symmetric] ss_def [symmetric])
  show thesis
  proof (cases "n < length ss")
    case False
    then show thesis using page sorted set that(1) [of ss] by simp
  next
    case True
    let ?z = "ss ! (n - 1)"
    have z: "?z \<in> set (take n ss)" using True n by (auto simp: in_set_conv_nth intro!: exI [of _ "n - 1"])
    have low: "row_key ?z \<le> row_key u" if u: "u \<in> set (take n ss)" for u
    proof -
      from u obtain i where i: "i < n" "u = ss ! i" using True by (auto simp: in_set_conv_nth)
      show ?thesis
      proof (cases "i = n - 1")
        case False
        then have "row_key ?z < row_key u" using i True sorted_wrt_nth_less [OF sorted, of i "n - 1"] by simp
        then show ?thesis by simp
      qed (use i in simp)
    qed
    have high: "u \<in> set (take n ss)" if "u \<in> set ss" "row_key ?z \<le> row_key u" for u
    proof -
      from that(1) obtain i where i: "i < length ss" "u = ss ! i" by (auto simp: in_set_conv_nth)
      have "\<not> n \<le> i"
      proof
        assume "n \<le> i"
        then have "row_key u < row_key ?z" using i n sorted_wrt_nth_less [OF sorted, of "n - 1" i] by simp
        with that(2) show False by simp
      qed
      then show ?thesis using i True by (auto simp: in_set_conv_nth intro!: exI [of _ i])
    qed
    show thesis
    proof (rule that(2))
      show "QueryRequests uuid_text uuid_parse (\<lambda>_. None) db (q\<lparr>rq_Cursor := cursor\<rparr>)
        = Inr \<lparr>rp_Data = map request_row (take n ss),
               rp_NextCursor = Some (encodeCursor uuid_text (ur_created_at ?z) (ur_id ?z))\<rparr>"
        using page True by simp
      show "newest_first (take n ss)" using sorted by (rule sorted_wrt_take)
      show "\<forall>u \<in> set (take n ss). row_key ?z \<le> row_key u" using low by blast
      show "set (take n ss) \<subseteq> {u \<in> set (visible (rq_Scope q) (rq_From q) (rq_To q) db). before_cursor c u}"
        unfolding set [symmetric] by (rule set_take_subset)
      show "{u \<in> set (visible (rq_Scope q) (rq_From q) (rq_To q) db). before_cursor c u \<and> row_key ?z \<le> row_key u}
          \<subseteq> set (take n ss)"
        using high set by blast
    qed (rule z)
  qed
qed

lemma follow_pages:
  assumes "query_ok q" "finite R" "\<And>u. u \<in> R \<Longrightarrow> row_time_ok u"
    "\<And>j. distinct (map ur_id (usage_records (dbs j)))"
    "\<And>j. set (visible (rq_Scope q) (rq_From q) (rq_To q) (dbs j)) \<subseteq> R"
    "\<And>i. uuid_parse (uuid_text i) = Some i"
  shows "cursor_of uuid_parse cursor = Inr c \<Longrightarrow> card {u \<in> R. before_cursor c u} < n \<Longrightarrow>
    \<exists>us. follow uuid_text uuid_parse dbs q n k cursor = Some (map request_row us) \<and> newest_first us
      \<and> set us \<subseteq> {u \<in> R. before_cursor c u}
      \<and> {u. before_cursor c u \<and> (\<forall>j. u \<in> set (visible (rq_Scope q) (rq_From q) (rq_To q) (dbs j)))} \<subseteq> set us"
proof (induction n arbitrary: k cursor c)
  case (Suc n)
  from page_cases [OF assms(1) Suc.prems(1) assms(4) [of k], of uuid_text]
  show ?case
  proof cases
    case (1 us)
    then show ?thesis using assms(5) [of k] by (intro exI [of _ us]) auto
  next
    case (2 us z)
    let ?c = "Some (ur_created_at z, ur_id z)"
    have zR: "z \<in> R" "before_cursor c z" using 2(3,5) assms(5) [of k] by auto
    from assms(3) [OF zR(1)] have t: "ur_created_at z mod 1000 = 0" "0 \<le> year_of (ur_created_at z)"
      "year_of (ur_created_at z) \<le> 9999" by (simp_all add: row_time_ok_def)
    have cur: "cursor_of uuid_parse (encodeCursor uuid_text (ur_created_at z) (ur_id z)) = Inr ?c"
      using cursor_round_trip [of "ur_created_at z" uuid_parse uuid_text "ur_id z"] t(2,3) assms(6) by (simp add: cursor_of_def encodeCursor_nonempty)
    have bz: "before_cursor ?c u \<longleftrightarrow> row_key u < row_key z" for u
      using t(1) by (simp add: before_cursor_def pg_time_def row_key_def)
    have down: "before_cursor c u" if "row_key u < row_key z" for u
      using zR(2) that by (auto simp: before_cursor_def split: option.splits intro: less_trans)
    have "{u \<in> R. before_cursor ?c u} \<subset> {u \<in> R. before_cursor c u}"
    proof
      show "{u \<in> R. before_cursor ?c u} \<subseteq> {u \<in> R. before_cursor c u}" using down bz by blast
      have "z \<notin> {u \<in> R. before_cursor ?c u}" using bz by simp
      with zR show "{u \<in> R. before_cursor ?c u} \<noteq> {u \<in> R. before_cursor c u}" by blast
    qed
    then have "card {u \<in> R. before_cursor ?c u} < n"
      using psubset_card_mono [of "{u \<in> R. before_cursor c u}" "{u \<in> R. before_cursor ?c u}"] assms(2) Suc.prems(2)
      by simp
    from Suc.IH [OF cur this, of "Suc k"] obtain vs where vs:
      "follow uuid_text uuid_parse dbs q n (Suc k) (encodeCursor uuid_text (ur_created_at z) (ur_id z))
         = Some (map request_row vs)"
      "newest_first vs" "set vs \<subseteq> {u \<in> R. before_cursor ?c u}"
      "{u. before_cursor ?c u \<and> (\<forall>j. u \<in> set (visible (rq_Scope q) (rq_From q) (rq_To q) (dbs j)))} \<subseteq> set vs"
      by blast
    show ?thesis
    proof (intro exI [of _ "us @ vs"] conjI)
      show "follow uuid_text uuid_parse dbs q (Suc n) k cursor = Some (map request_row (us @ vs))"
        using 2(1) vs(1) by simp
      show "newest_first (us @ vs)"
        using 2(2,4) vs(2,3) bz by (fastforce simp: sorted_wrt_append)
      show "set (us @ vs) \<subseteq> {u \<in> R. before_cursor c u}"
        using 2(5) assms(5) [of k] vs(3) bz down by auto
      show "{u. before_cursor c u \<and> (\<forall>j. u \<in> set (visible (rq_Scope q) (rq_From q) (rq_To q) (dbs j)))}
          \<subseteq> set (us @ vs)"
      proof
        fix u
        assume "u \<in> {u. before_cursor c u \<and> (\<forall>j. u \<in> set (visible (rq_Scope q) (rq_From q) (rq_To q) (dbs j)))}"
        then show "u \<in> set (us @ vs)" using 2(6) vs(4) bz by (cases "row_key z \<le> row_key u") (auto simp: not_le)
      qed
    qed
  qed
qed simp

text \<open>
  C18. Following the cursors of the request listing to the end visits every request exactly once. Let the
  database change between the pages in any way, as long as only finitely many rows \<open>R\<close> are ever
  visible: with more than \<open>card R\<close> pages to spend the listing ends, the rows it returns are strictly
  decreasing in (created_at, id), so that none is repeated, all of them were visible, and every row
  that was there throughout is among them. The parser of identifiers reads back what their text form
  prints, identifiers are unique, and timestamps are the database's.
\<close>

theorem paging_complete:
  assumes "query_ok q" "finite R" "\<And>u. u \<in> R \<Longrightarrow> row_time_ok u"
    "\<And>j. distinct (map ur_id (usage_records (dbs j)))"
    "\<And>j. set (visible (rq_Scope q) (rq_From q) (rq_To q) (dbs j)) \<subseteq> R"
    "\<And>i. uuid_parse (uuid_text i) = Some i" "card R < n"
  shows "\<exists>us. follow uuid_text uuid_parse dbs q n 0 [] = Some (map request_row us) \<and> newest_first us
    \<and> set us \<subseteq> R \<and> {u. \<forall>j. u \<in> set (visible (rq_Scope q) (rq_From q) (rq_To q) (dbs j))} \<subseteq> set us"
  using follow_pages [where n = n and k = 0 and c = None and cursor = "[]", OF assms(1-6)] assms(7) by (simp add: cursor_of_def before_cursor_def)

definition sample_listing :: RequestQuery where
  "sample_listing = \<lparr>rq_Scope = KeyScope 7, rq_From = 0, rq_To = 5000, rq_Limit = 1, rq_Cursor = [], rq_MaxWindow = 0\<rparr>"

lemma sample_visible:
  "visible (KeyScope 7) 0 5000 sample_table = [sample_usage 1 7 (Some ''m'') 1000, sample_usage 2 7 (Some ''m'') 2000]"
  by code_simp

lemma paging_complete_witness:
  "\<exists>us. follow unary of_unary (\<lambda>_. sample_table) sample_listing 3 0 [] = Some (map request_row us)
    \<and> newest_first us \<and> set us = {sample_usage 1 7 (Some ''m'') 1000, sample_usage 2 7 (Some ''m'') 2000}"
proof -
  let ?R = "{sample_usage 1 7 (Some ''m'') 1000, sample_usage 2 7 (Some ''m'') 2000}"
  have "query_ok sample_listing" by code_simp
  moreover have "row_time_ok (sample_usage 1 7 (Some ''m'') 1000)" "row_time_ok (sample_usage 2 7 (Some ''m'') 2000)"
    by code_simp+
  moreover have "distinct (map ur_id (usage_records sample_table))" by code_simp
  moreover have "card ?R < 3" by (simp add: card_insert_if)
  ultimately have "\<exists>us. follow unary of_unary (\<lambda>_. sample_table) sample_listing 3 0 [] = Some (map request_row us)
    \<and> newest_first us \<and> set us \<subseteq> ?R \<and> {u. \<forall>j :: nat. u \<in> set (visible (KeyScope 7) 0 5000 sample_table)} \<subseteq> set us"
    using paging_complete [of sample_listing ?R "\<lambda>_. sample_table" of_unary unary 3]
    by (auto simp: sample_listing_def sample_visible unary_def of_unary_def)
  then show ?thesis by (auto simp: sample_visible)
qed

end
