(* ===== verification/Reports.thy ===== *)
theory Reports
  imports Queries
begin

text \<open>
  Package \<open>api\<close>, file \<open>usage.go\<close>: the usage report, the listing of requests and the budget, as a caller
  reaches them over HTTP.

  A request carries its query parameters and the path value of its route. Time zones: an instant read
  from the database is shown in the zone of the process, which is a parameter. The main lemma is that a
  virtual key sees only itself: two databases that agree on the key and on its own rows give the same
  three responses, whatever else they hold.
\<close>

record ApiRequest =
  ar_Request :: HttpRequest
  ar_Values :: "(string \<times> string) list"
  ar_PathID :: string

definition query_get :: "ApiRequest \<Rightarrow> string \<Rightarrow> string" where
  "query_get r k = map_get [] (ar_Values r) k"

text \<open>The functions of packages outside the repository that the API calls, and the process's time zone.\<close>

record Lib =
  uuid_text :: "uuid \<Rightarrow> string"
  uuid_parse :: "string \<Rightarrow> uuid option"
  dec_text :: "decimal \<Rightarrow> string"
  dec_parse :: "string \<Rightarrow> decimal option"
  show_time :: "time \<Rightarrow> string"
  err_text :: "store_error \<Rightarrow> string"
  sha :: "string \<Rightarrow> string"

definition defaultUsageWindow :: duration where "defaultUsageWindow = 24 * 3600 * second"

record Server =
  sv_masterKey :: string
  sv_maxDrainMS :: int
  sv_maxQueryWindow :: duration

definition resolveScope :: "Lib \<Rightarrow> Server \<Rightarrow> string option \<Rightarrow> DB \<Rightarrow> ApiRequest \<Rightarrow> Scope option" where
  "resolveScope L s fault db r =
     (case BearerToken (ar_Request r) of
        None \<Rightarrow> None
      | Some token \<Rightarrow>
        if VerifyMaster (sha L) (sv_masterKey s) token then Some MasterScope
        else (case FindKeyByHash fault db (Hash (sha L) token) of
                Inl e \<Rightarrow> None
              | Inr key \<Rightarrow> if kr_RevokedAt key \<noteq> None then None else Some (KeyScope (kr_ID key))))"

definition timeRange :: "time \<Rightarrow> ApiRequest \<Rightarrow> string + time \<times> time" where
  "timeRange now r =
     (case (if query_get r ''from'' = [] then Some (now - defaultUsageWindow)
            else parse_rfc3339 (query_get r ''from'')) of
        None \<Rightarrow> Inl ''from must be an RFC3339 timestamp, for example 2026-09-01T00:00:00Z''
      | Some from \<Rightarrow>
     (case (if query_get r ''to'' = [] then Some now else parse_rfc3339 (query_get r ''to'')) of
        None \<Rightarrow> Inl ''to must be an RFC3339 timestamp, for example 2026-09-30T00:00:00Z''
      | Some to \<Rightarrow> if to \<le> from then Inl ''to must be after from'' else Inr (from, to)))"

definition writeQueryError :: "query_error \<Rightarrow> HttpResponse \<Rightarrow> HttpResponse" where
  "writeQueryError e w =
     (case e of
        ErrTooManyDimensions \<Rightarrow> WriteError 400 ErrorTypeInvalidRequest
          ''at most two group_by dimensions may be combined'' w
      | ErrUnknownDimension d \<Rightarrow> WriteError 400 ErrorTypeInvalidRequest
          ''group_by accepts key, model, provider, day or hour'' w
      | ErrRangeTooWide \<Rightarrow> WriteError 400 ErrorTypeInvalidRequest
          ''the requested range is wider than this gateway allows'' w
      | ErrBadCursor m \<Rightarrow> WriteError 400 ErrorTypeInvalidRequest
          ''the cursor is not one this endpoint issued'' w
      | _ \<Rightarrow> WriteError 500 ErrorTypeInternal ''the query could not be completed'' w)"

definition unauthorised :: HttpResponse where
  "unauthorised = WriteError 401 ErrorTypeInvalidAPIKey ''a valid credential is required'' new_response"

definition opt_json :: "('a \<Rightarrow> json) \<Rightarrow> 'a option \<Rightarrow> json" where
  "opt_json f x = (case x of None \<Rightarrow> JNull | Some v \<Rightarrow> f v)"

text \<open>A Go map is encoded with its keys sorted.\<close>

definition map_json :: "(string \<times> string) list \<Rightarrow> json" where
  "map_json m = JObj (sort_key fst (map (\<lambda>(k, v). (k, JStr v)) m))"

definition bucket_json :: "UsageBucket \<Rightarrow> json" where
  "bucket_json b = JObj
     [(''group'', map_json (ub_Group b)), (''requests'', JNum (int_lit (ub_Requests b))),
      (''input_tokens'', JNum (int_lit (ub_InputTokens b))),
      (''cached_read_tokens'', JNum (int_lit (ub_CachedReadTokens b))),
      (''cache_write_tokens'', JNum (int_lit (ub_CacheWriteTokens b))),
      (''output_tokens'', JNum (int_lit (ub_OutputTokens b))),
      (''reasoning_tokens'', JNum (int_lit (ub_ReasoningTokens b))),
      (''cost_usd'', JStr (ub_CostUSD b)), (''unpriced_requests'', JNum (int_lit (ub_UnpricedRequests b)))]"

definition request_json :: "Lib \<Rightarrow> RequestRow \<Rightarrow> json" where
  "request_json L x = JObj
     [(''id'', JStr (uuid_text L (rr_ID x))), (''request_id'', JStr (rr_RequestID x)),
      (''key_id'', JStr (uuid_text L (rr_KeyID x))), (''requested_model'', JStr (rr_RequestedModel x)),
      (''served_model'', JStr (rr_ServedModel x)), (''provider'', JStr (rr_Provider x)),
      (''provider_request_id'', JStr (rr_ProviderRequestID x)),
      (''input_tokens'', JNum (int_lit (rr_InputTokens x))),
      (''output_tokens'', JNum (int_lit (rr_OutputTokens x))), (''cost_usd'', opt_json JStr (rr_CostUSD x)),
      (''usage_source'', JStr (rr_UsageSource x)), (''unpriced'', JBool (rr_Unpriced x)),
      (''streamed'', JBool (rr_Streamed x)), (''status_code'', JNum (int_lit (rr_StatusCode x))),
      (''error_code'', opt_json JStr (rr_ErrorCode x)), (''created_at'', JStr (show_time L (rr_CreatedAt x)))]"

definition page_json :: "Lib \<Rightarrow> RequestPage \<Rightarrow> json" where
  "page_json L p = JObj [(''data'', JArr (map (request_json L) (rp_Data p))),
     (''next_cursor'', opt_json JStr (rp_NextCursor p))]"

definition budget_json :: "BudgetStatus \<Rightarrow> json" where
  "budget_json b = JObj
     [(''limit_usd'', opt_json JStr (bs_LimitUSD b)), (''spent_usd'', JStr (bs_SpentUSD b)),
      (''reserved_usd'', JStr (bs_ReservedUSD b)), (''remaining_usd'', opt_json JStr (bs_RemainingUSD b)),
      (''window_start'', JStr (bs_WindowStart b)),
      (''window_resets_at'', JStr (format_rfc3339nano (bs_WindowResetsAt b)))]"

definition group_by :: "ApiRequest \<Rightarrow> Dimension list" where
  "group_by r = (if query_get r ''group_by'' = [] then []
     else map trim_space (split_char (CHR '','') (query_get r ''group_by'')))"

text \<open>\<open>faults 0\<close> is the lookup of the key, the others belong to the query.\<close>

definition handleUsage :: "Lib \<Rightarrow> (string \<Rightarrow> 'o :: linorder) \<Rightarrow> Server \<Rightarrow> (nat \<Rightarrow> string option) \<Rightarrow> time \<Rightarrow> DB
    \<Rightarrow> ApiRequest \<Rightarrow> HttpResponse" where
  "handleUsage L coll s faults now db r =
     (case resolveScope L s (faults 0) db r of
        None \<Rightarrow> unauthorised
      | Some scope \<Rightarrow>
     (case timeRange now r of
        Inl e \<Rightarrow> WriteError 400 ErrorTypeInvalidRequest e new_response
      | Inr (from, to) \<Rightarrow>
     (case QueryUsage coll (uuid_text L) (faults \<circ> Suc) db
             \<lparr>uq_Scope = scope, uq_From = from, uq_To = to, uq_GroupBy = group_by r,
              uq_MaxWindow = sv_maxQueryWindow s\<rparr> of
        Inl e \<Rightarrow> writeQueryError e new_response
      | Inr buckets \<Rightarrow> WriteJSON 200 (JObj
          [(''data'', JArr (map bucket_json buckets)), (''from'', JStr (format_rfc3339 from)),
           (''to'', JStr (format_rfc3339 to))]) new_response)))"

definition listing_limit :: "ApiRequest \<Rightarrow> int option" where
  "listing_limit r =
     (if query_get r ''limit'' = [] then Some 100
      else case Atoi (query_get r ''limit'') of
             None \<Rightarrow> None
           | Some n \<Rightarrow> if n \<le> 0 then None else Some n)"

definition handleRequests :: "Lib \<Rightarrow> Server \<Rightarrow> (nat \<Rightarrow> string option) \<Rightarrow> time \<Rightarrow> DB \<Rightarrow> ApiRequest \<Rightarrow> HttpResponse" where
  "handleRequests L s faults now db r =
     (case resolveScope L s (faults 0) db r of
        None \<Rightarrow> unauthorised
      | Some scope \<Rightarrow>
     (case timeRange now r of
        Inl e \<Rightarrow> WriteError 400 ErrorTypeInvalidRequest e new_response
      | Inr (from, to) \<Rightarrow>
     (case listing_limit r of
        None \<Rightarrow> WriteError 400 ErrorTypeInvalidRequest ''limit must be a positive integer'' new_response
      | Some limit \<Rightarrow>
     (case QueryRequests (uuid_text L) (uuid_parse L) (faults \<circ> Suc) db
             \<lparr>rq_Scope = scope, rq_From = from, rq_To = to, rq_Limit = limit,
              rq_Cursor = query_get r ''cursor'', rq_MaxWindow = sv_maxQueryWindow s\<rparr> of
        Inl e \<Rightarrow> writeQueryError e new_response
      | Inr page \<Rightarrow> WriteJSON 200 (page_json L page) new_response))))"

definition handleBudget :: "Lib \<Rightarrow> Server \<Rightarrow> (nat \<Rightarrow> string option) \<Rightarrow> time \<Rightarrow> DB \<Rightarrow> ApiRequest \<Rightarrow> HttpResponse" where
  "handleBudget L s faults now db r =
     (case resolveScope L s (faults 0) db r of
        None \<Rightarrow> unauthorised
      | Some scope \<Rightarrow>
        if sc_master scope
        then WriteError 400 ErrorTypeInvalidRequest
          (''this endpoint reports the calling key's own budget; '' @ ''a master credential has none'') new_response
        else (case BudgetStatusFor (faults 1) now db (sc_keyID scope) of
                Inl e \<Rightarrow> WriteError 500 ErrorTypeInternal ''the budget could not be read'' new_response
              | Inr status \<Rightarrow> WriteJSON 200 (budget_json status) new_response))"

subsection \<open>A virtual key sees only itself\<close>

text \<open>What belongs to a key: its row, its budget and its usage.\<close>

definition own_view :: "bytes \<Rightarrow> uuid \<Rightarrow> DB \<Rightarrow> virtual_key option \<times> key_budget list \<times> usage_record list" where
  "own_view h i db =
     (find (\<lambda>vk. vk_hash vk = h) (virtual_keys db), filter (\<lambda>kb. kb_key_id kb = i) (key_budgets db),
      filter (\<lambda>u. ur_key_id u = i) (usage_records db))"

lemma find_filter: "find P xs = find P (filter P xs)"
  by (induction xs) simp_all

lemma own_view_budget:
  assumes "own_view h i db = own_view h i db'"
  shows "find (\<lambda>kb. kb_key_id kb = i) (key_budgets db) = find (\<lambda>kb. kb_key_id kb = i) (key_budgets db')"
  using assms by (subst (1 2) find_filter) (simp add: own_view_def)

lemma own_view_FindKey:
  assumes "own_view h i db = own_view h i db'" "find (\<lambda>vk. vk_hash vk = h) (virtual_keys db) = Some vk" "vk_id vk = i"
  shows "FindKeyByHash fault db h = FindKeyByHash fault db' h"
  using own_view_budget [OF assms(1)] assms
  by (auto simp: own_view_def FindKeyByHash_def scanKey_def scanKeyRow_def split: option.splits)

lemma own_view_visible:
  assumes "own_view h i db = own_view h i db'"
  shows "visible (KeyScope i) from to db = visible (KeyScope i) from to db'"
proof -
  have "visible (KeyScope i) from to x = filter (in_window from to) (filter (\<lambda>u. ur_key_id u = i) (usage_records x))" for x
    by (simp add: visible_def in_scope_def KeyScope_def conj_commute)
  moreover have "filter (\<lambda>u. ur_key_id u = i) (usage_records db) = filter (\<lambda>u. ur_key_id u = i) (usage_records db')"
    using assms by (simp add: own_view_def)
  ultimately show ?thesis by (simp only:)
qed

lemma own_view_queries:
  assumes "own_view h i db = own_view h i db'"
  shows "uq_Scope q = KeyScope i \<Longrightarrow> QueryUsage coll ut faults db q = QueryUsage coll ut faults db' q"
    and "rq_Scope p = KeyScope i \<Longrightarrow> QueryRequests ut up faults db p = QueryRequests ut up faults db' p"
    and "BudgetStatusFor fault now db i = BudgetStatusFor fault now db' i"
proof -
  show "uq_Scope q = KeyScope i \<Longrightarrow> QueryUsage coll ut faults db q = QueryUsage coll ut faults db' q"
    by (simp only: QueryUsage_def own_view_visible [OF assms])
  show "rq_Scope p = KeyScope i \<Longrightarrow> QueryRequests ut up faults db p = QueryRequests ut up faults db' p"
    by (simp only: QueryRequests_def own_view_visible [OF assms])
  show "BudgetStatusFor fault now db i = BudgetStatusFor fault now db' i"
    by (simp only: BudgetStatusFor_def own_view_budget [OF assms])
qed

text \<open>
  C16. A virtual key sees only itself. For a caller presenting a virtual key's credential (not the master
  key), the usage report, the listing of requests and the budget are functions of the key's own row,
  budget and usage: two databases that agree on these give the same three responses whatever the other
  keys own in them, with any query parameters and any failures of the connection.
\<close>

theorem virtual_key_sees_only_itself:
  fixes coll :: "string \<Rightarrow> 'o :: linorder"
  assumes "BearerToken (ar_Request r) = Some token" "\<not> VerifyMaster (sha L) (sv_masterKey s) token"
    "find (\<lambda>vk. vk_hash vk = Hash (sha L) token) (virtual_keys db) = Some vk"
    "own_view (Hash (sha L) token) (vk_id vk) db = own_view (Hash (sha L) token) (vk_id vk) db'"
  shows "handleUsage L coll s faults now db r = handleUsage L coll s faults now db' r
    \<and> handleRequests L s faults now db r = handleRequests L s faults now db' r
    \<and> handleBudget L s faults now db r = handleBudget L s faults now db' r"
proof -
  let ?h = "Hash (sha L) token"
  have find_eq: "FindKeyByHash fault db ?h = FindKeyByHash fault db' ?h" for fault
    using own_view_FindKey [OF assms(4,3) refl] .
  then have same: "resolveScope L s fault db r = resolveScope L s fault db' r" for fault
    using assms(1,2) by (simp add: resolveScope_def)
  have "kr_ID key = vk_id vk" if "FindKeyByHash fault db ?h = Inr key" for fault key
    using that assms(3) by (auto simp: FindKeyByHash_def scanKey_def scanKeyRow_def split: option.splits)
  then have scope: "scope = KeyScope (vk_id vk)" if "resolveScope L s fault db r = Some scope" for fault scope
    using that assms(1,2) by (auto simp: resolveScope_def split: sum.splits if_splits)
  show ?thesis
  proof (cases "resolveScope L s (faults 0) db r")
    case None
    then show ?thesis using same [of "faults 0"] by (simp add: handleUsage_def handleRequests_def handleBudget_def)
  next
    case (Some sc)
    note sc = scope [OF Some]
    have s': "resolveScope L s (faults 0) db' r = Some (KeyScope (vk_id vk))"
      using same [of "faults 0"] Some sc by simp
    note q = own_view_queries [OF assms(4)]
    have qu: "QueryUsage coll ut f db \<lparr>uq_Scope = KeyScope (vk_id vk), uq_From = a, uq_To = b, uq_GroupBy = g, uq_MaxWindow = m\<rparr>
        = QueryUsage coll ut f db' \<lparr>uq_Scope = KeyScope (vk_id vk), uq_From = a, uq_To = b, uq_GroupBy = g, uq_MaxWindow = m\<rparr>"
      for ut f a b g m by (rule q(1)) simp
    have qr: "QueryRequests ut up f db \<lparr>rq_Scope = KeyScope (vk_id vk), rq_From = a, rq_To = b, rq_Limit = l, rq_Cursor = c, rq_MaxWindow = m\<rparr>
        = QueryRequests ut up f db' \<lparr>rq_Scope = KeyScope (vk_id vk), rq_From = a, rq_To = b, rq_Limit = l, rq_Cursor = c, rq_MaxWindow = m\<rparr>"
      for ut up f a b l c m by (rule q(2)) simp
    have id: "sc_keyID (KeyScope (vk_id vk)) = vk_id vk" by (simp add: KeyScope_def)
    show ?thesis
      by (simp only: handleUsage_def handleRequests_def handleBudget_def Some s' sc option.case qu qr q(3) id)
  qed
qed

definition sample_lib :: Lib where
  "sample_lib = \<lparr>uuid_text = unary, uuid_parse = of_unary, dec_text = (\<lambda>_. []), dec_parse = (\<lambda>_. None),
     show_time = format_rfc3339nano, err_text = (\<lambda>_. []), sha = id\<rparr>"

definition sample_server :: Server where
  "sample_server = \<lparr>sv_masterKey = ''m'', sv_maxDrainMS = 0, sv_maxQueryWindow = 0\<rparr>"

definition sample_api_request :: ApiRequest where
  "sample_api_request = \<lparr>ar_Request = \<lparr>rq_Authorization = ''Bearer k'', rq_Query = [], rq_Header = [], rq_Body = [],
     rq_Complete = True\<rparr>, ar_Values = [], ar_PathID = []\<rparr>"

definition sample_vk :: "uuid \<Rightarrow> string \<Rightarrow> virtual_key" where
  "sample_vk i h = \<lparr>vk_id = i, vk_hash = h, vk_prefix = ''cl_'', vk_label = ''l'', vk_metadata = [],
     vk_allowed_models = None, vk_disconnect_policy = ''cancel'', vk_drain_timeout_ms = None,
     vk_revoked_at = None, vk_created_at = 0\<rparr>"

definition sample_keyed :: "usage_record list \<Rightarrow> DB" where
  "sample_keyed us = sample_table\<lparr>virtual_keys := [sample_vk 7 ''k''], usage_records := usage_records sample_table @ us\<rparr>"

lemma virtual_key_sees_only_itself_witness:
  "handleUsage sample_lib id sample_server (\<lambda>_. None) 5000 (sample_keyed []) sample_api_request
     = handleUsage sample_lib id sample_server (\<lambda>_. None) 5000 (sample_keyed [sample_usage 9 8 None 3000]) sample_api_request"
proof -
  have "trim_space ''k'' = ''k''" by (rule trim_space_plain) (simp_all add: plain_char_def)
  moreover have "cut '' '' ''Bearer k'' = Some (''Bearer'', ''k'')" "to_lower ''Bearer'' = ''bearer''" by code_simp+
  ultimately have "BearerToken (ar_Request sample_api_request) = Some ''k''"
    by (simp add: BearerToken_def sample_api_request_def)
  moreover have "\<not> VerifyMaster (sha sample_lib) (sv_masterKey sample_server) ''k''"
    "find (\<lambda>vk. vk_hash vk = Hash (sha sample_lib) ''k'') (virtual_keys (sample_keyed [])) = Some (sample_vk 7 ''k'')"
    "own_view (Hash (sha sample_lib) ''k'') (vk_id (sample_vk 7 ''k'')) (sample_keyed [])
       = own_view (Hash (sha sample_lib) ''k'') (vk_id (sample_vk 7 ''k'')) (sample_keyed [sample_usage 9 8 None 3000])"
    by code_simp+
  ultimately show ?thesis using virtual_key_sees_only_itself by blast
qed

end
