(* ===== verification/Sse.thy ===== *)
theory Sse
  imports Json
begin

text \<open>
  Package \<open>proxy\<close>, file \<open>sse.go\<close>: cutting a provider's byte stream into server-sent-event frames.

  The stream is the bytes the provider sends before it ends. The lemmas show that the frames put
  together are the stream, byte for byte, as long as no frame is over the size cap; that every frame
  is within the cap; and that a frame over the cap loses bytes.
\<close>

subsection \<open>Lines\<close>

definition newline :: char where "newline = CHR 0x0A"
definition creturn :: char where "creturn = CHR 0x0D"

text \<open>\<open>ReadBytes('\n')\<close>: the next line with its terminator, and the rest of the stream.\<close>

definition split_line :: "string \<Rightarrow> string \<times> string" where
  "split_line bs =
     (let l = takeWhile (\<lambda>c. c \<noteq> newline) bs; r = dropWhile (\<lambda>c. c \<noteq> newline) bs
      in (l @ take 1 r, drop 1 r))"

lemma split_line_append: "split_line bs = (l, r) \<Longrightarrow> l @ r = bs"
  by (auto simp: split_line_def Let_def takeWhile_dropWhile_id [symmetric]
      simp del: takeWhile_dropWhile_id) (metis append_take_drop_id takeWhile_dropWhile_id)

lemma split_line_nonempty: "split_line bs = (l, r) \<Longrightarrow> bs \<noteq> [] \<Longrightarrow> l \<noteq> []"
  by (cases bs) (auto simp: split_line_def Let_def split: if_splits)

lemma split_line_shorter: "split_line bs = (l, r) \<Longrightarrow> bs \<noteq> [] \<Longrightarrow> length r < length bs"
  using split_line_append split_line_nonempty by fastforce

definition isBlankLine :: "string \<Rightarrow> bool" where
  "isBlankLine line \<longleftrightarrow> dropWhile (\<lambda>c. c = newline \<or> c = creturn) (rev line) = []"

subsection \<open>Frames\<close>

definition MaxFrameBytes :: nat where "MaxFrameBytes = 1048576"

record Frame =
  Raw :: string
  Event :: string
  Data :: "string option"
  Oversized :: bool

fun split_on :: "char \<Rightarrow> string \<Rightarrow> string list" where
  "split_on c [] = [[]]"
| "split_on c (x # xs) =
     (if x = c then [] # split_on c xs
      else case split_on c xs of [] \<Rightarrow> [[x]] | y # ys \<Rightarrow> (x # y) # ys)"

definition frame_line :: "string \<Rightarrow> Frame \<Rightarrow> Frame" where
  "frame_line line0 f =
     (let line = trim_suffix [creturn] line0
      in if has_prefix ''data:'' line then
           (let v = trim_prefix '' '' (trim_prefix ''data:'' line)
            in f\<lparr>Data := (case Data f of None \<Rightarrow> Some v | Some d \<Rightarrow> Some (d @ [newline] @ v))\<rparr>)
         else if has_prefix ''event:'' line then f\<lparr>Event := trim_space (trim_prefix ''event:'' line)\<rparr>
         else f)"

definition frame :: "string \<Rightarrow> bool \<Rightarrow> Frame" where
  "frame raw oversized =
     fold frame_line (split_on newline raw) \<lparr>Raw = raw, Event = [], Data = None, Oversized = oversized\<rparr>"

definition data_bytes :: "Frame \<Rightarrow> string" where
  "data_bytes f = (case Data f of None \<Rightarrow> [] | Some d \<Rightarrow> d)"

definition IsDone :: "Frame \<Rightarrow> bool" where
  "IsDone f \<longleftrightarrow> trim_space (data_bytes f) = ''[DONE]''"

text \<open>
  The loop of \<open>Next\<close> with the bytes of the stream still unread and the buffer: the frame, or None at the
  end of the stream, and what is left.
\<close>

function Next_loop :: "string \<Rightarrow> string \<Rightarrow> Frame option \<times> string" where
  "Next_loop bs buf =
     (if bs = [] then (if buf \<noteq> [] then (Some (frame buf False), []) else (None, []))
      else (case split_line bs of (line, rest) \<Rightarrow>
        if length buf + length line > MaxFrameBytes
        then (Some (frame (buf @ take (min (length line) (MaxFrameBytes - length buf)) line) True), rest)
        else if isBlankLine line \<and> buf \<noteq> [] then (Some (frame (buf @ line) False), rest)
        else Next_loop rest (buf @ line)))"
  by pat_completeness auto
termination
  by (relation "measure (\<lambda>(bs, buf). length bs)") (auto dest: split_line_shorter [OF sym])

declare Next_loop.simps [simp del]

definition Next :: "string \<Rightarrow> Frame option \<times> string" where
  "Next bs = Next_loop bs []"

lemma Raw_frame_line [simp]: "Raw (frame_line l f) = Raw f" "Oversized (frame_line l f) = Oversized f"
  by (simp_all add: frame_line_def Let_def)

lemma Raw_frame [simp]: "Raw (frame raw ov) = raw" "Oversized (frame raw ov) = ov"
proof -
  have "Raw (fold frame_line ls f) = Raw f \<and> Oversized (fold frame_line ls f) = Oversized f" for ls f
    by (induction ls arbitrary: f) auto
  then show "Raw (frame raw ov) = raw" "Oversized (frame raw ov) = ov" by (simp_all add: frame_def)
qed

lemma Next_loop_length:
  "Next_loop bs buf = (fr, rest) \<Longrightarrow> bs \<noteq> [] \<Longrightarrow> fr \<noteq> None \<and> length rest < length bs"
proof (induction bs buf rule: Next_loop.induct)
  case (1 bs buf)
  obtain l r where lr: "split_line bs = (l, r)" by (cases "split_line bs")
  note len = split_line_shorter [OF lr "1.prems"(2)]
  have "(Next_loop r (buf @ l) = (fr, rest) \<longrightarrow> fr \<noteq> None \<and> length rest \<le> length r)
      \<or> MaxFrameBytes < length buf + length l \<or> (isBlankLine l \<and> buf \<noteq> [])"
  proof (cases "r = []")
    case True
    have "buf @ l \<noteq> []" using split_line_nonempty [OF lr "1.prems"(2)] by simp
    with True show ?thesis by (auto simp: Next_loop.simps)
  next
    case False
    with "1.IH" [OF "1.prems"(2) lr [symmetric]] show ?thesis by (auto intro: less_imp_le)
  qed
  with "1.prems" lr len show ?case
    unfolding Next_loop.simps [of bs buf] by (auto split: if_splits)
qed

lemma Next_length: "Next bs = (fr, rest) \<Longrightarrow> bs \<noteq> [] \<Longrightarrow> length rest < length bs"
  using Next_loop_length by (simp add: Next_def)

lemma Next_Nil: "Next [] = (None, [])"
  by (simp add: Next_def Next_loop.simps)

lemma Next_shorter: "(Some f, rest) = Next bs \<Longrightarrow> length rest < length bs"
  by (cases "bs = []") (auto simp: Next_Nil dest: Next_length [OF sym])

text \<open>Every frame of a stream, up to its end.\<close>

function frames :: "string \<Rightarrow> Frame list" where
  "frames bs = (case Next bs of (None, _) \<Rightarrow> [] | (Some f, rest) \<Rightarrow> f # frames rest)"
  by pat_completeness auto
termination
  by (relation "measure length") (auto dest: Next_shorter)

declare frames.simps [simp del]

subsection \<open>The stream is preserved\<close>

lemma Next_loop_raw:
  "Next_loop bs buf = (Some f, rest) \<Longrightarrow> \<not> Oversized f \<Longrightarrow> Raw f @ rest = buf @ bs"
proof (induction bs buf rule: Next_loop.induct)
  case (1 bs buf)
  show ?case
  proof (cases "bs = []")
    case True
    with "1.prems" show ?thesis by (auto simp: Next_loop.simps split: if_splits)
  next
    case False
    obtain l r where lr: "split_line bs = (l, r)" by (cases "split_line bs")
    have app: "l @ r = bs" using lr by (rule split_line_append)
    from "1.prems" "1.IH" [OF False lr [symmetric]] lr False app show ?thesis
      by (subst (asm) Next_loop.simps) (auto split: if_splits)
  qed
qed

lemma Next_loop_cap:
  "Next_loop bs buf = (Some f, rest) \<Longrightarrow> length buf \<le> MaxFrameBytes \<Longrightarrow> length (Raw f) \<le> MaxFrameBytes"
proof (induction bs buf rule: Next_loop.induct)
  case (1 bs buf)
  obtain l r where lr: "split_line bs = (l, r)" by (cases "split_line bs")
  show ?case
  proof (cases "bs = []")
    case True
    with "1.prems" show ?thesis by (auto simp: Next_loop.simps split: if_splits)
  next
    case False
    from "1.prems" "1.IH" [OF False lr [symmetric]] lr False show ?thesis
      by (subst (asm) Next_loop.simps) (auto split: if_splits)
  qed
qed

lemma Next_None: "Next bs = (None, rest) \<Longrightarrow> bs = []"
  using Next_loop_length by (fastforce simp: Next_def)

lemma frames_concat: "(\<forall>f \<in> set (frames bs). \<not> Oversized f) \<Longrightarrow> concat (map Raw (frames bs)) = bs"
proof (induction bs rule: frames.induct)
  case (1 bs)
  obtain fr rest where n: "Next bs = (fr, rest)" by (cases "Next bs")
  show ?case
  proof (cases fr)
    case None
    with n Next_None [of bs rest] show ?thesis by (simp add: frames.simps)
  next
    case (Some f)
    then have fs: "frames bs = f # frames rest" using n by (simp add: frames.simps)
    have "Raw f @ rest = bs"
      using n Some "1.prems" fs Next_loop_raw [of bs "[]" f rest] by (simp add: Next_def)
    with "1.IH" [OF n [symmetric] Some] "1.prems" fs show ?thesis by simp
  qed
qed

lemma frames_cap: "f \<in> set (frames bs) \<Longrightarrow> length (Raw f) \<le> MaxFrameBytes"
proof (induction bs rule: frames.induct)
  case (1 bs)
  obtain fr rest where n: "Next bs = (fr, rest)" by (cases "Next bs")
  show ?case
  proof (cases fr)
    case None
    with n have "frames bs = []" by (simp add: frames.simps [of bs])
    with "1.prems" show ?thesis by simp
  next
    case (Some g)
    then have "f = g \<or> f \<in> set (frames rest)" using n "1.prems" by (simp add: frames.simps [of bs])
    moreover have "length (Raw g) \<le> MaxFrameBytes"
      using Next_loop_cap [of bs "[]" g rest] n Some by (simp add: Next_def)
    ultimately show ?thesis using "1.IH" [OF n [symmetric] Some] by blast
  qed
qed

subsection \<open>Properties\<close>


definition sample_tail :: string where
  "sample_tail = ''data: [DONE]'' @ [newline, newline]"

definition sample_chunk :: string where
  "sample_chunk = ''data: a'' @ [newline, newline]"

definition sample_stream :: string where
  "sample_stream = sample_chunk @ sample_tail"

lemma sample_Next:
  "Next sample_stream = (Some (frame sample_chunk False), sample_tail)"
  "Next sample_tail = (Some (frame sample_tail False), [])"
  by (simp_all add: Next_def sample_stream_def sample_chunk_def sample_tail_def Next_loop.simps split_line_def isBlankLine_def
      newline_def creturn_def MaxFrameBytes_def)

lemma sample_frames: "frames sample_stream
    = [frame sample_chunk False, frame sample_tail False]"
  by (simp add: frames.simps [of sample_stream] sample_Next frames.simps [of sample_tail]
      frames.simps [of "[]"] Next_Nil)


text \<open>A line longer than the cap loses its tail: the frame is cut and the reader goes on after the line.\<close>

theorem oversized_frame_loses_bytes:
  "frames (replicate (Suc MaxFrameBytes) CHR ''x'') = [frame (replicate MaxFrameBytes CHR ''x'') True]"
proof -
  let ?bs = "replicate (Suc MaxFrameBytes) CHR ''x''"
  have all: "\<forall>c \<in> set ?bs. c \<noteq> newline" by (simp add: newline_def)
  then have "takeWhile (\<lambda>c. c \<noteq> newline) ?bs = ?bs" "dropWhile (\<lambda>c. c \<noteq> newline) ?bs = []"
    by (simp_all only: takeWhile_eq_all_conv dropWhile_eq_Nil_conv)
  then have "split_line ?bs = (?bs, [])" by (simp only: split_line_def Let_def) simp
  moreover have "min (length ?bs) (MaxFrameBytes - length []) = MaxFrameBytes" by simp
  moreover have "take MaxFrameBytes ?bs = replicate MaxFrameBytes CHR ''x''"
    by (simp only: take_replicate) simp
  ultimately have "Next ?bs = (Some (frame (replicate MaxFrameBytes CHR ''x'') True), [])"
    unfolding Next_def by (subst Next_loop.simps) (simp del: replicate.simps)
  then show ?thesis by (simp add: frames.simps Next_Nil del: replicate.simps)
qed

end
