(* ===== verification/Pump.thy ===== *)
theory Pump
  imports Sse
begin

text \<open>
  Package \<open>proxy\<close>, files \<open>pump.go\<close> and \<open>semaphore.go\<close>: relaying a streamed response frame by frame,
  noticing a client that has gone, and draining.

  The provider's stream is its frames and how it ends. What the environment decides is a parameter:
  whether the client is seen to be gone at the \<open>n\<close>-th pass of the loop, whether the \<open>n\<close>-th write to it
  succeeds, whether a drain slot is free in time, and whether the response writer can flush. The stream
  translator has a state of its own type. Times and metrics are left out.

  The lemmas show that a same-dialect stream reaches a client that stays exactly as it arrived, less
  only the usage chunk the gateway asked for; that the provider's usage is read whenever it passes;
  and that without draining a departed client stops the provider call.
\<close>

subsection \<open>Semaphore (semaphore.go)\<close>

record ChannelSemaphore = slots :: nat  held :: nat

definition NewSemaphore :: "nat \<Rightarrow> ChannelSemaphore" where
  "NewSemaphore n = \<lparr>slots = n, held = 0\<rparr>"

text \<open>\<open>expires\<close>: the context ends before a slot becomes free.\<close>

definition Acquire :: "bool \<Rightarrow> ChannelSemaphore \<Rightarrow> (bool \<times> ChannelSemaphore) option" where
  "Acquire expires s =
     (if held s < slots s then Some (True, s\<lparr>held := held s + 1\<rparr>)
      else if expires then Some (False, s) else None)"

definition Release :: "ChannelSemaphore \<Rightarrow> ChannelSemaphore option" where
  "Release s = (if held s = 0 then None else Some (s\<lparr>held := held s - 1\<rparr>))"

subsection \<open>Options and result\<close>

record 's PumpOptions =
  CancelUpstream :: bool
  Drain :: bool
  DrainSlot :: bool
  StripUsageChunk :: bool
  ObserveUsage :: bool
  Translate :: "(string \<Rightarrow> string \<Rightarrow> 's \<Rightarrow> string list option \<times> 's) option"
  TrailingChunks :: "('s \<Rightarrow> string list) option"

text \<open>What happens around one call of \<open>Pump\<close>.\<close>

record Env =
  can_flush :: bool
  client_gone :: "nat \<Rightarrow> bool"
  write_ok :: "nat \<Rightarrow> bool"
  slot_free :: bool
  read_fails :: bool

record PumpResult =
  Chunks :: nat
  PR_ClientDisconnected :: bool
  Drained :: bool
  DrainTimedOut :: bool
  PR_ParseErrors :: nat
  SawDone :: bool

text \<open>
  The state of a call: the result so far, whether the writer is still set, the chunks the client
  received, the usage payloads observed, whether the provider call was cancelled, how many writes were
  tried, slots held, and the translator.
\<close>

record 's Pumping =
  res :: PumpResult
  writer :: bool
  written :: "string list"
  observed :: "string list"
  upstream_cancelled :: bool
  writes :: nat
  slot_held :: bool
  tr :: 's

datatype pump_error = CannotFlush | ReadingUpstream | NilSemaphore

definition encodeSSE :: "string \<Rightarrow> string" where
  "encodeSSE payload = ''data: '' @ payload @ [newline, newline]"

record usage_chunk = uc_Choices :: "json list"  uc_Usage :: "json option"

definition isInjectedUsageChunk :: "string \<Rightarrow> bool" where
  "isInjectedUsageChunk data =
     (case Unmarshal (dec_struct
             [(''choices'', dec_slice (\<lambda>xs s. s\<lparr>uc_Choices := xs\<rparr>) JNull (\<lambda>j _. Some j)),
              (''usage'', dec_raw (\<lambda>j s. s\<lparr>uc_Usage := Some j\<rparr>))])
             \<lparr>uc_Choices = [], uc_Usage = None\<rparr> (json_parse data) of
        None \<Rightarrow> False
      | Some c \<Rightarrow> uc_Choices c = [] \<and> uc_Usage c \<noteq> None)"

text \<open>The chunks of a frame, whether it could not be parsed, and the state after observing its usage.\<close>

definition renderFrame :: "'s PumpOptions \<Rightarrow> Frame \<Rightarrow> 's Pumping \<Rightarrow> string list \<times> bool \<times> 's Pumping" where
  "renderFrame opts f st =
     (case Translate opts of
        None \<Rightarrow>
          if isInjectedUsageChunk (data_bytes f) then
            (let st' = (if ObserveUsage opts then st\<lparr>observed := observed st @ [data_bytes f]\<rparr> else st)
             in if StripUsageChunk opts then ([], False, st') else ([Raw f], False, st'))
          else ([Raw f], False, st)
      | Some t \<Rightarrow>
          if trim_space (data_bytes f) = [] then ([], False, st)
          else (case t (Event f) (data_bytes f) (tr st) of
                  (None, s') \<Rightarrow> ([Raw f], True, st\<lparr>tr := s'\<rparr>)
                | (Some chunks, s') \<Rightarrow> (map encodeSSE chunks, False, st\<lparr>tr := s'\<rparr>)))"

definition writeChunk :: "Env \<Rightarrow> string \<Rightarrow> 's Pumping \<Rightarrow> bool \<times> 's Pumping" where
  "writeChunk env chunk st =
     (let st' = st\<lparr>writes := writes st + 1\<rparr>
      in if write_ok env (writes st) then (True, st'\<lparr>written := written st @ [chunk]\<rparr>) else (False, st'))"

definition cancel_upstream :: "'s PumpOptions \<Rightarrow> 's Pumping \<Rightarrow> 's Pumping" where
  "cancel_upstream opts st = (if CancelUpstream opts then st\<lparr>upstream_cancelled := True\<rparr> else st)"

text \<open>The loop over the chunks of a frame; True means that \<open>Pump\<close> returns.\<close>

fun write_chunks :: "'s PumpOptions \<Rightarrow> Env \<Rightarrow> string list \<Rightarrow> 's Pumping \<Rightarrow> bool \<times> 's Pumping" where
  "write_chunks opts env [] st = (False, st)"
| "write_chunks opts env (c # cs) st =
     (let st1 = st\<lparr>res := res st\<lparr>Chunks := Chunks (res st) + 1\<rparr>\<rparr>
      in if \<not> writer st1 then write_chunks opts env cs st1
         else (case writeChunk env c st1 of
           (True, st2) \<Rightarrow> write_chunks opts env cs st2
         | (False, st2) \<Rightarrow>
             (let st3 = st2\<lparr>res := res st2\<lparr>PR_ClientDisconnected := True\<rparr>, writer := False\<rparr>
              in if \<not> Drain opts then (True, cancel_upstream opts st3)
                 else write_chunks opts env cs st3)))"

fun write_trailing :: "Env \<Rightarrow> string list \<Rightarrow> 's Pumping \<Rightarrow> 's Pumping" where
  "write_trailing env [] st = st"
| "write_trailing env (c # cs) st =
     write_trailing env cs (snd (writeChunk env (encodeSSE c)
       (st\<lparr>res := res st\<lparr>Chunks := Chunks (res st) + 1\<rparr>\<rparr>)))"

definition done_chunk :: string where
  "done_chunk = ''data: [DONE]'' @ [newline, newline]"

definition writeTrailers :: "'s PumpOptions \<Rightarrow> Env \<Rightarrow> 's Pumping \<Rightarrow> 's Pumping" where
  "writeTrailers opts env st =
     (let st1 = (case TrailingChunks opts of None \<Rightarrow> st | Some g \<Rightarrow> write_trailing env (g (tr st)) st)
      in if Translate opts \<noteq> None \<and> \<not> SawDone (res st1)
         then (let st2 = snd (writeChunk env done_chunk st1)
               in st2\<lparr>res := res st2\<lparr>SawDone := True\<rparr>\<rparr>)
         else st1)"

text \<open>
  The check at the top of the loop: nothing, return, or carry on draining. A drain slot is released
  when \<open>Pump\<close> returns; releasing a nil one panics.
\<close>

datatype pump_check = Carry_on | Stop | Panic

definition checkClient :: "'s PumpOptions \<Rightarrow> Env \<Rightarrow> nat \<Rightarrow> 's Pumping \<Rightarrow> pump_check \<times> 's Pumping" where
  "checkClient opts env n st =
     (if writer st \<and> client_gone env n then
        (let st1 = st\<lparr>res := res st\<lparr>PR_ClientDisconnected := True\<rparr>, writer := False\<rparr>
         in if \<not> Drain opts then (Stop, cancel_upstream opts st1)
            else if \<not> DrainSlot opts then (Panic, st1)
            else if \<not> slot_free env then (Stop, cancel_upstream opts st1)
            else (Carry_on, st1\<lparr>res := res st1\<lparr>Drained := True\<rparr>, slot_held := True\<rparr>))
      else (Carry_on, st))"

fun Pump_loop :: "'s PumpOptions \<Rightarrow> Env \<Rightarrow> nat \<Rightarrow> Frame list \<Rightarrow> 's Pumping \<Rightarrow> pump_error option \<times> 's Pumping" where
  "Pump_loop opts env n fs st =
     (case checkClient opts env n st of
        (Stop, st1) \<Rightarrow> (None, st1)
      | (Panic, st1) \<Rightarrow> (Some NilSemaphore, st1)
      | (Carry_on, st1) \<Rightarrow>
        (case fs of
           [] \<Rightarrow> if read_fails env then (Some ReadingUpstream, st1)
                 else (None, if writer st1 then writeTrailers opts env st1 else st1)
         | f # fs' \<Rightarrow>
           (let r1 = res st1;
                r2 = (if Oversized f then r1\<lparr>PR_ParseErrors := PR_ParseErrors r1 + 1\<rparr> else r1);
                r3 = (if IsDone f then r2\<lparr>SawDone := True\<rparr> else r2)
            in case renderFrame opts f (st1\<lparr>res := r3\<rparr>) of (chunks, parseErr, st2) \<Rightarrow>
                 (let st3 = (if parseErr then st2\<lparr>res := res st2\<lparr>PR_ParseErrors := PR_ParseErrors (res st2) + 1\<rparr>\<rparr>
                             else st2)
                  in case write_chunks opts env chunks st3 of
                       (True, st4) \<Rightarrow> (None, st4)
                     | (False, st4) \<Rightarrow>
                         if IsDone f then (None, if writer st4 then writeTrailers opts env st4 else st4)
                         else Pump_loop opts env (Suc n) fs' st4))))"

declare Pump_loop.simps [simp del]

definition start_pump :: "'s \<Rightarrow> 's Pumping" where
  "start_pump s0 = \<lparr>res = \<lparr>Chunks = 0, PR_ClientDisconnected = False, Drained = False, DrainTimedOut = False,
       PR_ParseErrors = 0, SawDone = False\<rparr>,
     writer = True, written = [], observed = [], upstream_cancelled = False, writes = 0,
     slot_held = False, tr = s0\<rparr>"

definition Pump :: "'s PumpOptions \<Rightarrow> Env \<Rightarrow> 's \<Rightarrow> string \<Rightarrow> pump_error option \<times> 's Pumping" where
  "Pump opts env s0 body =
     (if \<not> can_flush env then (Some CannotFlush, start_pump s0)
      else (case Pump_loop opts env 0 (frames body) (start_pump s0) of
              (e, st) \<Rightarrow> (e, st\<lparr>slot_held := False\<rparr>)))"

subsection \<open>The same dialect\<close>

text \<open>The frames a call processes: up to the first \<open>[DONE]\<close>.\<close>

fun upto_done :: "Frame list \<Rightarrow> Frame list" where
  "upto_done [] = []"
| "upto_done (f # fs) = f # (if IsDone f then [] else upto_done fs)"

definition relayed :: "'s PumpOptions \<Rightarrow> Frame list \<Rightarrow> Frame list" where
  "relayed opts fs = filter (\<lambda>f. \<not> (StripUsageChunk opts \<and> isInjectedUsageChunk (data_bytes f))) (upto_done fs)"

definition usage_seen :: "'s PumpOptions \<Rightarrow> Frame list \<Rightarrow> string list" where
  "usage_seen opts fs =
     (if ObserveUsage opts then map data_bytes (filter (\<lambda>f. isInjectedUsageChunk (data_bytes f)) (upto_done fs)) else [])"

lemma relayed_simps:
  "relayed opts [] = []"
  "relayed opts (f # fs) =
     (if StripUsageChunk opts \<and> isInjectedUsageChunk (data_bytes f) then [] else [f])
     @ (if IsDone f then [] else relayed opts fs)"
  by (simp_all add: relayed_def)

lemma usage_seen_simps:
  "usage_seen opts [] = []"
  "usage_seen opts (f # fs) =
     (if ObserveUsage opts \<and> isInjectedUsageChunk (data_bytes f) then [data_bytes f] else [])
     @ (if IsDone f then [] else usage_seen opts fs)"
  by (simp_all add: usage_seen_def)

text \<open>The frame as the loop has accounted for it before its chunks are written.\<close>

definition noted :: "'s PumpOptions \<Rightarrow> Frame \<Rightarrow> 's Pumping \<Rightarrow> 's Pumping" where
  "noted opts f st =
     (let r1 = res st;
          r2 = (if Oversized f then r1\<lparr>PR_ParseErrors := PR_ParseErrors r1 + 1\<rparr> else r1);
          r3 = (if IsDone f then r2\<lparr>SawDone := True\<rparr> else r2)
      in st\<lparr>res := r3, observed := observed st @ usage_seen opts [f]\<rparr>)"

lemma single_simps:
  "relayed opts [f] = (if StripUsageChunk opts \<and> isInjectedUsageChunk (data_bytes f) then [] else [f])"
  "usage_seen opts [f] = (if ObserveUsage opts \<and> isInjectedUsageChunk (data_bytes f) then [data_bytes f] else [])"
  by (simp_all add: relayed_def usage_seen_def)

definition same_dialect :: "'s PumpOptions \<Rightarrow> bool" where
  "same_dialect opts \<longleftrightarrow> Translate opts = None \<and> TrailingChunks opts = None"

lemma same_dialect_trailers: "same_dialect opts \<Longrightarrow> writeTrailers opts env st = st"
  by (simp add: writeTrailers_def same_dialect_def)

lemma same_dialect_Nil:
  "same_dialect opts \<Longrightarrow> Pump_loop opts env n [] st =
     (case checkClient opts env n st of
        (Stop, st1) \<Rightarrow> (None, st1)
      | (Panic, st1) \<Rightarrow> (Some NilSemaphore, st1)
      | (Carry_on, st1) \<Rightarrow> (if read_fails env then Some ReadingUpstream else None, st1))"
  by (simp add: Pump_loop.simps same_dialect_trailers split: prod.split pump_check.split)

lemma same_dialect_render:
  "same_dialect opts \<Longrightarrow> renderFrame opts f (st\<lparr>res := r\<rparr>)
     = (map Raw (relayed opts [f]), False, st\<lparr>res := r, observed := observed st @ usage_seen opts [f]\<rparr>)"
  by (simp add: renderFrame_def same_dialect_def Let_def single_simps)

lemma same_dialect_Cons:
  assumes "same_dialect opts"
  shows "Pump_loop opts env n (f # fs) st =
     (case checkClient opts env n st of
        (Stop, st1) \<Rightarrow> (None, st1)
      | (Panic, st1) \<Rightarrow> (Some NilSemaphore, st1)
      | (Carry_on, st1) \<Rightarrow>
          (case write_chunks opts env (map Raw (relayed opts [f])) (noted opts f st1) of
             (True, st4) \<Rightarrow> (None, st4)
           | (False, st4) \<Rightarrow> if IsDone f then (None, st4) else Pump_loop opts env (Suc n) fs st4))"
  unfolding Pump_loop.simps [of opts env n "f # fs"]
  by (simp only: noted_def Let_def same_dialect_render [OF assms] same_dialect_trailers [OF assms]
      list.case prod.case if_cancel if_False)

lemma noted_simps [simp]:
  "written (noted opts f st) = written st" "writer (noted opts f st) = writer st"
  "writes (noted opts f st) = writes st" "upstream_cancelled (noted opts f st) = upstream_cancelled st"
  "observed (noted opts f st) = observed st @ usage_seen opts [f]"
  "PR_ClientDisconnected (res (noted opts f st)) = PR_ClientDisconnected (res st)"
  by (simp_all add: noted_def Let_def)

lemma cancel_upstream_simps [simp]:
  "written (cancel_upstream opts st) = written st" "writer (cancel_upstream opts st) = writer st"
  "observed (cancel_upstream opts st) = observed st" "res (cancel_upstream opts st) = res st"
  "upstream_cancelled (cancel_upstream opts st) = (upstream_cancelled st \<or> CancelUpstream opts)"
  by (simp_all add: cancel_upstream_def)

text \<open>A client that stays gets every relayed frame, and the provider call is left alone.\<close>

lemma stays_loop:
  assumes "same_dialect opts" "\<forall>k. \<not> client_gone env k" "\<forall>k. write_ok env k"
  shows "writer st \<Longrightarrow> \<exists>st'. Pump_loop opts env n fs st
            = ((if read_fails env \<and> \<not> list_ex IsDone fs then Some ReadingUpstream else None), st')
          \<and> written st' = written st @ map Raw (relayed opts fs)
          \<and> observed st' = observed st @ usage_seen opts fs
          \<and> upstream_cancelled st' = upstream_cancelled st
          \<and> PR_ClientDisconnected (res st') = PR_ClientDisconnected (res st)"
proof (induction fs arbitrary: n st)
  case Nil
  with assms show ?case
    by (simp add: same_dialect_Nil checkClient_def relayed_simps usage_seen_simps)
next
  case (Cons f fs)
  have "checkClient opts env n st = (Carry_on, st)" using assms by (simp add: checkClient_def)
  moreover obtain st4 where st4: "write_chunks opts env (map Raw (relayed opts [f])) (noted opts f st) = (False, st4)"
    "writer st4" "written st4 = written st @ map Raw (relayed opts [f])"
    "observed st4 = observed st @ usage_seen opts [f]"
    "upstream_cancelled st4 = upstream_cancelled st"
    "PR_ClientDisconnected (res st4) = PR_ClientDisconnected (res st)"
    using Cons.prems assms(3)
    by (cases "StripUsageChunk opts \<and> isInjectedUsageChunk (data_bytes f)") (simp_all add: writeChunk_def Let_def single_simps)
  ultimately have "Pump_loop opts env n (f # fs) st =
      (if IsDone f then (None, st4) else Pump_loop opts env (Suc n) fs st4)"
    by (simp add: same_dialect_Cons [OF assms(1)])
  with st4 Cons.IH [of st4 "Suc n"] show ?case by (auto simp: relayed_simps usage_seen_simps single_simps)
qed

text \<open>The three ways of writing a frame: delivered (or stripped), nobody there, or the write failed.\<close>

lemma frame_write_cases:
  assumes "write_chunks opts env (map Raw (relayed opts [f])) st = (stop, st')"
  obtains
    (delivered) "writer st" "writer st'" "\<not> stop" "written st' = written st @ map Raw (relayed opts [f])"
      "upstream_cancelled st' = upstream_cancelled st" "observed st' = observed st"
      "PR_ClientDisconnected (res st') = PR_ClientDisconnected (res st)"
  | (away) "\<not> writer st" "\<not> writer st'" "\<not> stop" "written st' = written st"
      "upstream_cancelled st' = upstream_cancelled st" "observed st' = observed st"
      "PR_ClientDisconnected (res st') = PR_ClientDisconnected (res st)"
  | (failed) "writer st" "\<not> writer st'" "stop \<longleftrightarrow> \<not> Drain opts" "written st' = written st"
      "upstream_cancelled st' = (upstream_cancelled st \<or> \<not> Drain opts \<and> CancelUpstream opts)"
      "observed st' = observed st" "PR_ClientDisconnected (res st')"
  using assms
  by (cases "StripUsageChunk opts \<and> isInjectedUsageChunk (data_bytes f)"; cases "writer st";
      cases "write_ok env (writes st)"; cases "Drain opts")
    (auto simp: writeChunk_def Let_def single_simps)

lemma check_cases:
  assumes "checkClient opts env n st = (c, st1)"
  obtains
    (present) "c = Carry_on" "st1 = st" "\<not> (writer st \<and> client_gone env n)"
  | (gone) "writer st" "client_gone env n" "\<not> writer st1" "written st1 = written st" "observed st1 = observed st"
      "PR_ClientDisconnected (res st1)" "c = Stop \<Longrightarrow> CancelUpstream opts \<Longrightarrow> upstream_cancelled st1"
      "Drain opts \<Longrightarrow> DrainSlot opts \<Longrightarrow> slot_free env \<Longrightarrow> c = Carry_on" "\<not> Drain opts \<Longrightarrow> c = Stop"
  using assms by (auto simp: checkClient_def Let_def split: if_splits)

text \<open>Whatever the client does, it has received a prefix of that, and nothing after it left.\<close>

lemma prefix_loop:
  assumes "same_dialect opts"
  shows "Pump_loop opts env n fs st = (e, st')
     \<Longrightarrow> \<exists>k. written st' = written st @ (if writer st then take k (map Raw (relayed opts fs)) else [])"
proof (induction fs arbitrary: n st)
  case Nil
  then have "written st' = written st"
    by (auto simp: same_dialect_Nil [OF assms] checkClient_def Let_def split: if_splits)
  then show ?case by (auto intro: exI [of _ 0])
next
  case (Cons f fs)
  note eq = Cons.prems [unfolded same_dialect_Cons [OF assms]]
  obtain c st1 where c: "checkClient opts env n st = (c, st1)" by (cases "checkClient opts env n st")
  then have w1: "written st1 = written st" "writer st1 \<Longrightarrow> writer st" by (auto elim: check_cases)
  show ?case
  proof (cases "c = Carry_on")
    case False
    with eq c w1 have "written st' = written st" by (cases c) auto
    then show ?thesis by (auto intro: exI [of _ 0])
  next
    case True
    obtain stop st4 where w: "write_chunks opts env (map Raw (relayed opts [f])) (noted opts f st1) = (stop, st4)"
      by (cases "write_chunks opts env (map Raw (relayed opts [f])) (noted opts f st1)")
    with eq c True have eq': "(if stop \<or> IsDone f then (None, st4) else Pump_loop opts env (Suc n) fs st4) = (e, st')"
      by (cases stop) (auto split: if_splits)
    from w show ?thesis
    proof (cases rule: frame_write_cases)
      case delivered
      let ?l = "length (relayed opts [f])"
      show ?thesis
      proof (cases "IsDone f")
        case True
        with delivered eq' w1 show ?thesis by (auto simp: relayed_simps single_simps intro!: exI [of _ ?l])
      next
        case False
        with delivered eq' Cons.IH [of "Suc n" st4] obtain k
          where "written st' = written st4 @ take k (map Raw (relayed opts fs))" by auto
        with delivered w1 False show ?thesis
          by (intro exI [of _ "?l + k"]) (auto simp: relayed_simps(2) [of opts f fs] single_simps)
      qed
    next
      case away
      with eq' Cons.IH [of "Suc n" st4] w1 have "written st' = written st" by (auto split: if_splits)
      then show ?thesis by (auto intro: exI [of _ 0])
    next
      case failed
      with eq' Cons.IH [of "Suc n" st4] w1 have "written st' = written st" by (auto split: if_splits)
      then show ?thesis by (auto intro: exI [of _ 0])
    qed
  qed
qed

text \<open>A draining call reads every usage chunk, whatever the client does.\<close>

lemma drain_loop:
  assumes "same_dialect opts" "Drain opts" "DrainSlot opts" "slot_free env"
  shows "\<exists>st'. Pump_loop opts env n fs st
            = ((if read_fails env \<and> \<not> list_ex IsDone fs then Some ReadingUpstream else None), st')
          \<and> observed st' = observed st @ usage_seen opts fs \<and> upstream_cancelled st' = upstream_cancelled st"
proof (induction fs arbitrary: n st)
  case Nil
  with assms show ?case by (simp add: same_dialect_Nil checkClient_def Let_def usage_seen_simps)
next
  case (Cons f fs)
  obtain st1 where c: "checkClient opts env n st = (Carry_on, st1)" "observed st1 = observed st"
    "upstream_cancelled st1 = upstream_cancelled st"
    using assms by (cases "writer st \<and> client_gone env n") (simp_all add: checkClient_def Let_def)
  obtain stop st4 where w: "write_chunks opts env (map Raw (relayed opts [f])) (noted opts f st1) = (stop, st4)"
    by (cases "write_chunks opts env (map Raw (relayed opts [f])) (noted opts f st1)")
  then have w4: "\<not> stop" "observed st4 = observed st @ usage_seen opts [f]"
    "upstream_cancelled st4 = upstream_cancelled st"
    using c assms(2) by (auto elim: frame_write_cases)
  with c w have "Pump_loop opts env n (f # fs) st =
      (if IsDone f then (None, st4) else Pump_loop opts env (Suc n) fs st4)"
    by (simp add: same_dialect_Cons [OF assms(1)])
  with w4 Cons.IH [of "Suc n" st4] show ?case by (auto simp: usage_seen_simps single_simps)
qed

text \<open>Without draining, the provider call is cancelled exactly when the client was seen to leave.\<close>

lemma cancel_loop:
  assumes "same_dialect opts" "\<not> Drain opts" "CancelUpstream opts"
  shows "Pump_loop opts env n fs st = (e, st') \<Longrightarrow> writer st \<Longrightarrow> \<not> upstream_cancelled st
      \<Longrightarrow> \<not> PR_ClientDisconnected (res st)
      \<Longrightarrow> (upstream_cancelled st' \<longleftrightarrow> PR_ClientDisconnected (res st'))
        \<and> (\<forall>k < length (upto_done fs). client_gone env (n + k) \<longrightarrow> upstream_cancelled st' \<and> e = None)"
proof (induction fs arbitrary: n st)
  case Nil
  with assms show ?case
    by (auto simp: same_dialect_Nil checkClient_def Let_def split: if_splits)
next
  case (Cons f fs)
  note eq = Cons.prems(1) [unfolded same_dialect_Cons [OF assms(1)]]
  show ?case
  proof (cases "client_gone env n")
    case True
    with eq Cons.prems assms(2,3) show ?thesis by (auto simp: checkClient_def Let_def)
  next
    case False
    then have c: "checkClient opts env n st = (Carry_on, st)" by (simp add: checkClient_def)
    obtain stop st4 where w: "write_chunks opts env (map Raw (relayed opts [f])) (noted opts f st) = (stop, st4)"
      by (cases "write_chunks opts env (map Raw (relayed opts [f])) (noted opts f st)")
    with eq c have eq': "(if stop \<or> IsDone f then (None, st4) else Pump_loop opts env (Suc n) fs st4) = (e, st')"
      by (cases stop) (auto split: if_splits)
    have "stop \<Longrightarrow> upstream_cancelled st4 \<and> PR_ClientDisconnected (res st4)"
      and "\<not> stop \<Longrightarrow> writer st4 \<and> \<not> upstream_cancelled st4 \<and> \<not> PR_ClientDisconnected (res st4)"
      using w Cons.prems assms(2,3) by (auto elim: frame_write_cases)
    note stp = this
    show ?thesis
    proof (cases "stop \<or> IsDone f")
      case True
      with eq' stp False show ?thesis by (cases stop) auto
    next
      case going: False
      from going eq' stp have
        "Pump_loop opts env (Suc n) fs st4 = (e, st')" "writer st4" "\<not> upstream_cancelled st4"
        "\<not> PR_ClientDisconnected (res st4)" by simp_all
      note ih = Cons.IH [OF this]
      show ?thesis
      proof (intro conjI allI impI)
        show "upstream_cancelled st' \<longleftrightarrow> PR_ClientDisconnected (res st')" using ih by (rule conjunct1)
      next
        fix k assume k: "k < length (upto_done (f # fs))" "client_gone env (n + k)"
        with False going obtain j where "k = Suc j" "j < length (upto_done fs)" by (cases k) auto
        with k ih have "upstream_cancelled st' \<and> e = None" by auto
        then show "upstream_cancelled st'" "e = None" by auto
      qed
    qed
  qed
qed

subsection \<open>Semaphore\<close>

lemma semaphore_bounded:
  "held (NewSemaphore n) \<le> slots (NewSemaphore n)"
  "Acquire x s = Some (ok, s') \<Longrightarrow> held s \<le> slots s \<Longrightarrow> held s' \<le> slots s'"
  "Release s = Some s' \<Longrightarrow> held s \<le> slots s \<Longrightarrow> held s' \<le> slots s'"
  by (auto simp: NewSemaphore_def Acquire_def Release_def split: if_splits)

lemma release_undoes_acquire: "Acquire x s = Some (True, s') \<Longrightarrow> Release s' = Some s"
  by (auto simp: Acquire_def Release_def split: if_splits)

subsection \<open>Properties\<close>


definition sample_usage :: string where
  "sample_usage = ''{'' @ [CHR 0x22] @ ''usage'' @ [CHR 0x22] @ '':{}}''"

definition sample_opts :: "unit PumpOptions" where
  "sample_opts = \<lparr>CancelUpstream = True, Drain = False, DrainSlot = False, StripUsageChunk = True,
     ObserveUsage = True, Translate = None, TrailingChunks = None\<rparr>"

definition sample_env :: Env where
  "sample_env = \<lparr>can_flush = True, client_gone = (\<lambda>_. False), write_ok = (\<lambda>_. True), slot_free = False,
     read_fails = False\<rparr>"

definition sample_body :: string where
  "sample_body = encodeSSE sample_usage @ sample_stream"

lemma sample_body_frames:
  "frames sample_body = frame (encodeSSE sample_usage) False # frames sample_stream"
proof -
  have "Next sample_body = (Some (frame (encodeSSE sample_usage) False), sample_stream)"
    by (simp add: Next_def sample_body_def sample_usage_def encodeSSE_def sample_stream_def sample_chunk_def sample_tail_def
        Next_loop.simps split_line_def isBlankLine_def newline_def creturn_def MaxFrameBytes_def)
  then show ?thesis by (simp add: frames.simps [of sample_body])
qed

lemma sample_data:
  "data_bytes (frame (encodeSSE sample_usage) False) = sample_usage"
  "data_bytes (frame sample_chunk False) = ''a''"
  "data_bytes (frame sample_tail False) = ''[DONE]''"
  by code_simp+

lemma sample_injected:
  "isInjectedUsageChunk sample_usage" "\<not> isInjectedUsageChunk ''a''" "\<not> isInjectedUsageChunk ''[DONE]''"
  by code_simp+

lemma sample_done: "trim_space sample_usage \<noteq> ''[DONE]''" "trim_space ''a'' \<noteq> ''[DONE]''"
  "trim_space ''[DONE]'' = ''[DONE]''"
  by (simp_all add: trim_space_plain plain_char_def sample_usage_def)

lemma sample_upto_done: "upto_done (frames sample_body) = frames sample_body"
  by (simp add: sample_body_frames sample_frames IsDone_def sample_data sample_done)



definition drain_opts :: "unit PumpOptions" where
  "drain_opts = sample_opts\<lparr>Drain := True, DrainSlot := True\<rparr>"

definition gone_env :: Env where
  "gone_env = sample_env\<lparr>client_gone := (\<lambda>_. True), write_ok := (\<lambda>_. False), slot_free := True\<rparr>"


text \<open>
  Cancelling. Without draining, the provider call is cancelled exactly when the client was found to
  have left, by the context or by a failed write; and a client whose context has ended by the pass that
  would read one of the stream's frames is always found.
\<close>

theorem cancel_stops_provider:
  assumes "can_flush env" "Translate opts = None" "TrailingChunks opts = None"
    "\<not> Drain opts" "CancelUpstream opts" "Pump opts env s0 body = (e, st)"
  shows "(upstream_cancelled st \<longleftrightarrow> PR_ClientDisconnected (res st))
    \<and> (\<forall>k < length (upto_done (frames body)). client_gone env k \<longrightarrow> upstream_cancelled st \<and> e = None)"
proof -
  have sd: "same_dialect opts" using assms(2,3) by (simp add: same_dialect_def)
  obtain st1 where st1: "Pump_loop opts env 0 (frames body) (start_pump s0) = (e, st1)" "st = st1\<lparr>slot_held := False\<rparr>"
    using assms(1,6) by (auto simp: Pump_def split: prod.splits)
  from cancel_loop [OF sd assms(4,5) this(1)] this(2) show ?thesis by (simp add: start_pump_def) blast
qed

theorem cancel_stops_provider_witness:
  "upstream_cancelled (snd (Pump sample_opts gone_env () sample_body))"
proof -
  obtain e st where p: "Pump sample_opts gone_env () sample_body = (e, st)"
    by (cases "Pump sample_opts gone_env () sample_body")
  have "0 < length (upto_done (frames sample_body))" unfolding sample_upto_done by (simp add: sample_body_frames)
  moreover have "client_gone gone_env 0" by (simp add: gone_env_def)
  ultimately have "upstream_cancelled st" using cancel_stops_provider [OF _ _ _ _ _ p]
    by (auto simp: gone_env_def sample_env_def sample_opts_def)
  with p show ?thesis by simp
qed

text \<open>
  A client that is noticed by a failing write rather than by its context is drained without a slot: the
  call reads on although no slot is free, and does not report that it drained.
\<close>

theorem failed_write_drains_without_slot:
  "let st = snd (Pump drain_opts (sample_env\<lparr>write_ok := (\<lambda>_. False)\<rparr>) () sample_body)
   in PR_ClientDisconnected (res st) \<and> \<not> Drained (res st) \<and> \<not> upstream_cancelled st \<and> Chunks (res st) = 2"
proof -
  have sd: "same_dialect drain_opts" by (simp add: same_dialect_def drain_opts_def sample_opts_def)
  have opts: "Drain drain_opts" "StripUsageChunk drain_opts" "ObserveUsage drain_opts"
    by (simp_all add: drain_opts_def sample_opts_def)
  show ?thesis
    by (simp add: Pump_def sample_body_frames sample_frames same_dialect_Cons [OF sd] checkClient_def
        sample_env_def start_pump_def noted_def single_simps sample_data sample_injected IsDone_def sample_done
        opts Let_def writeChunk_def)
qed

end
