(* ===== verification/Router.thy ===== *)
theory Router
  imports Api Pump Price_Estimate
begin

text \<open>
  Package \<open>provider\<close>, files \<open>provider.go\<close>, \<open>stream.go\<close> and \<open>router.go\<close>, and the models endpoint
  \<open>proxy/models.go\<close>: what an upstream provider is to the proxy, and which one serves a model.

  A provider is a record of its operations, as the interface is: calling one is the upstream's answer
  to the request, and None is a panic. A stream brings the bytes the provider will send and, where the
  dialects differ, a translator with its own state.
\<close>

subsection \<open>Providers (provider.go, stream.go)\<close>

text \<open>A quoted name, for names of printing characters other than the quote and the backslash.\<close>

definition quoted :: "string \<Rightarrow> string" where
  "quoted s = [CHR 0x22] @ s @ [CHR 0x22]"

record ErrUnsupportedParameter =
  un_Parameter :: string
  un_Provider :: string
  un_Detail :: string

record ErrUpstream =
  eu_StatusCode :: int
  eu_Body :: string
  eu_RetryAfter :: string
  eu_Native :: bool

datatype provider_error = Unsupported ErrUnsupportedParameter | Upstream ErrUpstream | ProviderFailure string

record ProviderRequest =
  pr_Body :: string
  pr_Model :: string
  pr_Stream :: bool
  pr_MaxTokens :: int
  pr_PassthroughHeaders :: "(string \<times> string) list"

record ProviderResponse =
  pp_StatusCode :: int
  pp_Body :: string
  pp_ServedModel :: string
  pp_ProviderRequestID :: string
  pp_Counts :: counts
  pp_FinishReason :: string
  pp_Degraded :: bool
  pp_ParseErrors :: int
  pp_InjectedMaxTokens :: int

record 's Stream =
  sm_Body :: string
  sm_ServedModel :: string
  sm_ProviderRequestID :: string
  sm_Translate :: "(string \<Rightarrow> string \<Rightarrow> 's \<Rightarrow> string list option \<times> 's) option"
  sm_TrailingChunks :: "('s \<Rightarrow> string list) option"
  sm_Usage :: "('s \<Rightarrow> (string \<times> int) list \<times> bool) option"
  sm_InjectedMaxTokens :: int
  sm_ClientWantsUsage :: bool
  sm_ClosedCleanly :: "('s \<Rightarrow> bool) option"
  sm_UsageIsCumulative :: bool
  sm_state :: 's

record 's Provider =
  pv_Name :: string
  pv_Complete :: "ProviderRequest \<Rightarrow> (provider_error + ProviderResponse) option"
  pv_Stream :: "(ProviderRequest \<Rightarrow> (provider_error + 's Stream) option) option"

definition AsUnsupported :: "provider_error \<Rightarrow> ErrUnsupportedParameter option" where
  "AsUnsupported e = (case e of Unsupported u \<Rightarrow> Some u | _ \<Rightarrow> None)"

definition AsUpstream :: "provider_error \<Rightarrow> ErrUpstream option" where
  "AsUpstream e = (case e of Upstream u \<Rightarrow> Some u | _ \<Rightarrow> None)"

subsection \<open>Routing (router.go)\<close>

record 's Router =
  providers :: "(string \<times> 's Provider) list"
  modelProvider :: "(string \<times> string) list"

definition NewRouter :: "'s Provider list \<Rightarrow> 's Router" where
  "NewRouter ps = \<lparr>providers = fold (\<lambda>p m. AList.update (pv_Name p) p m) ps [], modelProvider = []\<rparr>"

definition SetModelProviders :: "(string \<times> string) list \<Rightarrow> 's Router \<Rightarrow> 's Router" where
  "SetModelProviders mapping r =
     r\<lparr>modelProvider := fold (\<lambda>(model, name) m. AList.update model name m) mapping []\<rparr>"

text \<open>None is \<open>ErrNoProvider\<close>.\<close>

definition Route :: "'s Router \<Rightarrow> string \<Rightarrow> ('s Provider \<times> string) option" where
  "Route r model =
     (case cut ''/'' model of
        Some (name, bare) \<Rightarrow> map_option (\<lambda>p. (p, bare)) (map_of (providers r) name)
      | None \<Rightarrow>
        (case map_of (modelProvider r) model of
           None \<Rightarrow> None
         | Some name \<Rightarrow> map_option (\<lambda>p. (p, model)) (map_of (providers r) name)))"

definition Models :: "'s Router \<Rightarrow> (string \<times> string) list" where
  "Models r = filter (\<lambda>(model, name). map_of (providers r) name \<noteq> None) (modelProvider r)"

subsection \<open>The models endpoint (proxy/models.go)\<close>

text \<open>Names of models and providers are byte strings; Go orders them byte by byte.\<close>

fun str_less_eq :: "string \<Rightarrow> string \<Rightarrow> bool" where
  "str_less_eq [] _ = True"
| "str_less_eq (_ # _) [] = False"
| "str_less_eq (c # cs) (d # ds) = (c < d \<or> (c = d \<and> str_less_eq cs ds))"

fun insert_entry :: "string \<times> string \<Rightarrow> (string \<times> string) list \<Rightarrow> (string \<times> string) list" where
  "insert_entry e [] = [e]"
| "insert_entry e (x # xs) = (if str_less_eq (fst e) (fst x) then e # x # xs else x # insert_entry e xs)"

definition model_entries :: "'s Router \<Rightarrow> Table \<Rightarrow> time \<Rightarrow> (string \<times> string) list" where
  "model_entries r t now =
     foldr insert_entry (filter (\<lambda>(model, name). HasActivePrice t model name now) (Models r)) []"

definition entry_json :: "string \<times> string \<Rightarrow> json" where
  "entry_json e = JObj [(''id'', JStr (fst e)), (''object'', JStr ''model''), (''created'', JNum ''0''),
     (''owned_by'', JStr (snd e))]"

definition ModelsHandler :: "'s Router \<Rightarrow> Table \<Rightarrow> time \<Rightarrow> HttpRequest \<Rightarrow> HttpResponse" where
  "ModelsHandler r t now req =
     (case BearerToken req of
        None \<Rightarrow> WriteError 401 ErrorTypeInvalidAPIKey
          ''a credential is required in the Authorization header'' new_response
      | Some _ \<Rightarrow> WriteJSON 200 (JObj [(''object'', JStr ''list''),
          (''data'', JArr (map entry_json (model_entries r t now)))]) new_response)"

subsection \<open>Facts\<close>

lemma NewRouter_names: "map_of (providers (NewRouter ps)) name = Some p \<Longrightarrow> pv_Name p = name"
proof -
  define named where "named m \<longleftrightarrow> (\<forall>n (q :: 'a Provider). map_of m n = Some q \<longrightarrow> pv_Name q = n)" for m
  have "named (AList.update (pv_Name q) q m)" if "named m" for q m
    unfolding named_def
  proof (intro allI impI)
    fix n x assume "map_of (AList.update (pv_Name q) q m) n = Some x"
    then have "n = pv_Name q \<and> x = q \<or> map_of m n = Some x" by (auto simp: update_conv' split: if_splits)
    with that show "pv_Name x = n" unfolding named_def by blast
  qed
  note step = this
  have "named m \<Longrightarrow> named (fold (\<lambda>p m. AList.update (pv_Name p) p m) ps m)" for m
  proof (induction ps arbitrary: m)
    case (Cons p ps)
    from Cons.IH [OF step [OF Cons.prems]] show ?case by simp
  qed simp
  moreover have "named []" by (simp add: named_def)
  ultimately have "named (providers (NewRouter ps))" unfolding NewRouter_def by simp
  then show "map_of (providers (NewRouter ps)) name = Some p \<Longrightarrow> pv_Name p = name"
    unfolding named_def by blast
qed

lemma SetModelProviders_go_map: "go_map (modelProvider (SetModelProviders mapping r))"
proof -
  have "go_map m \<Longrightarrow> go_map (fold (\<lambda>(model, name) m. AList.update model name m) mapping m)" for m :: "(string \<times> string) list"
    by (induction mapping arbitrary: m) auto
  then show ?thesis by (simp add: SetModelProviders_def)
qed

lemma SetModelProviders_providers [simp]: "providers (SetModelProviders mapping r) = providers r"
  by (simp add: SetModelProviders_def)

lemma set_insert_entry [simp]: "set (insert_entry e xs) = insert e (set xs)"
  by (induction xs) auto

lemma set_model_entries:
  "set (model_entries r t now) = {(m, p) \<in> set (Models r). HasActivePrice t m p now}"
proof -
  have "set (foldr insert_entry xs []) = set xs" for xs by (induction xs) auto
  then show ?thesis by (auto simp: model_entries_def)
qed

lemma str_less_eq_total: "str_less_eq a b \<or> str_less_eq b a"
  by (induction a b rule: str_less_eq.induct) auto

lemma str_less_eq_trans: "str_less_eq a b \<Longrightarrow> str_less_eq b c \<Longrightarrow> str_less_eq a c"
proof (induction a b arbitrary: c rule: str_less_eq.induct)
  case (3 x xs y ys)
  then show ?case by (cases c) auto
qed simp_all

lemma sorted_insert_entry:
  "sorted_wrt (\<lambda>a b. str_less_eq (fst a) (fst b)) xs \<Longrightarrow> sorted_wrt (\<lambda>a b. str_less_eq (fst a) (fst b)) (insert_entry e xs)"
proof (induction xs)
  case (Cons x xs)
  have "str_less_eq (fst x) (fst e)" if "\<not> str_less_eq (fst e) (fst x)"
    using that str_less_eq_total by blast
  with Cons show ?case by (auto dest: str_less_eq_trans)
qed simp

lemma sorted_model_entries: "sorted_wrt (\<lambda>a b. str_less_eq (fst a) (fst b)) (model_entries r t now)"
proof -
  have "sorted_wrt (\<lambda>a b. str_less_eq (fst a) (fst b)) (foldr insert_entry xs [])" for xs
    by (induction xs) (auto intro: sorted_insert_entry)
  then show ?thesis by (simp add: model_entries_def)
qed

lemma Route_prefix:
  "CHR ''/'' \<notin> set name \<Longrightarrow> Route r (name @ CHR ''/'' # bare) = map_option (\<lambda>p. (p, bare)) (map_of (providers r) name)"
  by (simp add: Route_def cut_char_append)

subsection \<open>Properties\<close>

text \<open>
  The models endpoint offers what the gateway serves. Of a router as it is built, the listed
  entries are in byte order and are exactly the models whose provider is configured and that have an
  active price; and each of them whose name has no slash, sent back in a request, is routed under that
  name to the provider the list says owns it.
\<close>

theorem models_are_served:
  assumes "r = SetModelProviders mapping (NewRouter ps)"
  shows "sorted_wrt (\<lambda>a b. str_less_eq (fst a) (fst b)) (model_entries r t now)
    \<and> (\<forall>m p. (m, p) \<in> set (model_entries r t now) \<longleftrightarrow>
         map_of (modelProvider r) m = Some p \<and> map_of (providers r) p \<noteq> None \<and> HasActivePrice t m p now)
    \<and> (\<forall>m p. (m, p) \<in> set (model_entries r t now) \<and> CHR ''/'' \<notin> set m \<longrightarrow>
         (\<exists>prov. Route r m = Some (prov, m) \<and> pv_Name prov = p))"
proof -
  have go: "go_map (modelProvider r)" using assms SetModelProviders_go_map by simp
  have ex: "(m, p) \<in> set (model_entries r t now) \<longleftrightarrow>
      map_of (modelProvider r) m = Some p \<and> map_of (providers r) p \<noteq> None \<and> HasActivePrice t m p now" for m p
    using go by (auto simp: set_model_entries Models_def)
  have "\<exists>prov. Route r m = Some (prov, m) \<and> pv_Name prov = p"
    if "(m, p) \<in> set (model_entries r t now)" "CHR ''/'' \<notin> set m" for m p
  proof -
    from that(1) obtain prov where "map_of (modelProvider r) m = Some p" "map_of (providers r) p = Some prov"
      unfolding ex by blast
    moreover from this have "pv_Name prov = p" using assms NewRouter_names [of ps p prov] by simp
    moreover have "cut ''/'' m = None" using that(2) by (simp add: cut_char_None)
    ultimately show ?thesis by (simp add: Route_def)
  qed
  then show ?thesis using sorted_model_entries ex by blast
qed

definition sample_provider :: "unit Provider" where
  "sample_provider = \<lparr>pv_Name = ''openai'', pv_Complete = (\<lambda>_. Some (Inl (ProviderFailure ''unreachable''))),
     pv_Stream = None\<rparr>"

definition sample_router :: "unit Router" where
  "sample_router = SetModelProviders [(''m'', ''openai'')] (NewRouter [sample_provider])"

theorem models_are_served_witness: "Route sample_router ''m'' = Some (sample_provider, ''m'')"
proof -
  have "(''m'', ''openai'') \<in> set (model_entries sample_router sample_table 7)"
    unfolding set_model_entries
    by (simp add: Models_def sample_router_def SetModelProviders_def NewRouter_def sample_provider_def
        HasActivePrice_def sample_rowsFor sample_rows_def sample_row_def Row_Covers_def)
  moreover have "CHR ''/'' \<notin> set ''m''" by simp
  ultimately obtain prov where "Route sample_router ''m'' = Some (prov, ''m'')" "pv_Name prov = ''openai''"
    using models_are_served [of sample_router "[(''m'', ''openai'')]" "[sample_provider]" sample_table 7] sample_router_def
    by meson
  moreover have "providers sample_router = [(''openai'', sample_provider)]"
    by (simp add: sample_router_def NewRouter_def sample_provider_def)
  ultimately show ?thesis by (auto simp: Route_def has_prefix_def split: option.splits if_splits)
qed

end
