(* ===== verification/Translate.thy ===== *)
theory Translate
  imports Thinking Normalise Json_Print
begin

text \<open>
  Package \<open>provider\<close>, files \<open>rawjson.go\<close>, \<open>openai.go\<close>, \<open>anthropic.go\<close> and \<open>google.go\<close>: a chat completion in
  each provider's dialect, and the answer back.

  A body is a string of bytes; it is decoded by \<open>json_parse\<close> and encoded by \<open>json_print\<close>. A member the code
  carries as raw text is printed from its document: the encoder keeps the escapes and the spelling of
  numbers of the original text, which denote the same document. A floating-point parameter likewise
  keeps its literal, where the encoder writes the shortest one of the same double. The HTTP client is a
  parameter: whether it accepts an address, and what came back for a call.
\<close>

subsection \<open>Objects\<close>

text \<open>A map is encoded with its members in the order of their names.\<close>

definition obj :: "(string \<times> json) list \<Rightarrow> json" where
  "obj kvs = JObj (sort_key fst kvs)"

definition int_json :: "int \<Rightarrow> json" where
  "int_json n = JNum (int_lit n)"

definition opt_member :: "string \<Rightarrow> json option \<Rightarrow> (string \<times> json) list" where
  "opt_member name v = (case v of None \<Rightarrow> [] | Some j \<Rightarrow> [(name, j)])"

text \<open>The double a literal denotes; a literal beyond the range of doubles is an error.\<close>

definition literal_value :: "string \<Rightarrow> rat" where
  "literal_value l =
     (let s1 = drop (length (n_sign l)) l; w = n_whole s1;
          s2 = drop (length w) s1; f = drop 1 (n_frac s2);
          s3 = drop (length (n_frac s2)) s2; x = drop 1 (n_exp s3);
          m = (case digits_value 0 (w @ f) of None \<Rightarrow> 0 | Some v \<Rightarrow> v);
          e = (case digits_value 0 (trim_prefix ''-'' (trim_prefix ''+'' x)) of None \<Rightarrow> 0 | Some v \<Rightarrow> v);
          p = (if has_prefix ''-'' x then - e else e) - int (length f);
          v = (if 0 \<le> p then of_int m * 10 ^ nat p else of_int m / 10 ^ nat (- p))
      in if n_sign l = [] then v else - v)"

definition dec_float :: "(string \<Rightarrow> 's \<Rightarrow> 's) \<Rightarrow> json \<Rightarrow> 's \<Rightarrow> 's option" where
  "dec_float put j s =
     (case j of
        JNull \<Rightarrow> Some s
      | JNum l \<Rightarrow> (case fround (literal_value l) of Fin _ \<Rightarrow> Some (put l s) | _ \<Rightarrow> None)
      | _ \<Rightarrow> None)"

text \<open>A pointer to a scalar.\<close>

definition dec_int_ptr :: "(int option \<Rightarrow> 's \<Rightarrow> 's) \<Rightarrow> json \<Rightarrow> 's \<Rightarrow> 's option" where
  "dec_int_ptr put = dec_ptr (\<lambda>_. None) put 0 (dec_int (\<lambda>n _. n))"

definition dec_float_ptr :: "(string option \<Rightarrow> 's \<Rightarrow> 's) \<Rightarrow> json \<Rightarrow> 's \<Rightarrow> 's option" where
  "dec_float_ptr put = dec_ptr (\<lambda>_. None) put ''0'' (dec_float (\<lambda>l _. l))"

definition dec_string_ptr :: "(string option \<Rightarrow> 's \<Rightarrow> 's) \<Rightarrow> json \<Rightarrow> 's \<Rightarrow> 's option" where
  "dec_string_ptr put = dec_ptr (\<lambda>_. None) put [] (dec_string (\<lambda>x _. x))"

subsection \<open>Editing a body (rawjson.go)\<close>

text \<open>
  None is a panic: a body that is the document null leaves the map nil, and a nil map cannot be assigned.
\<close>

definition not_an_object :: provider_error where
  "not_an_object = ProviderFailure ''provider: request body is not a JSON object''"

definition SetField :: "string \<Rightarrow> string \<Rightarrow> json \<Rightarrow> (provider_error + string) option" where
  "SetField body name v =
     (if trim_space body = [] then Some (Inr (json_print (obj [(name, v)])))
      else case raw_map (json_parse body) of
             None \<Rightarrow> Some (Inl not_an_object)
           | Some doc \<Rightarrow> if json_parse body = Some JNull then None
                         else Some (Inr (json_print (obj (AList.update name v doc)))))"

definition Field :: "string \<Rightarrow> string \<Rightarrow> json option" where
  "Field body name = (case raw_map (json_parse body) of None \<Rightarrow> None | Some doc \<Rightarrow> map_of doc name)"

text \<open>Go lists the names in no fixed order; here it is the order of the document.\<close>

definition FieldNames :: "string \<Rightarrow> provider_error + string list" where
  "FieldNames body = (case raw_map (json_parse body) of None \<Rightarrow> Inl not_an_object | Some doc \<Rightarrow> Inr (map fst doc))"

text \<open>The check both translators open with.\<close>

definition refuse_unsupported :: "string list \<Rightarrow> string \<Rightarrow> string \<Rightarrow> provider_error option" where
  "refuse_unsupported unsupported providerName body =
     (case FieldNames body of
        Inl e \<Rightarrow> Some e
      | Inr names \<Rightarrow>
        map_option (\<lambda>name. Unsupported \<lparr>un_Parameter = name, un_Provider = providerName, un_Detail = []\<rparr>)
          (find (\<lambda>name. name \<in> set unsupported) names))"

subsection \<open>Upstream calls\<close>

record HttpCall =
  hc_URL :: string
  hc_Header :: "(string \<times> string) list"
  hc_Body :: string

text \<open>\<open>hr_Complete\<close>: the body was read to its end.\<close>

record HttpReply =
  hr_StatusCode :: int
  hr_Header :: "(string \<times> string) list"
  hr_Body :: string
  hr_Complete :: bool

record Client =
  cl_accepts :: "string \<Rightarrow> bool"
  cl_Do :: "HttpCall \<Rightarrow> HttpReply option"

record ProviderOptions =
  op_BaseURL :: string
  op_APIKey :: string
  op_Client :: Client
  op_DefaultMaxTokens :: int

definition call_upstream :: "Client \<Rightarrow> string \<Rightarrow> string \<Rightarrow> (string \<times> string) list \<Rightarrow> (string \<times> string) list \<Rightarrow> string
    \<Rightarrow> provider_error + HttpReply" where
  "call_upstream cl name url own passthrough body =
     (if \<not> cl_accepts cl url then Inl (ProviderFailure ''provider: building request'')
      else case cl_Do cl \<lparr>hc_URL = url, hc_Header = fold (\<lambda>(n, v) h. AList.update n v h) passthrough own, hc_Body = body\<rparr> of
             None \<Rightarrow> Inl (ProviderFailure (''provider: calling '' @ name))
           | Some reply \<Rightarrow> Inr reply)"

definition upstream_error :: "bool \<Rightarrow> HttpReply \<Rightarrow> provider_error" where
  "upstream_error native reply = Upstream \<lparr>eu_StatusCode = hr_StatusCode reply, eu_Body = hr_Body reply,
     eu_RetryAfter = map_get [] (hr_Header reply) ''Retry-After'', eu_Native = native\<rparr>"

text \<open>The response before its usage is read, and after.\<close>

definition new_provider_response :: "HttpReply \<Rightarrow> string \<Rightarrow> ProviderResponse" where
  "new_provider_response reply id_header = \<lparr>pp_StatusCode = hr_StatusCode reply, pp_Body = [], pp_ServedModel = [],
     pp_ProviderRequestID = map_get [] (hr_Header reply) id_header, pp_Counts = [], pp_FinishReason = [],
     pp_Degraded = False, pp_ParseErrors = 0, pp_InjectedMaxTokens = 0\<rparr>"

definition metered :: "usage_error + Normalised \<Rightarrow> ProviderResponse \<Rightarrow> ProviderResponse" where
  "metered r out =
     (case r of
        Inl e \<Rightarrow> out\<lparr>pp_Degraded := True, pp_ParseErrors := pp_ParseErrors out + 1, pp_Counts := []\<rparr>
      | Inr n \<Rightarrow> out\<lparr>pp_Counts := Counts n, pp_Degraded := Degraded n, pp_ParseErrors := ParseErrors n\<rparr>)"

subsection \<open>OpenAI (openai.go, stream.go)\<close>

definition NewOpenAI :: "ProviderOptions \<Rightarrow> ProviderOptions" where
  "NewOpenAI opts = (if op_BaseURL opts = [] then opts\<lparr>op_BaseURL := ''https://api.openai.com''\<rparr> else opts)"

record openai_meta = om_Model :: string  om_Finish :: "string list"

definition dec_openai_meta :: "json \<Rightarrow> openai_meta \<Rightarrow> openai_meta option" where
  "dec_openai_meta = dec_struct
     [(''model'', dec_string (\<lambda>x s. s\<lparr>om_Model := x\<rparr>)),
      (''choices'', dec_slice (\<lambda>xs s. s\<lparr>om_Finish := xs\<rparr>) []
         (dec_struct [(''finish_reason'', dec_string (\<lambda>x _. x))]))]"

definition OpenAI_Complete :: "ProviderOptions \<Rightarrow> ProviderRequest \<Rightarrow> provider_error + ProviderResponse" where
  "OpenAI_Complete opts req =
     (case call_upstream (op_Client opts) ''openai'' (op_BaseURL opts @ ''/v1/chat/completions'')
             [(''Content-Type'', ''application/json''), (''Authorization'', ''Bearer '' @ op_APIKey opts)]
             (pr_PassthroughHeaders req) (pr_Body req) of
        Inl e \<Rightarrow> Inl e
      | Inr reply \<Rightarrow>
        if \<not> hr_Complete reply then Inl (ProviderFailure ''provider: reading openai response'')
        else if hr_StatusCode reply \<ge> 400 then Inl (upstream_error True reply)
        else (let out = metered (NormaliseOpenAI (json_parse (hr_Body reply)))
                    ((new_provider_response reply ''X-Request-Id'')\<lparr>pp_Body := hr_Body reply\<rparr>)
              in case Unmarshal dec_openai_meta \<lparr>om_Model = [], om_Finish = []\<rparr> (json_parse (hr_Body reply)) of
                   None \<Rightarrow> Inr out
                 | Some m \<Rightarrow> Inr (out\<lparr>pp_ServedModel := om_Model m,
                     pp_FinishReason := (case om_Finish m of [] \<Rightarrow> [] | f # _ \<Rightarrow> f)\<rparr>)))"

text \<open>\<open>include_usage\<close> of the stream options; a value of another type is an error.\<close>

definition include_usage :: "json \<Rightarrow> bool option" where
  "include_usage j = dec_struct [(''include_usage'', dec_bool (\<lambda>b _. b))] j False"

definition ClientAskedForUsage :: "string \<Rightarrow> bool" where
  "ClientAskedForUsage body =
     (case Field body ''stream_options'' of
        None \<Rightarrow> False
      | Some raw \<Rightarrow> (case include_usage raw of None \<Rightarrow> False | Some b \<Rightarrow> b))"

definition ensureIncludeUsage :: "string \<Rightarrow> (provider_error + (string \<times> bool)) option" where
  "ensureIncludeUsage body =
     (let clientAsked = (case Field body ''stream_options'' of
                           None \<Rightarrow> False
                         | Some raw \<Rightarrow> (case include_usage raw of None \<Rightarrow> False | Some b \<Rightarrow> b))
      in if clientAsked then Some (Inr (body, True))
         else case SetField body ''stream_options'' (obj [(''include_usage'', JBool True)]) of
                None \<Rightarrow> None
              | Some (Inl e) \<Rightarrow> Some (Inl e)
              | Some (Inr out) \<Rightarrow> Some (Inr (out, False)))"

subsection \<open>Anthropic requests (anthropic.go)\<close>

definition NewAnthropic :: "ProviderOptions \<Rightarrow> ProviderOptions" where
  "NewAnthropic opts =
     (let o1 = (if op_BaseURL opts = [] then opts\<lparr>op_BaseURL := ''https://api.anthropic.com''\<rparr> else opts)
      in if op_DefaultMaxTokens o1 = 0 then o1\<lparr>op_DefaultMaxTokens := 4096\<rparr> else o1)"

definition anthropicUnsupported :: "string list" where
  "anthropicUnsupported = [''logprobs'', ''top_logprobs'', ''n'', ''presence_penalty'', ''frequency_penalty'',
     ''logit_bias'', ''seed'', ''response_format'', ''modalities'', ''audio'']"

record anthropic_incoming =
  ai_Model :: string
  ai_Messages :: "json list"
  ai_MaxTokens :: "int option"
  ai_Temperature :: "string option"
  ai_TopP :: "string option"
  ai_Stop :: "json option"
  ai_Stream :: bool
  ai_Tools :: "json option"
  ai_ToolChoice :: "json option"
  ai_ReasoningEffort :: "string option"

definition zero_anthropic_incoming :: anthropic_incoming where
  "zero_anthropic_incoming = \<lparr>ai_Model = [], ai_Messages = [], ai_MaxTokens = None, ai_Temperature = None,
     ai_TopP = None, ai_Stop = None, ai_Stream = False, ai_Tools = None, ai_ToolChoice = None,
     ai_ReasoningEffort = None\<rparr>"

definition dec_anthropic_incoming :: "json \<Rightarrow> anthropic_incoming \<Rightarrow> anthropic_incoming option" where
  "dec_anthropic_incoming = dec_struct
     [(''model'', dec_string (\<lambda>x s. s\<lparr>ai_Model := x\<rparr>)),
      (''messages'', dec_slice (\<lambda>xs s. s\<lparr>ai_Messages := xs\<rparr>) JNull (dec_raw (\<lambda>j _. j))),
      (''max_tokens'', dec_int_ptr (\<lambda>n s. s\<lparr>ai_MaxTokens := n\<rparr>)),
      (''temperature'', dec_float_ptr (\<lambda>l s. s\<lparr>ai_Temperature := l\<rparr>)),
      (''top_p'', dec_float_ptr (\<lambda>l s. s\<lparr>ai_TopP := l\<rparr>)),
      (''stop'', dec_raw (\<lambda>j s. s\<lparr>ai_Stop := Some j\<rparr>)),
      (''stream'', dec_bool (\<lambda>b s. s\<lparr>ai_Stream := b\<rparr>)),
      (''tools'', dec_raw (\<lambda>j s. s\<lparr>ai_Tools := Some j\<rparr>)),
      (''tool_choice'', dec_raw (\<lambda>j s. s\<lparr>ai_ToolChoice := Some j\<rparr>)),
      (''reasoning_effort'', dec_string_ptr (\<lambda>x s. s\<lparr>ai_ReasoningEffort := x\<rparr>))]"

definition refused :: "string \<Rightarrow> string \<Rightarrow> string \<Rightarrow> provider_error" where
  "refused param providerName detail =
     Unsupported \<lparr>un_Parameter = param, un_Provider = providerName, un_Detail = detail\<rparr>"

record chat_message = cm_Role :: string  cm_Content :: "json option"

definition dec_chat_message :: "json \<Rightarrow> chat_message \<Rightarrow> chat_message option" where
  "dec_chat_message = dec_struct
     [(''role'', dec_string (\<lambda>x s. s\<lparr>cm_Role := x\<rparr>)),
      (''content'', dec_raw (\<lambda>j s. s\<lparr>cm_Content := Some j\<rparr>))]"

text \<open>The text of a system message: a missing content has no text, a null has the empty one.\<close>

definition content_text :: "json option \<Rightarrow> string option" where
  "content_text c = (case c of None \<Rightarrow> None | Some j \<Rightarrow> dec_string (\<lambda>x _. x) j [])"

definition blank_line :: string where "blank_line = [newline, newline]"

fun splitSystemMessages :: "json list \<Rightarrow> string \<Rightarrow> json list \<Rightarrow> provider_error + (string \<times> json list)" where
  "splitSystemMessages [] system rest = Inr (system, rest)"
| "splitSystemMessages (raw # raws) system rest =
     (case dec_chat_message raw \<lparr>cm_Role = [], cm_Content = None\<rparr> of
        None \<Rightarrow> Inl (ProviderFailure ''provider: parsing message'')
      | Some m \<Rightarrow>
        if cm_Role m \<noteq> ''system'' then splitSystemMessages raws system (rest @ [raw])
        else (case content_text (cm_Content m) of
                None \<Rightarrow> Inl (refused ''non-text system message'' ''anthropic'' [])
              | Some text \<Rightarrow>
                splitSystemMessages raws ((if system \<noteq> [] then system @ blank_line else system) @ text) rest))"

record chat_tool = ct_Type :: string  ct_Name :: string  ct_Description :: string  ct_Parameters :: "json option"

definition dec_chat_tool :: "json \<Rightarrow> chat_tool \<Rightarrow> chat_tool option" where
  "dec_chat_tool = dec_struct
     [(''type'', dec_string (\<lambda>x s. s\<lparr>ct_Type := x\<rparr>)),
      (''function'', dec_struct
         [(''name'', dec_string (\<lambda>x s. s\<lparr>ct_Name := x\<rparr>)),
          (''description'', dec_string (\<lambda>x s. s\<lparr>ct_Description := x\<rparr>)),
          (''parameters'', dec_raw (\<lambda>j s. s\<lparr>ct_Parameters := Some j\<rparr>))])]"

fun anthropic_tools :: "chat_tool list \<Rightarrow> provider_error + json list" where
  "anthropic_tools [] = Inr []"
| "anthropic_tools (t # ts) =
     (if ct_Type t \<noteq> [] \<and> ct_Type t \<noteq> ''function''
      then Inl (refused (''tool type '' @ ct_Type t) ''anthropic'' [])
      else (case anthropic_tools ts of
              Inl e \<Rightarrow> Inl e
            | Inr out \<Rightarrow> Inr (obj ([(''name'', JStr (ct_Name t)), (''description'', JStr (ct_Description t))]
                @ opt_member ''input_schema'' (ct_Parameters t)) # out)))"

definition translateTools :: "json \<Rightarrow> provider_error + json list" where
  "translateTools raw =
     (case dec_slice (\<lambda>xs _. xs) \<lparr>ct_Type = [], ct_Name = [], ct_Description = [], ct_Parameters = None\<rparr> dec_chat_tool raw [] of
        None \<Rightarrow> Inl (ProviderFailure ''provider: parsing tools'')
      | Some tools \<Rightarrow> anthropic_tools tools)"

text \<open>One string, several, or nil, which is encoded as null.\<close>

definition stopSequences :: "json \<Rightarrow> json" where
  "stopSequences raw =
     (case dec_string (\<lambda>x _. x) raw [] of
        Some single \<Rightarrow> JArr [JStr single]
      | None \<Rightarrow> (case dec_slice (\<lambda>xs _. xs) [] (dec_string (\<lambda>x _. x)) raw [] of
                   Some many \<Rightarrow> JArr (map JStr many)
                 | None \<Rightarrow> JNull))"

text \<open>\<open>*incoming.Temperature > 1\<close>.\<close>

definition above_one :: "string \<Rightarrow> bool" where
  "above_one l = (case fround (literal_value l) of Fin x \<Rightarrow> x > 1 | PInf \<Rightarrow> True | _ \<Rightarrow> False)"

text \<open>The document sent, in the order in which the code decides its members.\<close>

definition anthropic_members :: "anthropic_incoming \<Rightarrow> string \<Rightarrow> json list \<Rightarrow> json option \<Rightarrow> json option \<Rightarrow> int
    \<Rightarrow> (string \<times> json) list" where
  "anthropic_members inc system messages config tools defaultMaxTokens =
     [(''model'', JStr (ai_Model inc)), (''messages'', JArr messages)]
     @ (if system \<noteq> [] then [(''system'', JStr system)] else [])
     @ [(''max_tokens'', int_json (case ai_MaxTokens inc of Some n \<Rightarrow> n | None \<Rightarrow> defaultMaxTokens))]
     @ opt_member ''temperature'' (map_option JNum (ai_Temperature inc))
     @ opt_member ''top_p'' (map_option JNum (ai_TopP inc))
     @ opt_member ''stop_sequences'' (map_option stopSequences (ai_Stop inc))
     @ opt_member ''output_config'' config
     @ (if ai_Stream inc then [(''stream'', JBool True)] else [])
     @ opt_member ''tools'' tools"

definition anthropic_document :: "seed \<Rightarrow> anthropic_incoming \<Rightarrow> int \<Rightarrow> provider_error + (json \<times> int)" where
  "anthropic_document sd inc defaultMaxTokens =
     (case splitSystemMessages (ai_Messages inc) [] [] of
        Inl e \<Rightarrow> Inl e
      | Inr (system, messages) \<Rightarrow>
        if (case ai_Temperature inc of None \<Rightarrow> False | Some l \<Rightarrow> above_one l)
        then Inl (refused ''temperature above 1.0'' ''anthropic'' [])
        else (case (case ai_ReasoningEffort inc of
                      None \<Rightarrow> Inr None
                    | Some eff \<Rightarrow> (case AnthropicEffort sd (ai_Model inc) eff of
                        None \<Rightarrow> Inl (refused ''reasoning_effort'' ''anthropic''
                                  (thinkingRefusal sd ''anthropic'' (ai_Model inc) eff))
                      | Some level \<Rightarrow> Inr (Some (obj [(''effort'', JStr level)])))) of
                Inl e \<Rightarrow> Inl e
              | Inr config \<Rightarrow>
                (case (case ai_Tools inc of
                         None \<Rightarrow> Inr None
                       | Some raw \<Rightarrow> (case translateTools raw of Inl e \<Rightarrow> Inl e | Inr ts \<Rightarrow> Inr (Some (JArr ts)))) of
                   Inl e \<Rightarrow> Inl e
                 | Inr tools \<Rightarrow>
                   Inr (obj (anthropic_members inc system messages config tools defaultMaxTokens),
                       case ai_MaxTokens inc of Some _ \<Rightarrow> 0 | None \<Rightarrow> defaultMaxTokens))))"

definition TranslateAnthropicRequest :: "seed \<Rightarrow> string \<Rightarrow> int \<Rightarrow> provider_error + (string \<times> int)" where
  "TranslateAnthropicRequest sd body defaultMaxTokens =
     (case refuse_unsupported anthropicUnsupported ''anthropic'' body of
        Some e \<Rightarrow> Inl e
      | None \<Rightarrow>
        (case Unmarshal dec_anthropic_incoming zero_anthropic_incoming (json_parse body) of
           None \<Rightarrow> Inl (ProviderFailure ''provider: parsing request'')
         | Some inc \<Rightarrow>
           (case anthropic_document sd inc defaultMaxTokens of
              Inl e \<Rightarrow> Inl e
            | Inr (doc, injected) \<Rightarrow> Inr (json_print doc, injected))))"

subsection \<open>Anthropic responses\<close>

record anthropic_block =
  ab_Type :: string
  ab_Text :: string
  ab_ID :: string
  ab_Name :: string
  ab_Input :: "json option"

record anthropic_message =
  am_ID :: string
  am_Model :: string
  am_Content :: "anthropic_block list"
  am_StopReason :: string
  am_InputTokens :: int
  am_OutputTokens :: int

definition dec_anthropic_block :: "json \<Rightarrow> anthropic_block \<Rightarrow> anthropic_block option" where
  "dec_anthropic_block = dec_struct
     [(''type'', dec_string (\<lambda>x s. s\<lparr>ab_Type := x\<rparr>)), (''text'', dec_string (\<lambda>x s. s\<lparr>ab_Text := x\<rparr>)),
      (''id'', dec_string (\<lambda>x s. s\<lparr>ab_ID := x\<rparr>)), (''name'', dec_string (\<lambda>x s. s\<lparr>ab_Name := x\<rparr>)),
      (''input'', dec_raw (\<lambda>j s. s\<lparr>ab_Input := Some j\<rparr>))]"

definition dec_anthropic_message :: "json \<Rightarrow> anthropic_message \<Rightarrow> anthropic_message option" where
  "dec_anthropic_message = dec_struct
     [(''id'', dec_string (\<lambda>x s. s\<lparr>am_ID := x\<rparr>)), (''model'', dec_string (\<lambda>x s. s\<lparr>am_Model := x\<rparr>)),
      (''content'', dec_slice (\<lambda>xs s. s\<lparr>am_Content := xs\<rparr>)
         \<lparr>ab_Type = [], ab_Text = [], ab_ID = [], ab_Name = [], ab_Input = None\<rparr> dec_anthropic_block),
      (''stop_reason'', dec_string (\<lambda>x s. s\<lparr>am_StopReason := x\<rparr>)),
      (''usage'', dec_struct
         [(''input_tokens'', dec_int (\<lambda>n s. s\<lparr>am_InputTokens := n\<rparr>)),
          (''output_tokens'', dec_int (\<lambda>n s. s\<lparr>am_OutputTokens := n\<rparr>))])]"

text \<open>A nil raw message is encoded as null.\<close>

definition tool_call_json :: "anthropic_block \<Rightarrow> json" where
  "tool_call_json b = obj
     [(''id'', JStr (ab_ID b)), (''type'', JStr ''function''),
      (''function'', obj [(''name'', JStr (ab_Name b)),
         (''arguments'', JStr (json_print (case ab_Input b of None \<Rightarrow> JNull | Some j \<Rightarrow> j)))])]"

definition anyOrNil :: "string \<Rightarrow> json" where
  "anyOrNil s = (if s = [] then JNull else JStr s)"

definition response_finish :: "(string \<times> string) list \<Rightarrow> string \<Rightarrow> string" where
  "response_finish table reason = (let f = map_get [] table reason in if f = [] then ''stop'' else f)"

definition anthropic_finish_table :: "(string \<times> string) list" where
  "anthropic_finish_table = [(''end_turn'', ''stop''), (''max_tokens'', ''length''), (''stop_sequence'', ''stop''),
     (''tool_use'', ''tool_calls'')]"

definition usage_json :: "int \<Rightarrow> int \<Rightarrow> json" where
  "usage_json prompt completion = obj
     [(''prompt_tokens'', int_json prompt), (''completion_tokens'', int_json completion),
      (''total_tokens'', int_json (i64 (prompt + completion)))]"

definition anthropic_text :: "anthropic_block list \<Rightarrow> string" where
  "anthropic_text bs = concat (map ab_Text (filter (\<lambda>b. ab_Type b = ''text'') bs))"

definition anthropic_completion :: "anthropic_message \<Rightarrow> json" where
  "anthropic_completion m =
     (let calls = map tool_call_json (filter (\<lambda>b. ab_Type b = ''tool_use'') (am_Content m));
          message = obj ([(''role'', JStr ''assistant''), (''content'', anyOrNil (anthropic_text (am_Content m)))]
                      @ (if calls \<noteq> [] then [(''tool_calls'', JArr calls)] else []))
      in obj [(''id'', JStr (am_ID m)), (''object'', JStr ''chat.completion''), (''model'', JStr (am_Model m)),
              (''choices'', JArr [obj [(''index'', int_json 0), (''message'', message),
                 (''finish_reason'', JStr (response_finish anthropic_finish_table (am_StopReason m)))]]),
              (''usage'', usage_json (am_InputTokens m) (am_OutputTokens m))])"

definition zero_anthropic_message :: anthropic_message where
  "zero_anthropic_message = \<lparr>am_ID = [], am_Model = [], am_Content = [], am_StopReason = [],
     am_InputTokens = 0, am_OutputTokens = 0\<rparr>"

definition TranslateAnthropicResponse :: "string \<Rightarrow> provider_error + (string \<times> string \<times> string)" where
  "TranslateAnthropicResponse raw =
     (case Unmarshal dec_anthropic_message zero_anthropic_message (json_parse raw) of
        None \<Rightarrow> Inl (ProviderFailure ''provider: parsing anthropic response'')
      | Some m \<Rightarrow> Inr (json_print (anthropic_completion m), am_Model m,
          response_finish anthropic_finish_table (am_StopReason m)))"

definition anthropic_headers :: "ProviderOptions \<Rightarrow> (string \<times> string) list" where
  "anthropic_headers opts = [(''Content-Type'', ''application/json''), (''X-Api-Key'', op_APIKey opts),
     (''Anthropic-Version'', ''2023-06-01'')]"

definition Anthropic_Complete :: "seed \<Rightarrow> ProviderOptions \<Rightarrow> ProviderRequest \<Rightarrow> provider_error + ProviderResponse" where
  "Anthropic_Complete sd opts req =
     (case TranslateAnthropicRequest sd (pr_Body req) (op_DefaultMaxTokens opts) of
        Inl e \<Rightarrow> Inl e
      | Inr (translated, injected) \<Rightarrow>
        (case call_upstream (op_Client opts) ''anthropic'' (op_BaseURL opts @ ''/v1/messages'')
                (anthropic_headers opts) (pr_PassthroughHeaders req) translated of
           Inl e \<Rightarrow> Inl e
         | Inr reply \<Rightarrow>
           if \<not> hr_Complete reply then Inl (ProviderFailure ''provider: reading anthropic response'')
           else if hr_StatusCode reply \<ge> 400 then Inl (upstream_error False reply)
           else (let out = metered (NormaliseAnthropic (json_parse (hr_Body reply)))
                       ((new_provider_response reply ''Request-Id'')\<lparr>pp_InjectedMaxTokens := injected\<rparr>)
                 in case TranslateAnthropicResponse (hr_Body reply) of
                      Inl e \<Rightarrow> Inl e
                    | Inr (body, served, finish) \<Rightarrow>
                        Inr (out\<lparr>pp_Body := body, pp_ServedModel := served, pp_FinishReason := finish\<rparr>))))"

subsection \<open>Google requests (google.go)\<close>

definition NewGoogle :: "ProviderOptions \<Rightarrow> ProviderOptions" where
  "NewGoogle opts =
     (if op_BaseURL opts = [] then opts\<lparr>op_BaseURL := ''https://generativelanguage.googleapis.com''\<rparr> else opts)"

definition googleUnsupported :: "string list" where
  "googleUnsupported = [''logprobs'', ''top_logprobs'', ''n'', ''presence_penalty'', ''frequency_penalty'',
     ''logit_bias'', ''seed'', ''modalities'', ''audio'', ''thinkingConfig'', ''thinkingLevel'', ''thinking_level'',
     ''thinkingBudget'', ''thinking_budget'']"

record text_message = tx_Role :: string  tx_Content :: string

record google_incoming =
  gi_Messages :: "text_message list"
  gi_MaxTokens :: "int option"
  gi_Temperature :: "string option"
  gi_TopP :: "string option"
  gi_Stop :: "json option"
  gi_ReasoningEffort :: "string option"

definition zero_google_incoming :: google_incoming where
  "zero_google_incoming = \<lparr>gi_Messages = [], gi_MaxTokens = None, gi_Temperature = None, gi_TopP = None,
     gi_Stop = None, gi_ReasoningEffort = None\<rparr>"

definition dec_google_incoming :: "json \<Rightarrow> google_incoming \<Rightarrow> google_incoming option" where
  "dec_google_incoming = dec_struct
     [(''messages'', dec_slice (\<lambda>xs s. s\<lparr>gi_Messages := xs\<rparr>) \<lparr>tx_Role = [], tx_Content = []\<rparr>
         (dec_struct [(''role'', dec_string (\<lambda>x s. s\<lparr>tx_Role := x\<rparr>)),
                      (''content'', dec_string (\<lambda>x s. s\<lparr>tx_Content := x\<rparr>))])),
      (''max_tokens'', dec_int_ptr (\<lambda>n s. s\<lparr>gi_MaxTokens := n\<rparr>)),
      (''temperature'', dec_float_ptr (\<lambda>l s. s\<lparr>gi_Temperature := l\<rparr>)),
      (''top_p'', dec_float_ptr (\<lambda>l s. s\<lparr>gi_TopP := l\<rparr>)),
      (''stop'', dec_raw (\<lambda>j s. s\<lparr>gi_Stop := Some j\<rparr>)),
      (''reasoning_effort'', dec_string_ptr (\<lambda>x s. s\<lparr>gi_ReasoningEffort := x\<rparr>))]"

definition google_part :: "text_message \<Rightarrow> json" where
  "google_part m = JArr [obj [(''text'', JStr (tx_Content m))]]"

fun google_contents :: "text_message list \<Rightarrow> json list \<Rightarrow> json option \<Rightarrow> json list \<times> json option" where
  "google_contents [] contents system = (contents, system)"
| "google_contents (m # ms) contents system =
     (if tx_Role m = ''system'' then google_contents ms contents (Some (obj [(''parts'', google_part m)]))
      else google_contents ms
             (contents @ [obj [(''role'', JStr (if tx_Role m = ''assistant'' then ''model'' else tx_Role m)),
                               (''parts'', google_part m)]]) system)"

definition google_generation :: "google_incoming \<Rightarrow> json option \<Rightarrow> (string \<times> json) list" where
  "google_generation inc thinking =
     opt_member ''maxOutputTokens'' (map_option int_json (gi_MaxTokens inc))
     @ opt_member ''temperature'' (map_option JNum (gi_Temperature inc))
     @ opt_member ''topP'' (map_option JNum (gi_TopP inc))
     @ opt_member ''stopSequences'' (map_option stopSequences (gi_Stop inc))
     @ opt_member ''thinkingConfig'' thinking"

definition google_members :: "json list \<Rightarrow> json option \<Rightarrow> (string \<times> json) list \<Rightarrow> (string \<times> json) list" where
  "google_members contents system generation =
     [(''contents'', JArr contents)] @ opt_member ''systemInstruction'' system
     @ (if generation \<noteq> [] then [(''generationConfig'', obj generation)] else [])"

definition google_document :: "seed \<Rightarrow> google_incoming \<Rightarrow> string \<Rightarrow> provider_error + json" where
  "google_document sd inc model =
     (case google_contents (gi_Messages inc) [] None of
        (contents, system) \<Rightarrow>
        (case (case gi_ReasoningEffort inc of
                 None \<Rightarrow> Inr None
               | Some eff \<Rightarrow> (case GoogleThinkingLevel sd model eff of
                   None \<Rightarrow> Inl (refused ''reasoning_effort'' ''google'' (thinkingRefusal sd ''google'' model eff))
                 | Some level \<Rightarrow> Inr (Some (obj [(''thinkingLevel'', JStr level)])))) of
           Inl e \<Rightarrow> Inl e
         | Inr thinking \<Rightarrow>
           (let generation = google_generation inc thinking
            in Inr (obj (google_members contents system generation)))))"

definition TranslateGoogleRequest :: "seed \<Rightarrow> string \<Rightarrow> string \<Rightarrow> provider_error + string" where
  "TranslateGoogleRequest sd body model =
     (case refuse_unsupported googleUnsupported ''google'' body of
        Some e \<Rightarrow> Inl e
      | None \<Rightarrow>
        (case Unmarshal dec_google_incoming zero_google_incoming (json_parse body) of
           None \<Rightarrow> Inl (ProviderFailure ''provider: parsing request'')
         | Some inc \<Rightarrow> (case google_document sd inc model of Inl e \<Rightarrow> Inl e | Inr doc \<Rightarrow> Inr (json_print doc))))"

subsection \<open>Google responses\<close>

record google_candidate = gc_Parts :: "string list"  gc_FinishReason :: string

record google_message =
  gm_ModelVersion :: string
  gm_Candidates :: "google_candidate list"
  gm_Prompt :: int
  gm_CandidatesTokens :: int
  gm_Thoughts :: int

definition dec_google_candidate :: "json \<Rightarrow> google_candidate \<Rightarrow> google_candidate option" where
  "dec_google_candidate = dec_struct
     [(''content'', dec_struct
         [(''parts'', dec_slice (\<lambda>xs s. s\<lparr>gc_Parts := xs\<rparr>) [] (dec_struct [(''text'', dec_string (\<lambda>x _. x))]))]),
      (''finishReason'', dec_string (\<lambda>x s. s\<lparr>gc_FinishReason := x\<rparr>))]"

definition dec_google_message :: "json \<Rightarrow> google_message \<Rightarrow> google_message option" where
  "dec_google_message = dec_struct
     [(''modelVersion'', dec_string (\<lambda>x s. s\<lparr>gm_ModelVersion := x\<rparr>)),
      (''candidates'', dec_slice (\<lambda>xs s. s\<lparr>gm_Candidates := xs\<rparr>) \<lparr>gc_Parts = [], gc_FinishReason = []\<rparr> dec_google_candidate),
      (''usageMetadata'', dec_struct
         [(''promptTokenCount'', dec_int (\<lambda>n s. s\<lparr>gm_Prompt := n\<rparr>)),
          (''candidatesTokenCount'', dec_int (\<lambda>n s. s\<lparr>gm_CandidatesTokens := n\<rparr>)),
          (''thoughtsTokenCount'', dec_int (\<lambda>n s. s\<lparr>gm_Thoughts := n\<rparr>))])]"

definition google_finish_table :: "(string \<times> string) list" where
  "google_finish_table = [(''STOP'', ''stop''), (''MAX_TOKENS'', ''length''), (''SAFETY'', ''content_filter''),
     (''RECITATION'', ''content_filter'')]"

definition google_text :: "google_message \<Rightarrow> string" where
  "google_text m = (case gm_Candidates m of [] \<Rightarrow> [] | c # _ \<Rightarrow> concat (gc_Parts c))"

definition google_finish :: "google_message \<Rightarrow> string" where
  "google_finish m = (case gm_Candidates m of [] \<Rightarrow> ''stop'' | c # _ \<Rightarrow> response_finish google_finish_table (gc_FinishReason c))"

definition google_completion :: "google_message \<Rightarrow> json" where
  "google_completion m =
     obj [(''object'', JStr ''chat.completion''), (''model'', JStr (gm_ModelVersion m)),
          (''choices'', JArr [obj [(''index'', int_json 0),
             (''message'', obj [(''role'', JStr ''assistant''), (''content'', JStr (google_text m))]),
             (''finish_reason'', JStr (google_finish m))]]),
          (''usage'', usage_json (gm_Prompt m) (i64 (gm_CandidatesTokens m + gm_Thoughts m)))]"

definition zero_google_message :: google_message where
  "zero_google_message = \<lparr>gm_ModelVersion = [], gm_Candidates = [], gm_Prompt = 0, gm_CandidatesTokens = 0, gm_Thoughts = 0\<rparr>"

definition TranslateGoogleResponse :: "string \<Rightarrow> provider_error + (string \<times> string \<times> string)" where
  "TranslateGoogleResponse raw =
     (case Unmarshal dec_google_message zero_google_message (json_parse raw) of
        None \<Rightarrow> Inl (ProviderFailure ''provider: parsing google response'')
      | Some m \<Rightarrow> Inr (json_print (google_completion m), gm_ModelVersion m, google_finish m))"

definition google_url :: "ProviderOptions \<Rightarrow> string \<Rightarrow> string \<Rightarrow> string" where
  "google_url opts model method = op_BaseURL opts @ ''/v1beta/models/'' @ model @ method"

definition google_headers :: "ProviderOptions \<Rightarrow> (string \<times> string) list" where
  "google_headers opts = [(''Content-Type'', ''application/json''), (''X-Goog-Api-Key'', op_APIKey opts)]"

definition Google_Complete :: "seed \<Rightarrow> ProviderOptions \<Rightarrow> ProviderRequest \<Rightarrow> provider_error + ProviderResponse" where
  "Google_Complete sd opts req =
     (case TranslateGoogleRequest sd (pr_Body req) (pr_Model req) of
        Inl e \<Rightarrow> Inl e
      | Inr translated \<Rightarrow>
        (case call_upstream (op_Client opts) ''google'' (google_url opts (pr_Model req) '':generateContent'')
                (google_headers opts) (pr_PassthroughHeaders req) translated of
           Inl e \<Rightarrow> Inl e
         | Inr reply \<Rightarrow>
           if \<not> hr_Complete reply then Inl (ProviderFailure ''provider: reading google response'')
           else if hr_StatusCode reply \<ge> 400 then Inl (upstream_error False reply)
           else (let out = metered (NormaliseGoogle (json_parse (hr_Body reply))) (new_provider_response reply ''X-Request-Id'')
                 in case TranslateGoogleResponse (hr_Body reply) of
                      Inl e \<Rightarrow> Inl e
                    | Inr (body, served, finish) \<Rightarrow>
                        Inr (out\<lparr>pp_Body := body, pp_ServedModel := served, pp_FinishReason := finish\<rparr>))))"

subsection \<open>Facts about documents\<close>

lemma map_of_insort_key: "map_of (insort_key fst kv kvs) k = map_of (kv # kvs) k"
  by (induction kvs) auto

lemma map_of_sort_key [simp]: "map_of (sort_key fst kvs) k = map_of kvs k"
  by (induction kvs) (auto simp: map_of_insort_key)

lemma distinct_sort_key: "distinct (map fst (sort_key fst kvs)) \<longleftrightarrow> distinct (map fst kvs)"
proof -
  have "mset (map fst (sort_key fst kvs)) = mset (map fst kvs)" by simp
  then show ?thesis by (metis mset_eq_imp_distinct_iff)
qed

lemma json_ok_obj [simp]: "json_ok (obj kvs) \<longleftrightarrow> list_all (\<lambda>(_, v). json_ok v) kvs"
  by (simp add: obj_def list_all_iff)

lemma json_ok_int [simp]: "json_ok (int_json n)"
  by (simp add: int_json_def)

lemma map_of_raw_members:
  "distinct (map fst kvs) \<Longrightarrow> map_of (raw_members kvs m) k = (case map_of kvs k of Some v \<Rightarrow> Some v | None \<Rightarrow> map_of m k)"
proof (induction kvs m rule: raw_members.induct)
  case (2 k' v kvs m)
  then have "map_of kvs k' = None" by (simp add: map_of_eq_None_iff)
  with 2 show ?case by (cases "k = k'") (simp_all add: update_conv' split: option.splits)
qed simp

text \<open>What an encoded object answers is what it was built from.\<close>

lemma Field_print:
  "distinct (map fst kvs) \<Longrightarrow> list_all (\<lambda>(_, v). json_ok v) kvs \<Longrightarrow> Field (json_print (obj kvs)) name = map_of kvs name"
proof -
  assume d: "distinct (map fst kvs)" and ok: "list_all (\<lambda>(_, v). json_ok v) kvs"
  have "json_parse (json_print (obj kvs)) = Some (JObj (sort_key fst kvs))"
    using json_parse_print [of "obj kvs"] ok by (simp only: json_ok_obj obj_def [symmetric])
  moreover have "map_of (raw_members (sort_key fst kvs) []) name = map_of kvs name"
    using d by (simp add: map_of_raw_members distinct_sort_key option.case_eq_if)
  ultimately show ?thesis by (simp add: Field_def raw_map_def)
qed

lemma raw_members_ok:
  "list_all (\<lambda>(_, v). json_ok v) kvs \<Longrightarrow> list_all (\<lambda>(_, v). json_ok v) m \<Longrightarrow> list_all (\<lambda>(_, v). json_ok v) (raw_members kvs m)"
proof (induction kvs m rule: raw_members.induct)
  case (2 k v kvs m)
  have "list_all (\<lambda>(_, v). json_ok v) (AList.update k v m)"
    using 2(2,3) by (induction m) auto
  with 2 show ?case by simp
qed simp

lemma raw_map_ok: "raw_map (json_parse s) = Some doc \<Longrightarrow> list_all (\<lambda>(_, v). json_ok v) doc"
  by (auto simp: raw_map_def split: option.splits json.splits dest!: json_parse_ok intro!: raw_members_ok)

lemma update_ok: "list_all (\<lambda>(_, v). json_ok v) doc \<Longrightarrow> json_ok v \<Longrightarrow> list_all (\<lambda>(_, v). json_ok v) (AList.update k v doc)"
  by (induction doc) auto

lemma Field_SetField:
  assumes "SetField body name v = Some (Inr out)" "json_ok v"
  shows "Field out n = (if n = name then Some v else if trim_space body = [] then None else Field body n)"
proof (cases "trim_space body = []")
  case True
  with assms show ?thesis using Field_print [of "[(name, v)]" n] by (auto simp: SetField_def)
next
  case False
  with assms(1) obtain doc where doc: "raw_map (json_parse body) = Some doc"
    "out = json_print (obj (AList.update name v doc))"
    by (auto simp: SetField_def split: option.splits if_splits)
  have "distinct (map fst (AList.update name v doc))"
    using raw_map_go_map [OF doc(1)] by simp
  from Field_print [OF this update_ok [OF raw_map_ok [OF doc(1)] assms(2)]] doc False show ?thesis
    by (simp add: Field_def update_conv')
qed

lemma SetField_total:
  "trim_space body \<noteq> [] \<Longrightarrow> (\<exists>out. SetField body name v = Some (Inr out)) \<longleftrightarrow> (\<exists>kvs. json_parse body = Some (JObj kvs))"
  by (auto simp: SetField_def raw_map_def split: option.splits json.splits)

lemma FieldNames_Field: "FieldNames body = Inr names \<Longrightarrow> p \<in> set names \<longleftrightarrow> Field body p \<noteq> None"
  by (force simp: FieldNames_def Field_def map_of_eq_None_iff simp del: not_None_eq split: option.splits)

text \<open>The opening check of both translators: it refuses exactly when a listed parameter is present.\<close>

lemma refuse_unsupported_iff:
  assumes "raw_map (json_parse body) \<noteq> None"
  shows "(case refuse_unsupported ps name body of
            None \<Rightarrow> \<forall>p \<in> set ps. Field body p = None
          | Some e \<Rightarrow> \<exists>p \<in> set ps. Field body p \<noteq> None \<and> e = refused p name [])"
proof -
  from assms obtain names where n: "FieldNames body = Inr names" by (auto simp: FieldNames_def)
  show ?thesis
    using FieldNames_Field [OF n]
    by (auto simp: refuse_unsupported_def refused_def n split: option.splits dest!: find_SomeD simp: find_None_iff)
qed

lemma Field_None: "Field body p \<noteq> None \<Longrightarrow> raw_map (json_parse body) \<noteq> None"
  by (auto simp: Field_def split: option.splits)

text \<open>
  Asking the OpenAI provider for usage is an edit of one field: the request sent always asks for it,
  a request that already asked is sent as it came, the flag handed on is what the client had asked, and
  every other member of the body is there with its document unchanged.
\<close>

theorem usage_always_requested:
  assumes "ensureIncludeUsage body = Some (Inr (out, asked))" "trim_space body \<noteq> []"
  shows "ClientAskedForUsage out \<and> asked = ClientAskedForUsage body \<and> (asked \<longrightarrow> out = body)
    \<and> (\<forall>name. name \<noteq> ''stream_options'' \<longrightarrow> Field out name = Field body name)"
proof (cases "ClientAskedForUsage body")
  case True
  then have "ensureIncludeUsage body = Some (Inr (body, True))"
    by (simp add: ensureIncludeUsage_def ClientAskedForUsage_def Let_def)
  with True assms(1) show ?thesis by simp
next
  case False
  then have "asked = False" "SetField body ''stream_options'' (obj [(''include_usage'', JBool True)]) = Some (Inr out)"
    using assms(1) by (auto simp: ensureIncludeUsage_def ClientAskedForUsage_def Let_def split: option.splits sum.splits)
  moreover have "include_usage (obj [(''include_usage'', JBool True)]) = Some True" by code_simp
  ultimately show ?thesis using False assms(2) Field_SetField [of body "''stream_options''" _ out]
    by (auto simp: ClientAskedForUsage_def)
qed

definition sample_chat :: string where
  "sample_chat = ''{'' @ quoted ''model'' @ '':'' @ quoted ''m'' @ '','' @ quoted ''stream'' @ '':true}''"

lemma sample_chat_parse: "json_parse sample_chat = Some (JObj [(''model'', JStr ''m''), (''stream'', JBool True)])"
  by code_simp

lemma sample_chat_trim: "trim_space sample_chat \<noteq> []"
proof -
  have "trim_space sample_chat = sample_chat"
    by (rule trim_space_plain) (simp_all add: sample_chat_def quoted_def plain_char_def)
  then show ?thesis by (simp add: sample_chat_def)
qed

lemma sample_chat_usage:
  "ensureIncludeUsage sample_chat = Some (Inr (json_print (obj
     [(''model'', JStr ''m''), (''stream'', JBool True), (''stream_options'', obj [(''include_usage'', JBool True)])]), False))"
  using sample_chat_trim
  by (simp add: ensureIncludeUsage_def Field_def sample_chat_parse raw_map_def SetField_def)

theorem usage_always_requested_witness:
  "ClientAskedForUsage (json_print (obj
     [(''model'', JStr ''m''), (''stream'', JBool True), (''stream_options'', obj [(''include_usage'', JBool True)])]))"
  using usage_always_requested [OF sample_chat_usage sample_chat_trim] by (rule conjunct1)

text \<open>
  The edit replaces the whole of \<open>stream_options\<close>: another option the client set there is not sent on.
\<close>

theorem stream_options_replaced:
  assumes "ensureIncludeUsage body = Some (Inr (out, False))" "trim_space body \<noteq> []"
  shows "Field out ''stream_options'' = Some (JObj [(''include_usage'', JBool True)])"
proof -
  have "SetField body ''stream_options'' (obj [(''include_usage'', JBool True)]) = Some (Inr out)"
    using assms(1) by (auto simp: ensureIncludeUsage_def Let_def split: option.splits sum.splits if_splits)
  from Field_SetField [OF this] show ?thesis by (simp add: obj_def)
qed


definition sample_unsupported :: string where
  "sample_unsupported = ''{'' @ quoted ''n'' @ '':2}''"


end
