(* ===== verification/Admin.thy ===== *)
theory Admin
  imports Reports Translate
begin

text \<open>
  Package \<open>api\<close>, file \<open>keys.go\<close>: creating, listing, updating and revoking virtual keys over HTTP.

  A body is decoded the way \<open>json.Decoder\<close> does: the first value of the text, an empty body being no
  value at all, at most a megabyte of it. The text of an error the store returns is a parameter. The
  lemmas say what a created credential opens, that a member of an update that is absent, null or a
  value leaves, clears or sets its column, and that no response but the one that creates a key depends
  on a stored hash.
\<close>

subsection \<open>Bodies\<close>

definition maxBodyBytes :: nat where "maxBodyBytes = 1048576"

datatype decoded = EmptyBody | BadBody | Document json

text \<open>
  A scalar ends only with the byte behind it, so one that ends where the reading fails is not complete.
\<close>

definition scalar :: "json \<Rightarrow> bool" where
  "scalar j = (case j of JNull \<Rightarrow> True | JBool _ \<Rightarrow> True | JNum _ \<Rightarrow> True | _ \<Rightarrow> False)"

definition decode_body :: "HttpRequest \<Rightarrow> decoded" where
  "decode_body r =
     (let text = take maxBodyBytes (rq_Body r);
          broken = (\<not> rq_Complete r \<or> maxBodyBytes < length (rq_Body r))
      in case p_value (3 * length text + 3) text of
           Some (v, rest) \<Rightarrow> if broken \<and> rest = [] \<and> scalar v then BadBody else Document v
         | None \<Rightarrow> if skip_ws text = [] \<and> \<not> broken then EmptyBody else BadBody)"

definition bad_body :: HttpResponse where
  "bad_body = WriteError 400 ErrorTypeInvalidRequest ''the request body is not valid JSON for this endpoint'' new_response"

text \<open>\<open>DisallowUnknownFields\<close>: every member of the object names a field.\<close>

definition dec_strict :: "'s field list \<Rightarrow> json \<Rightarrow> 's \<Rightarrow> 's option" where
  "dec_strict fs j s =
     (case j of
        JObj kvs \<Rightarrow> if list_all (\<lambda>(k, _). find_field fs k \<noteq> None) kvs then dec_struct fs j s else None
      | _ \<Rightarrow> dec_struct fs j s)"

definition decodeBody :: "(json \<Rightarrow> 's \<Rightarrow> 's option) \<Rightarrow> 's \<Rightarrow> HttpRequest \<Rightarrow> 's option" where
  "decodeBody dec zero r =
     (case decode_body r of EmptyBody \<Rightarrow> Some zero | BadBody \<Rightarrow> None | Document j \<Rightarrow> dec j zero)"

text \<open>An \<open>any\<close> holds every document whose numbers are doubles.\<close>

fun any_ok :: "json \<Rightarrow> bool" where
  "any_ok (JNum l) = (case fround (literal_value l) of Fin _ \<Rightarrow> True | _ \<Rightarrow> False)"
| "any_ok (JArr js) = list_all any_ok js"
| "any_ok (JObj kvs) = list_all (\<lambda>kv. any_ok (snd kv)) kvs"
| "any_ok _ = True"

text \<open>Decoding into a \<open>map[string]any\<close>: a null makes it nil, an object adds its members.\<close>

definition dec_any_map :: "json \<Rightarrow> (string \<times> json) list option \<Rightarrow> (string \<times> json) list option option" where
  "dec_any_map j m =
     (case j of
        JNull \<Rightarrow> Some None
      | JObj kvs \<Rightarrow> if any_ok j then Some (Some (raw_members kvs (case m of None \<Rightarrow> [] | Some x \<Rightarrow> x))) else None
      | _ \<Rightarrow> None)"

definition dec_strings :: "json \<Rightarrow> string list \<Rightarrow> string list option" where
  "dec_strings = dec_slice (\<lambda>xs _. xs) [] (dec_string (\<lambda>x _. x))"

subsection \<open>Requests and responses\<close>

record createKeyRequest =
  cr_Label :: string
  cr_Metadata :: "(string \<times> json) list option"
  cr_AllowedModels :: "string list option"
  cr_DisconnectPolicy :: string
  cr_DrainTimeoutMS :: "int option"
  cr_LimitUSD :: "string option"

definition dec_createKey :: "json \<Rightarrow> createKeyRequest \<Rightarrow> createKeyRequest option" where
  "dec_createKey = dec_strict
     [(''label'', dec_string (\<lambda>x s. s\<lparr>cr_Label := x\<rparr>)),
      (''metadata'', dec_nested cr_Metadata (\<lambda>x s. s\<lparr>cr_Metadata := x\<rparr>) dec_any_map),
      (''allowed_models'', dec_ptr cr_AllowedModels (\<lambda>x s. s\<lparr>cr_AllowedModels := x\<rparr>) [] dec_strings),
      (''disconnect_policy'', dec_string (\<lambda>x s. s\<lparr>cr_DisconnectPolicy := x\<rparr>)),
      (''drain_timeout_ms'', dec_ptr cr_DrainTimeoutMS (\<lambda>x s. s\<lparr>cr_DrainTimeoutMS := x\<rparr>) 0 (dec_int (\<lambda>n _. n))),
      (''limit_usd'', dec_ptr cr_LimitUSD (\<lambda>x s. s\<lparr>cr_LimitUSD := x\<rparr>) [] (dec_string (\<lambda>x _. x)))]"

definition no_createKey :: createKeyRequest where
  "no_createKey = \<lparr>cr_Label = [], cr_Metadata = None, cr_AllowedModels = None, cr_DisconnectPolicy = [],
     cr_DrainTimeoutMS = None, cr_LimitUSD = None\<rparr>"

record keyResponse =
  kp_ID :: uuid
  kp_Prefix :: string
  kp_Label :: string
  kp_Metadata :: "(string \<times> string) list"
  kp_AllowedModels :: "string list option"
  kp_DisconnectPolicy :: string
  kp_DrainTimeoutMS :: "int option"
  kp_LimitUSD :: "string option"
  kp_RevokedAt :: "time option"
  kp_CreatedAt :: time
  kp_Key :: string

definition toKeyResponse :: "Lib \<Rightarrow> KeyRecord \<Rightarrow> keyResponse" where
  "toKeyResponse L rec =
     \<lparr>kp_ID = kr_ID rec, kp_Prefix = kr_Prefix rec, kp_Label = kr_Label rec, kp_Metadata = kr_Metadata rec,
      kp_AllowedModels = kr_AllowedModels rec, kp_DisconnectPolicy = kr_DisconnectPolicy rec,
      kp_DrainTimeoutMS = kr_DrainTimeoutMS rec, kp_LimitUSD = map_option (dec_text L) (kr_LimitUSD rec),
      kp_RevokedAt = kr_RevokedAt rec, kp_CreatedAt = kr_CreatedAt rec, kp_Key = []\<rparr>"

definition key_json :: "Lib \<Rightarrow> keyResponse \<Rightarrow> json" where
  "key_json L k = JObj
     ([(''id'', JStr (uuid_text L (kp_ID k))), (''key_prefix'', JStr (kp_Prefix k)), (''label'', JStr (kp_Label k)),
       (''metadata'', map_json (kp_Metadata k)),
       (''allowed_models'', opt_json (\<lambda>ms. JArr (map JStr ms)) (kp_AllowedModels k)),
       (''disconnect_policy'', JStr (kp_DisconnectPolicy k)),
       (''drain_timeout_ms'', opt_json (\<lambda>n. JNum (int_lit n)) (kp_DrainTimeoutMS k)),
       (''limit_usd'', opt_json JStr (kp_LimitUSD k)),
       (''revoked_at'', opt_json (\<lambda>t. JStr (show_time L t)) (kp_RevokedAt k)),
       (''created_at'', JStr (show_time L (kp_CreatedAt k)))]
      @ (if kp_Key k = [] then [] else [(''key'', JStr (kp_Key k))]))"

definition flat_error :: string where
  "flat_error = ''metadata must map strings to strings: nested objects, numbers and arrays are rejected ''
     @ ''so that spend aggregation stays a simple query''"

fun flat_pairs :: "(string \<times> json) list \<Rightarrow> (string \<times> string) list option" where
  "flat_pairs [] = Some []"
| "flat_pairs ((k, v) # m) =
     (case v of JStr x \<Rightarrow> map_option (\<lambda>r. (k, x) # r) (flat_pairs m) | _ \<Rightarrow> None)"

text \<open>The nil map and the empty map are stored alike.\<close>

definition flatMetadata :: "(string \<times> json) list option \<Rightarrow> string + (string \<times> string) list" where
  "flatMetadata loose =
     (case loose of
        None \<Rightarrow> Inr []
      | Some m \<Rightarrow> (case flat_pairs m of None \<Rightarrow> Inl flat_error | Some x \<Rightarrow> Inr x))"

definition pathUUID :: "Lib \<Rightarrow> ApiRequest \<Rightarrow> HttpResponse + uuid" where
  "pathUUID L r =
     (case uuid_parse L (ar_PathID r) of
        None \<Rightarrow> Inl (WriteError 400 ErrorTypeInvalidRequest ''the key id must be a UUID'' new_response)
      | Some i \<Rightarrow> Inr i)"

definition invalid :: "string \<Rightarrow> HttpResponse" where
  "invalid m = WriteError 400 ErrorTypeInvalidRequest m new_response"

subsection \<open>Creating and listing\<close>

text \<open>
  A limit is absent, or a decimal that is not negative. \<open>draws\<close> are the random blocks and \<open>i\<close> the
  identifier the store generates; None when the blocks do not suffice for a key.
\<close>

definition create_limit :: "Lib \<Rightarrow> createKeyRequest \<Rightarrow> decimal option option" where
  "create_limit L req =
     (case cr_LimitUSD req of
        None \<Rightarrow> Some None
      | Some text \<Rightarrow> (case dec_parse L text of
          None \<Rightarrow> None | Some d \<Rightarrow> if d < 0 then None else Some (Some d)))"

definition create_input :: "createKeyRequest \<Rightarrow> (string \<times> string) list \<Rightarrow> decimal option \<Rightarrow> Key \<Rightarrow> CreateKeyInput" where
  "create_input req metadata limit key =
     \<lparr>ci_Hash = k_Hash key, ci_Prefix = k_Prefix key, ci_Label = cr_Label req, ci_Metadata = metadata,
      ci_AllowedModels = cr_AllowedModels req, ci_DisconnectPolicy = cr_DisconnectPolicy req,
      ci_DrainTimeoutMS = cr_DrainTimeoutMS req, ci_LimitUSD = limit\<rparr>"

definition handleCreateKey :: "Lib \<Rightarrow> nat list option list \<Rightarrow> Conn \<Rightarrow> time \<Rightarrow> uuid \<Rightarrow> ApiRequest \<Rightarrow> DB
    \<Rightarrow> (HttpResponse \<times> DB) option" where
  "handleCreateKey L draws c now i r db =
     (case decodeBody dec_createKey no_createKey (ar_Request r) of
        None \<Rightarrow> Some (bad_body, db)
      | Some req \<Rightarrow>
        if cr_Label req = []
        then Some (invalid ''label is required: a key without one cannot be attributed to anything'', db)
        else (case flatMetadata (cr_Metadata req) of
           Inl e \<Rightarrow> Some (invalid e, db)
         | Inr metadata \<Rightarrow>
        (case create_limit L req of
           None \<Rightarrow> Some (invalid ''limit_usd must be a non-negative decimal, or null for unlimited'', db)
         | Some limit \<Rightarrow>
        (case NewKey (sha L) draws of
           None \<Rightarrow> None
         | Some (Inl e) \<Rightarrow> Some (WriteError 500 ErrorTypeInternal ''could not generate a key'' new_response, db)
         | Some (Inr key) \<Rightarrow>
        (case CreateKey c now i (create_input req metadata limit key) db of
           (Inl e, db') \<Rightarrow> Some (invalid (err_text L e), db')
         | (Inr rec, db') \<Rightarrow> Some (WriteJSON 201 (key_json L ((toKeyResponse L rec)\<lparr>kp_Key := k_Secret key\<rparr>)) new_response,
                             db'))))))"

definition handleListKeys :: "Lib \<Rightarrow> string option \<Rightarrow> DB \<Rightarrow> HttpResponse" where
  "handleListKeys L fault db =
     (case ListKeys fault db of
        Inl e \<Rightarrow> WriteError 500 ErrorTypeInternal ''could not list keys'' new_response
      | Inr keys \<Rightarrow> WriteJSON 200 (JObj [(''data'', JArr (map (key_json L \<circ> toKeyResponse L) keys))]) new_response)"

subsection \<open>Updating and revoking\<close>

definition field_null :: "'a \<Rightarrow> 'a FieldValue" where
  "field_null zero = \<lparr>fv_Set = True, fv_Null = True, fv_Value = zero\<rparr>"

definition field_value :: "'a \<Rightarrow> 'a FieldValue" where
  "field_value x = \<lparr>fv_Set = True, fv_Null = False, fv_Value = x\<rparr>"

text \<open>One member of the body: an error, or the field of the update (None when the member is absent).\<close>

definition member :: "(string \<times> json) list \<Rightarrow> string \<Rightarrow> (json \<Rightarrow> string + 'a) \<Rightarrow> string + 'a option" where
  "member raw name f =
     (case map_of raw name of
        None \<Rightarrow> Inr None
      | Some v \<Rightarrow> (case f v of Inl e \<Rightarrow> Inl e | Inr x \<Rightarrow> Inr (Some x)))"

definition nullable :: "'a \<Rightarrow> (json \<Rightarrow> string + 'a) \<Rightarrow> json \<Rightarrow> string + 'a FieldValue" where
  "nullable zero f v =
     (if v = JNull then Inr (field_null zero) else case f v of Inl e \<Rightarrow> Inl e | Inr x \<Rightarrow> Inr (field_value x))"

definition read_label :: "json \<Rightarrow> string + string" where
  "read_label v = (case v of JStr x \<Rightarrow> if x = [] then Inl ''label must be a non-empty string'' else Inr x
     | _ \<Rightarrow> Inl ''label must be a non-empty string'')"

definition read_policy :: "json \<Rightarrow> string + string" where
  "read_policy v =
     (let e = ''disconnect_policy must be \"cancel\" or \"drain\"''
      in case v of JStr x \<Rightarrow> if x \<noteq> ''cancel'' \<and> x \<noteq> ''drain'' then Inl e else Inr x | _ \<Rightarrow> Inl e)"

definition read_metadata :: "json \<Rightarrow> string + (string \<times> string) list" where
  "read_metadata v =
     (case dec_any_map v None of None \<Rightarrow> Inl ''metadata must be an object'' | Some loose \<Rightarrow> flatMetadata loose)"

definition read_models :: "json \<Rightarrow> string + string list option" where
  "read_models v =
     (case dec_strings v [] of
        None \<Rightarrow> Inl ''allowed_models must be an array of strings, [] for none, or null for all''
      | Some models \<Rightarrow> Inr (Some models))"

definition read_drain :: "json \<Rightarrow> string + int" where
  "read_drain v =
     (case dec_int (\<lambda>n _. n) v 0 of
        None \<Rightarrow> Inl ''drain_timeout_ms must be a positive integer or null'' | Some n \<Rightarrow> Inr n)"

definition read_limit :: "Lib \<Rightarrow> json \<Rightarrow> string + decimal" where
  "read_limit L v =
     (case dec_string (\<lambda>x _. x) v [] of
        None \<Rightarrow> Inl ''limit_usd must be a decimal string, or null for unlimited''
      | Some text \<Rightarrow> (case dec_parse L text of
          None \<Rightarrow> Inl ''limit_usd must be a non-negative decimal''
        | Some d \<Rightarrow> if d < 0 then Inl ''limit_usd must be a non-negative decimal'' else Inr d))"

definition update_input :: "Lib \<Rightarrow> int \<Rightarrow> (string \<times> json) list \<Rightarrow> string + UpdateKeyInput" where
  "update_input L maxDrainMS raw =
     (case member raw ''label'' read_label of Inl e \<Rightarrow> Inl e | Inr label \<Rightarrow>
     (case member raw ''disconnect_policy'' read_policy of Inl e \<Rightarrow> Inl e | Inr policy \<Rightarrow>
     (case member raw ''metadata'' (nullable [] read_metadata) of Inl e \<Rightarrow> Inl e | Inr metadata \<Rightarrow>
     (case member raw ''allowed_models'' (nullable None read_models) of Inl e \<Rightarrow> Inl e | Inr models \<Rightarrow>
     (case member raw ''drain_timeout_ms'' (nullable 0 read_drain) of Inl e \<Rightarrow> Inl e | Inr drain \<Rightarrow>
     (case member raw ''limit_usd'' (nullable 0 (read_limit L)) of Inl e \<Rightarrow> Inl e | Inr limit \<Rightarrow>
        Inr \<lparr>ui_Label = label, ui_Metadata = metadata, ui_AllowedModels = models, ui_DisconnectPolicy = policy,
             ui_DrainTimeoutMS = drain, ui_LimitUSD = limit, ui_MaxDrainMS = maxDrainMS\<rparr>))))))"

definition dec_raw_map :: "json \<Rightarrow> (string \<times> json) list \<Rightarrow> (string \<times> json) list option" where
  "dec_raw_map j m = raw_map (Some j)"

definition handleUpdateKey :: "Lib \<Rightarrow> Server \<Rightarrow> Conn \<Rightarrow> ApiRequest \<Rightarrow> DB \<Rightarrow> HttpResponse \<times> DB" where
  "handleUpdateKey L s c r db =
     (case pathUUID L r of
        Inl w \<Rightarrow> (w, db)
      | Inr i \<Rightarrow>
     (case decodeBody dec_raw_map [] (ar_Request r) of
        None \<Rightarrow> (bad_body, db)
      | Some raw \<Rightarrow>
     (case update_input L (sv_maxDrainMS s) raw of
        Inl e \<Rightarrow> (invalid e, db)
      | Inr inp \<Rightarrow>
     (case UpdateKey c i inp db of
        (Inl ErrKeyNotFound, db') \<Rightarrow> (WriteError 404 ErrorTypeInvalidRequest ''no such key'' new_response, db')
      | (Inl e, db') \<Rightarrow> (invalid (err_text L e), db')
      | (Inr rec, db') \<Rightarrow> (WriteJSON 200 (key_json L (toKeyResponse L rec)) new_response, db')))))"

definition handleRevokeKey :: "Lib \<Rightarrow> string option \<Rightarrow> time \<Rightarrow> ApiRequest \<Rightarrow> DB \<Rightarrow> HttpResponse \<times> DB" where
  "handleRevokeKey L fault now r db =
     (case pathUUID L r of
        Inl w \<Rightarrow> (w, db)
      | Inr i \<Rightarrow>
     (case RevokeKey fault now i db of
        (Inl ErrKeyNotFound, db') \<Rightarrow> (WriteError 404 ErrorTypeInvalidRequest ''no such key'' new_response, db')
      | (Inl e, db') \<Rightarrow> (WriteError 500 ErrorTypeInternal ''could not revoke the key'' new_response, db')
      | (Inr _, db') \<Rightarrow> (write_header 204 (set_header ''Cache-Control'' ''no-store'' new_response), db')))"

subsection \<open>Every handler is a transaction of the store\<close>

lemma handleCreateKey_step: "handleCreateKey L draws c now i r db = Some (w, db') \<Longrightarrow> db_step\<^sup>*\<^sup>* db db'"
  by (auto simp: handleCreateKey_def split: option.splits if_splits sum.splits prod.splits
      intro: r_into_rtranclp step_fixed step_create)

lemma handleUpdateKey_step: "handleUpdateKey L s c r db = (w, db') \<Longrightarrow> db_step\<^sup>*\<^sup>* db db'"
  by (auto simp: handleUpdateKey_def split: option.splits sum.splits prod.splits store_error.splits
      intro: r_into_rtranclp step_limit)

lemma handleRevokeKey_step: "handleRevokeKey L fault now r db = (w, db') \<Longrightarrow> db_step\<^sup>*\<^sup>* db db'"
  by (auto simp: handleRevokeKey_def split: option.splits sum.splits prod.splits store_error.splits
      intro: r_into_rtranclp step_fixed step_revoke)

subsection \<open>The life of a credential\<close>

lemma CreateKey_Inr:
  assumes "CreateKey c now i inp db = (Inr rec, db')"
  obtains vk kb where
    "virtual_keys db' = virtual_keys db @ [vk]" "key_budgets db' = key_budgets db @ [kb]"
    "vk_id vk = i" "vk_hash vk = ci_Hash inp" "vk_label vk = ci_Label inp" "vk_revoked_at vk = None"
    "vk_allowed_models vk = ci_AllowedModels inp" "kb_limit_usd kb = map_option num10 (ci_LimitUSD inp)"
    "ci_Hash inp \<notin> vk_hash ` set (virtual_keys db)" "i \<notin> vk_id ` set (virtual_keys db)"
proof -
  define vk where "vk = \<lparr>vk_id = i, vk_hash = ci_Hash inp, vk_prefix = ci_Prefix inp,
     vk_label = ci_Label inp, vk_metadata = ci_Metadata inp, vk_allowed_models = ci_AllowedModels inp,
     vk_disconnect_policy = (if ci_DisconnectPolicy inp = [] then ''cancel''
             else ci_DisconnectPolicy inp),
     vk_drain_timeout_ms = ci_DrainTimeoutMS inp, vk_revoked_at = None, vk_created_at = now\<rparr>"
  define kb where "kb = \<lparr>kb_key_id = i, kb_window_start = current_month now,
     kb_limit_usd = map_option num10 (ci_LimitUSD inp), kb_spent_usd = 0, kb_reserved_usd = 0\<rparr>"
  obtain db1 where ins: "insertKey vk db = Inr db1" "insertBudget kb db1 = Inr db'"
    using assms unfolding CreateKey_def commit_tx_def vk_def [symmetric] kb_def [symmetric]
    by (auto split: option.splits sum.splits if_splits prod.splits)
  have "vk_id vk = i" "vk_hash vk = ci_Hash inp" "vk_label vk = ci_Label inp" "vk_revoked_at vk = None"
    "vk_allowed_models vk = ci_AllowedModels inp" "kb_limit_usd kb = map_option num10 (ci_LimitUSD inp)"
    by (simp_all add: vk_def kb_def)
  then show thesis using that insertKey_Inr [OF ins(1)] insertBudget_Inr [OF ins(2)] by auto
qed

text \<open>What the credential of a request opens once its hash is known.\<close>

lemma resolveScope_key:
  assumes "BearerToken (ar_Request r) = Some token" "\<not> VerifyMaster (sha L) (sv_masterKey s) token"
    "find (\<lambda>vk. vk_hash vk = Hash (sha L) token) (virtual_keys db) = Some vk"
  shows "resolveScope L s None db r = (if vk_revoked_at vk = None then Some (KeyScope (vk_id vk)) else None)"
    and "vk_revoked_at vk \<noteq> None \<Longrightarrow> resolveScope L s fault db r = None"
  using assms by (auto simp: resolveScope_def FindKeyByHash_def scanKey_def scanKeyRow_def split: option.splits)

lemma find_update_where:
  assumes "\<And>x. Q (f x) = Q x"
  shows "find Q (update_where P f xs) = map_option (\<lambda>x. if P x then f x else x) (find Q xs)"
  using assms by (induction xs) (auto simp: update_where_def)

lemma revoked_closed:
  assumes "RevokeKey None now i db = (out, db')" "find (\<lambda>vk. vk_hash vk = h) (virtual_keys db) = Some vk" "vk_id vk = i"
  shows "\<exists>vk'. find (\<lambda>vk. vk_hash vk = h) (virtual_keys db') = Some vk' \<and> vk_revoked_at vk' \<noteq> None"
proof -
  have "vk \<in> set (virtual_keys db)" using find_SomeD [OF assms(2)] by simp
  with assms(3) have "list_ex (\<lambda>vk. vk_id vk = i) (virtual_keys db)" by (auto simp: list_ex_iff)
  with assms(1) have "virtual_keys db' = update_where (\<lambda>vk. vk_id vk = i)
      (\<lambda>vk. vk\<lparr>vk_revoked_at := (case vk_revoked_at vk of None \<Rightarrow> Some now | Some t \<Rightarrow> Some t)\<rparr>) (virtual_keys db)"
    by (auto simp: RevokeKey_def split: if_splits)
  with assms(2,3) show ?thesis by (auto simp: find_update_where split: option.splits)
qed

text \<open>
  C15. The life of a credential. When creating a key answers 201, the response carries a secret under \<open>key\<close>
  that from then on opens the reporting API for exactly that key; and once the key has been revoked,
  the same secret opens nothing. (The secret is taken not to be the master key as well.)
\<close>

theorem credential_lifecycle:
  assumes "handleCreateKey L draws c now i r db = Some (w, db1)" "rs_Status w = Some 201"
  shows "\<exists>secret members. rs_Body w = [JsonBody (JObj members)] \<and> map_of members ''key'' = Some (JStr secret)
    \<and> (\<forall>s r1. BearerToken (ar_Request r1) = Some secret \<and> \<not> VerifyMaster (sha L) (sv_masterKey s) secret \<longrightarrow>
        resolveScope L s None db1 r1 = Some (KeyScope i)
        \<and> (\<forall>t r2 w2 db2 fault. uuid_parse L (ar_PathID r2) = Some i \<and> handleRevokeKey L None t r2 db1 = (w2, db2) \<longrightarrow>
             rs_Status w2 = Some 204 \<and> resolveScope L s fault db2 r1 = None))"
proof -
  obtain req metadata limit key rec where
    key: "NewKey (sha L) draws = Some (Inr key)"
    and ck: "CreateKey c now i (create_input req metadata limit key) db = (Inr rec, db1)"
    and w: "w = WriteJSON 201 (key_json L ((toKeyResponse L rec)\<lparr>kp_Key := k_Secret key\<rparr>)) new_response"
    using assms by (auto simp: handleCreateKey_def bad_body_def invalid_def new_response_def
        split: option.splits if_splits sum.splits prod.splits)
  from key have secret: "k_Secret key \<noteq> []" "k_Hash key = Hash (sha L) (k_Secret key)"
    by (auto simp: NewKey_def Let_def Prefix_def Hash_def split: option.splits sum.splits)
  from ck obtain vk kb where vk: "virtual_keys db1 = virtual_keys db @ [vk]" "vk_id vk = i"
      "vk_hash vk = k_Hash key" "vk_revoked_at vk = None" "k_Hash key \<notin> vk_hash ` set (virtual_keys db)"
    by (rule CreateKey_Inr) (auto simp: create_input_def)
  have "find (\<lambda>x. vk_hash x = h) (xs @ [y]) = Some y" if "h \<notin> vk_hash ` set xs" "vk_hash y = h" for h xs and y :: virtual_key
    using that by (induction xs) auto
  then have found: "find (\<lambda>vk. vk_hash vk = Hash (sha L) (k_Secret key)) (virtual_keys db1) = Some vk"
    using vk secret(2) by simp
  have revoked: "rs_Status w2 = Some 204 \<and> resolveScope L s fault db2 r1 = None"
    if b: "BearerToken (ar_Request r1) = Some (k_Secret key)" "\<not> VerifyMaster (sha L) (sv_masterKey s) (k_Secret key)"
      and h: "uuid_parse L (ar_PathID r2) = Some i" "handleRevokeKey L None t r2 db1 = (w2, db2)" for s r1 r2 t w2 db2 fault
  proof -
    have ex: "list_ex (\<lambda>vk. vk_id vk = i) (virtual_keys db1)" using vk(1,2) by simp
    obtain out where rv: "RevokeKey None t i db1 = (out, db2)" "rs_Status w2 = Some 204"
      using h ex by (auto simp: handleRevokeKey_def pathUUID_def RevokeKey_def write_header_def set_header_def new_response_def)
    from revoked_closed [OF rv(1) found vk(2)] obtain vk' where
      "find (\<lambda>vk. vk_hash vk = Hash (sha L) (k_Secret key)) (virtual_keys db2) = Some vk'" "vk_revoked_at vk' \<noteq> None" by blast
    with resolveScope_key(2) [OF b] rv(2) show ?thesis by blast
  qed
  obtain members where body: "rs_Body w = [JsonBody (JObj members)]" "map_of members ''key'' = Some (JStr (k_Secret key))"
    using secret(1) by (simp add: w WriteJSON_def key_json_def new_response_def)
  show ?thesis
  proof (intro exI conjI allI impI)
    show "rs_Body w = [JsonBody (JObj members)]" "map_of members ''key'' = Some (JStr (k_Secret key))" by (fact body)+
  next
    fix s :: Server and r1 :: ApiRequest
    assume "BearerToken (ar_Request r1) = Some (k_Secret key) \<and> \<not> VerifyMaster (sha L) (sv_masterKey s) (k_Secret key)"
    then show "resolveScope L s None db1 r1 = Some (KeyScope i)"
      using resolveScope_key(1) [of r1 "k_Secret key" L s db1 vk] found vk(2,4) by simp
  qed (use revoked in blast)+
qed

subsection \<open>Absent, null and a value\<close>

text \<open>The column an update leaves, clears or sets.\<close>

definition column :: "(string \<times> json) list \<Rightarrow> string \<Rightarrow> 'a \<Rightarrow> (json \<Rightarrow> 'a) \<Rightarrow> 'a \<Rightarrow> 'a" where
  "column raw name cleared val old =
     (case map_of raw name of None \<Rightarrow> old | Some v \<Rightarrow> if v = JNull then cleared else val v)"

fun json_str :: "json \<Rightarrow> string" where
  "json_str (JStr x) = x"
| "json_str _ = []"

fun json_strs :: "json \<Rightarrow> string list" where
  "json_strs (JArr js) = map json_str js"
| "json_strs _ = []"

fun json_pairs :: "json \<Rightarrow> (string \<times> string) list" where
  "json_pairs (JObj kvs) = map (\<lambda>(k, v). (k, json_str v)) (raw_members kvs [])"
| "json_pairs _ = []"

fun json_int :: "json \<Rightarrow> int option" where
  "json_int (JNum l) = ParseInt l"
| "json_int _ = None"

definition patched_key :: "(string \<times> json) list \<Rightarrow> virtual_key \<Rightarrow> virtual_key" where
  "patched_key raw vk = vk
     \<lparr>vk_label := column raw ''label'' [] json_str (vk_label vk),
      vk_disconnect_policy := column raw ''disconnect_policy'' [] json_str (vk_disconnect_policy vk),
      vk_metadata := column raw ''metadata'' [] json_pairs (vk_metadata vk),
      vk_allowed_models := column raw ''allowed_models'' None (Some \<circ> json_strs) (vk_allowed_models vk),
      vk_drain_timeout_ms := column raw ''drain_timeout_ms'' None json_int (vk_drain_timeout_ms vk)\<rparr>"

definition patched_budget :: "Lib \<Rightarrow> (string \<times> json) list \<Rightarrow> key_budget \<Rightarrow> key_budget" where
  "patched_budget L raw kb = kb
     \<lparr>kb_limit_usd := column raw ''limit_usd'' None (\<lambda>v. map_option num10 (dec_parse L (json_str v))) (kb_limit_usd kb)\<rparr>"

lemma flat_pairs_Some: "flat_pairs m = Some x \<Longrightarrow> x = map (\<lambda>(k, v). (k, json_str v)) m"
  by (induction m arbitrary: x rule: flat_pairs.induct) (auto split: json.splits)

lemma dec_strings_Some: "dec_strings v [] = Some ms \<Longrightarrow> v \<noteq> JNull \<Longrightarrow> ms = json_strs v"
proof -
  have "dec_elems [] (dec_string (\<lambda>x _. x)) js = Some xs \<Longrightarrow> xs = map json_str js" for js xs
    by (induction js arbitrary: xs) (auto simp: dec_string_def split: option.splits json.splits)
  then show "dec_strings v [] = Some ms \<Longrightarrow> v \<noteq> JNull \<Longrightarrow> ms = json_strs v"
    by (auto simp: dec_strings_def dec_slice_def split: json.splits)
qed

text \<open>What each member of the body becomes in the update.\<close>

lemma read_values:
  "read_label v = Inr x \<Longrightarrow> v \<noteq> JNull \<and> x = json_str v"
  "read_policy v = Inr x \<Longrightarrow> v \<noteq> JNull \<and> x = json_str v"
  "read_metadata v = Inr m \<Longrightarrow> v \<noteq> JNull \<Longrightarrow> m = json_pairs v"
  "read_models v = Inr ms \<Longrightarrow> v \<noteq> JNull \<Longrightarrow> ms = Some (json_strs v)"
  "read_drain v = Inr n \<Longrightarrow> v \<noteq> JNull \<Longrightarrow> json_int v = Some n"
  "read_limit L v = Inr d \<Longrightarrow> v \<noteq> JNull \<Longrightarrow> dec_parse L (json_str v) = Some d"
proof -
  show "read_models v = Inr ms \<Longrightarrow> v \<noteq> JNull \<Longrightarrow> ms = Some (json_strs v)"
    by (cases "dec_strings v []") (auto simp: read_models_def dest: dec_strings_Some)
qed (auto simp: read_label_def read_policy_def read_metadata_def read_drain_def read_limit_def
      dec_any_map_def flatMetadata_def dec_int_def dec_string_def Let_def
      split: json.splits if_splits option.splits dest: flat_pairs_Some)

lemma update_where_comp:
  assumes "\<And>x. P (f x) = P x"
  shows "update_where P g (update_where P f xs) = update_where P (g \<circ> f) xs"
  using assms by (auto simp: update_where_def)

lemma update_where_same: "(\<And>x. f x = x) \<Longrightarrow> update_where P f xs = xs"
  by (simp add: update_where_def map_idI)

definition field_fn :: "('r \<Rightarrow> 'r) option \<Rightarrow> 'r \<Rightarrow> 'r" where
  "field_fn f = (case f of None \<Rightarrow> id | Some g \<Rightarrow> g)"

lemma updateKeyField_Inr:
  "updateKeyField c n i f db = Inr db' \<Longrightarrow>
     db' = db\<lparr>virtual_keys := update_where (\<lambda>vk. vk_id vk = i) (field_fn f) (virtual_keys db)\<rparr>"
  by (auto simp: updateKeyField_def field_fn_def update_where_same split: option.splits)

lemma updateLimit_Inr:
  "updateLimit c n i l db = Inr db' \<Longrightarrow>
     db' = db\<lparr>key_budgets := update_where (\<lambda>kb. kb_key_id kb = i)
       (\<lambda>kb. case l of None \<Rightarrow> kb | Some v \<Rightarrow> kb\<lparr>kb_limit_usd := v\<rparr>) (key_budgets db)\<rparr>"
  by (auto simp: updateLimit_def update_where_same split: option.splits)

lemma member_Inr:
  assumes "member raw name (nullable zero f) = Inr fv"
  shows "set_field fv g = (case map_of raw name of None \<Rightarrow> None
     | Some v \<Rightarrow> if v = JNull then Some (g None) else (case f v of Inl e \<Rightarrow> None | Inr x \<Rightarrow> Some (g (Some x))))"
  using assms by (auto simp: member_def nullable_def set_field_def field_null_def field_value_def
      split: option.splits sum.splits if_splits)

lemma member_plain:
  assumes "member raw name f = Inr x"
  shows "x = (case map_of raw name of None \<Rightarrow> None | Some v \<Rightarrow> (case f v of Inl e \<Rightarrow> None | Inr y \<Rightarrow> Some y))"
    and "map_of raw name = Some v \<Longrightarrow> \<exists>y. f v = Inr y"
  using assms by (auto simp: member_def split: option.splits sum.splits)

lemma member_null_value:
  assumes "member raw name (nullable zero f) = Inr fv" "map_of raw name = Some v" "v \<noteq> JNull"
  shows "\<exists>y. f v = Inr y"
  using assms by (auto simp: member_def nullable_def split: sum.splits)

lemma update_input_fields:
  assumes "update_input L m raw = Inr inp"
  obtains "member raw ''label'' read_label = Inr (ui_Label inp)"
    "member raw ''disconnect_policy'' read_policy = Inr (ui_DisconnectPolicy inp)"
    "member raw ''metadata'' (nullable [] read_metadata) = Inr (ui_Metadata inp)"
    "member raw ''allowed_models'' (nullable None read_models) = Inr (ui_AllowedModels inp)"
    "member raw ''drain_timeout_ms'' (nullable 0 read_drain) = Inr (ui_DrainTimeoutMS inp)"
    "member raw ''limit_usd'' (nullable 0 (read_limit L)) = Inr (ui_LimitUSD inp)"
  using assms by (auto simp: update_input_def split: sum.splits)

text \<open>Each statement of the update writes the column its member says.\<close>

lemma plain_column:
  assumes "member raw name f = Inr x" "\<And>v y. f v = Inr y \<Longrightarrow> v \<noteq> JNull \<and> y = val v"
  shows "field_fn (map_option upd x) r = (case map_of raw name of None \<Rightarrow> r | Some v \<Rightarrow> upd (val v) r)"
    and "map_of raw name \<noteq> Some JNull"
  using member_plain [OF assms(1)] assms(2) by (auto simp: field_fn_def split: option.splits sum.splits)

lemma null_column:
  assumes "member raw name (nullable zero f) = Inr fv" "\<And>v y. f v = Inr y \<Longrightarrow> v \<noteq> JNull \<Longrightarrow> g (Some y) = val v"
  shows "set_field fv g = (case map_of raw name of None \<Rightarrow> None | Some v \<Rightarrow> Some (if v = JNull then g None else val v))"
  using member_Inr [OF assms(1), of g] member_null_value [OF assms(1)] assms(2)
  by (fastforce split: option.splits sum.splits)

lemma null_column_fn:
  assumes "member raw name (nullable zero f) = Inr fv" "\<And>v y. f v = Inr y \<Longrightarrow> v \<noteq> JNull \<Longrightarrow> g (Some y) = val v"
  shows "field_fn (set_field fv g) r = (case map_of raw name of None \<Rightarrow> r | Some v \<Rightarrow> (if v = JNull then g None else val v) r)"
  using null_column [where val = val and g = g, OF assms] by (cases "map_of raw name") (simp_all add: field_fn_def)

lemma applyUpdate_patched:
  assumes "update_input L m raw = Inr inp" "applyUpdate c i inp db = Inr db'"
  shows "db' = db\<lparr>virtual_keys := update_where (\<lambda>vk. vk_id vk = i) (patched_key raw) (virtual_keys db),
    key_budgets := update_where (\<lambda>kb. kb_key_id kb = i) (patched_budget L raw) (key_budgets db)\<rparr>"
proof -
  let ?f1 = "map_option (\<lambda>l vk. vk\<lparr>vk_label := l\<rparr>) (ui_Label inp)"
  let ?f2 = "map_option (\<lambda>p vk. vk\<lparr>vk_disconnect_policy := p\<rparr>) (ui_DisconnectPolicy inp)"
  let ?f3 = "set_field (ui_Metadata inp) (\<lambda>m vk. vk\<lparr>vk_metadata := (case m of None \<Rightarrow> [] | Some x \<Rightarrow> x)\<rparr>)"
  let ?f4 = "set_field (ui_AllowedModels inp) (\<lambda>m vk. vk\<lparr>vk_allowed_models := (case m of None \<Rightarrow> None
     | Some None \<Rightarrow> Some [] | Some (Some x) \<Rightarrow> Some x)\<rparr>)"
  let ?f5 = "set_field (ui_DrainTimeoutMS inp) (\<lambda>v vk. vk\<lparr>vk_drain_timeout_ms := v\<rparr>)"
  let ?l = "set_field (ui_LimitUSD inp) (map_option num10)"
  from assms(1) obtain
    m1: "member raw ''label'' read_label = Inr (ui_Label inp)"
    and m2: "member raw ''disconnect_policy'' read_policy = Inr (ui_DisconnectPolicy inp)"
    and m3: "member raw ''metadata'' (nullable [] read_metadata) = Inr (ui_Metadata inp)"
    and m4: "member raw ''allowed_models'' (nullable None read_models) = Inr (ui_AllowedModels inp)"
    and m5: "member raw ''drain_timeout_ms'' (nullable 0 read_drain) = Inr (ui_DrainTimeoutMS inp)"
    and m6: "member raw ''limit_usd'' (nullable 0 (read_limit L)) = Inr (ui_LimitUSD inp)"
    by (rule update_input_fields)
  have f1: "field_fn ?f1 vk = vk\<lparr>vk_label := column raw ''label'' [] json_str (vk_label vk)\<rparr>" for vk
    using plain_column [where val = json_str, OF m1 read_values(1)] by (auto simp: column_def split: option.splits)
  have f2: "field_fn ?f2 vk = vk\<lparr>vk_disconnect_policy := column raw ''disconnect_policy'' [] json_str (vk_disconnect_policy vk)\<rparr>" for vk
    using plain_column [where val = json_str, OF m2 read_values(2)] by (auto simp: column_def split: option.splits)
  have f3: "field_fn ?f3 vk = vk\<lparr>vk_metadata := column raw ''metadata'' [] json_pairs (vk_metadata vk)\<rparr>" for vk
    by (subst null_column_fn [where val = "\<lambda>v vk. vk\<lparr>vk_metadata := json_pairs v\<rparr>", OF m3]) (auto simp: column_def dest: read_values(3) split: option.split)
  have f4: "field_fn ?f4 vk = vk\<lparr>vk_allowed_models := column raw ''allowed_models'' None (Some \<circ> json_strs) (vk_allowed_models vk)\<rparr>" for vk
    by (subst null_column_fn [where val = "\<lambda>v vk. vk\<lparr>vk_allowed_models := Some (json_strs v)\<rparr>", OF m4]) (auto simp: column_def dest: read_values(4) split: option.split)
  have f5: "field_fn ?f5 vk = vk\<lparr>vk_drain_timeout_ms := column raw ''drain_timeout_ms'' None json_int (vk_drain_timeout_ms vk)\<rparr>" for vk
    by (subst null_column_fn [where val = "\<lambda>v vk. vk\<lparr>vk_drain_timeout_ms := json_int v\<rparr>", OF m5]) (auto simp: column_def dest: read_values(5) split: option.split)
  have f6: "(case ?l of None \<Rightarrow> kb | Some v \<Rightarrow> kb\<lparr>kb_limit_usd := v\<rparr>) = patched_budget L raw kb" for kb
    by (subst null_column [where val = "\<lambda>v. map_option num10 (dec_parse L (json_str v))", OF m6])
      (auto simp: patched_budget_def column_def dest: read_values(6) split: option.split)
  from assms(2) obtain d1 d2 d3 d4 d5 where steps:
    "updateKeyField c 1 i ?f1 db = Inr d1" "updateKeyField c 2 i ?f2 d1 = Inr d2" "updateKeyField c 3 i ?f3 d2 = Inr d3"
    "updateKeyField c 4 i ?f4 d3 = Inr d4" "updateKeyField c 5 i ?f5 d4 = Inr d5" "updateLimit c 6 i ?l d5 = Inr db'"
    unfolding applyUpdate_def by (auto split: sum.splits)
  have "(field_fn ?f5 \<circ> (field_fn ?f4 \<circ> (field_fn ?f3 \<circ> (field_fn ?f2 \<circ> field_fn ?f1)))) = patched_key raw"
    by (rule ext) (simp add: f1 f2 f3 f4 f5 patched_key_def)
  then show ?thesis
    using steps(1-5) [THEN updateKeyField_Inr] updateLimit_Inr [OF steps(6)]
    by (simp add: f6 update_where_comp f1 f2 f3 f4 f5)
qed

lemma UpdateKey_Inr: "UpdateKey c i inp db = (Inr rec, db') \<Longrightarrow> applyUpdate c i inp db = Inr db'"
  by (auto simp: UpdateKey_def commit_tx_def split: option.splits sum.splits if_splits prod.splits)

text \<open>
  C19. Absent, null and a value are three different things. When an update answers 200, the row of the named
  key has, in each column, its old value if the member is absent from the body, nothing (every model,
  no metadata, no timeout, no limit) if it is null, and what the member says otherwise, so that \<open>[]\<close>
  permits no model; the rows of every other key, the reservations and the usage are untouched.
\<close>

theorem update_patches_columns:
  assumes "handleUpdateKey L s c r db = (w, db')" "rs_Status w = Some 200"
    "uuid_parse L (ar_PathID r) = Some i" "decodeBody dec_raw_map [] (ar_Request r) = Some raw"
  shows "db' = db\<lparr>virtual_keys := update_where (\<lambda>vk. vk_id vk = i) (patched_key raw) (virtual_keys db),
    key_budgets := update_where (\<lambda>kb. kb_key_id kb = i) (patched_budget L raw) (key_budgets db)\<rparr>"
proof -
  obtain inp rec where "update_input L (sv_maxDrainMS s) raw = Inr inp" "UpdateKey c i inp db = (Inr rec, db')"
    using assms by (auto simp: handleUpdateKey_def pathUUID_def bad_body_def invalid_def new_response_def
        split: sum.splits prod.splits store_error.splits)
  with applyUpdate_patched UpdateKey_Inr show ?thesis by blast
qed

definition sample_patch :: ApiRequest where
  "sample_patch = \<lparr>ar_Request = \<lparr>rq_Authorization = [], rq_Query = [], rq_Header = [],
     rq_Body = [CHR ''{'', CHR 0x22] @ ''allowed_models'' @ [CHR 0x22] @ '':[]}'', rq_Complete = True\<rparr>,
     ar_Values = [], ar_PathID = unary 7\<rparr>"

lemma decode_body_short:
  "rq_Complete r \<Longrightarrow> length (rq_Body r) \<le> maxBodyBytes \<Longrightarrow> p_value (3 * length (rq_Body r) + 3) (rq_Body r) = Some (v, rest)
    \<Longrightarrow> decode_body r = Document v"
  by (simp add: decode_body_def)

lemma sample_patch_raw: "decodeBody dec_raw_map [] (ar_Request sample_patch) = Some [(''allowed_models'', JArr [])]"
proof -
  let ?r = "ar_Request sample_patch"
  have "decode_body ?r = Document (JObj [(''allowed_models'', JArr [])])"
  proof (rule decode_body_short)
    show "p_value (3 * length (rq_Body ?r) + 3) (rq_Body ?r) = Some (JObj [(''allowed_models'', JArr [])], [])" by code_simp
  qed (simp_all add: sample_patch_def maxBodyBytes_def)
  then show ?thesis by (simp add: decodeBody_def dec_raw_map_def raw_map_def)
qed

lemma sample_patch_status:
  "rs_Status (fst (handleUpdateKey sample_lib sample_server ok_conn sample_patch (sample_keyed []))) = Some 200"
proof -
  have inp: "update_input sample_lib 0 [(''allowed_models'', JArr [])]
      = Inr \<lparr>ui_Label = None, ui_Metadata = None, ui_AllowedModels = Some (field_value (Some [])),
          ui_DisconnectPolicy = None, ui_DrainTimeoutMS = None, ui_LimitUSD = None, ui_MaxDrainMS = 0\<rparr>"
    by code_simp
  have "isl (fst (UpdateKey ok_conn 7 \<lparr>ui_Label = None, ui_Metadata = None, ui_AllowedModels = Some (field_value (Some [])),
          ui_DisconnectPolicy = None, ui_DrainTimeoutMS = None, ui_LimitUSD = None, ui_MaxDrainMS = 0\<rparr> (sample_keyed []))) = False"
    by code_simp
  moreover have "uuid_parse sample_lib (ar_PathID sample_patch) = Some 7" by code_simp
  ultimately show ?thesis
    by (auto simp: handleUpdateKey_def pathUUID_def sample_patch_raw inp sample_server_def WriteJSON_def new_response_def
        split: prod.splits sum.splits)
qed

lemma update_patches_columns_witness:
  "map vk_allowed_models (virtual_keys (snd (handleUpdateKey sample_lib sample_server ok_conn sample_patch (sample_keyed []))))
     = [Some []]"
proof -
  have "uuid_parse sample_lib (ar_PathID sample_patch) = Some 7" by code_simp
  note patched = update_patches_columns [OF prod.collapse [symmetric] sample_patch_status this sample_patch_raw]
  have "virtual_keys (snd (handleUpdateKey sample_lib sample_server ok_conn sample_patch (sample_keyed [])))
      = update_where (\<lambda>vk. vk_id vk = 7) (patched_key [(''allowed_models'', JArr [])]) (virtual_keys (sample_keyed []))"
    by (subst patched) simp
  then show ?thesis by (simp add: update_where_def sample_keyed_def sample_vk_def patched_key_def column_def)
qed

definition sample_creation :: ApiRequest where
  "sample_creation = \<lparr>ar_Request = \<lparr>rq_Authorization = [], rq_Query = [], rq_Header = [],
     rq_Body = [CHR ''{'', CHR 0x22] @ ''label'' @ [CHR 0x22, CHR '':'', CHR 0x22] @ ''team'' @ [CHR 0x22, CHR ''}''],
     rq_Complete = True\<rparr>, ar_Values = [], ar_PathID = unary 5\<rparr>"

definition sample_draws :: "nat list option list" where
  "sample_draws = [Some (replicate 43 0)]"

definition sample_created :: "(HttpResponse \<times> DB) option" where
  "sample_created = handleCreateKey sample_lib sample_draws ok_conn 0 5 sample_creation empty_DB"

lemma sample_created_status: "\<exists>w db1. sample_created = Some (w, db1) \<and> rs_Status w = Some 201"
proof -
  let ?r = "ar_Request sample_creation" and ?doc = "JObj [(''label'', JStr ''team'')]"
  have "decode_body ?r = Document ?doc"
  proof (rule decode_body_short)
    show "p_value (3 * length (rq_Body ?r) + 3) (rq_Body ?r) = Some (?doc, [])" by code_simp
  qed (simp_all add: sample_creation_def maxBodyBytes_def)
  moreover have "dec_createKey ?doc no_createKey = Some (no_createKey\<lparr>cr_Label := ''team''\<rparr>)" by code_simp
  ultimately have req: "decodeBody dec_createKey no_createKey ?r = Some (no_createKey\<lparr>cr_Label := ''team''\<rparr>)"
    by (simp add: decodeBody_def)
  define key where "key = \<lparr>k_Secret = Prefix @ replicate 43 (CHR ''A''), k_Prefix = take displayLength (Prefix @ replicate 43 (CHR ''A'')),
    k_Hash = Prefix @ replicate 43 (CHR ''A'')\<rparr>"
  have key: "NewKey (sha sample_lib) sample_draws = Some (Inr key)" unfolding key_def by code_simp
  define q where "q = no_createKey\<lparr>cr_Label := ''team''\<rparr>"
  have q: "cr_Label q \<noteq> []" "flatMetadata (cr_Metadata q) = Inr []" "create_limit sample_lib q = Some None"
    by (simp_all add: q_def no_createKey_def flatMetadata_def create_limit_def)
  have "isl (fst (CreateKey ok_conn 0 5 (create_input q [] None key) empty_DB)) = False"
    unfolding key_def q_def by code_simp
  then show ?thesis
    by (auto simp: sample_created_def handleCreateKey_def req [folded q_def] key q
        WriteJSON_def new_response_def split: prod.splits sum.splits)
qed

lemma credential_lifecycle_witness:
  "\<exists>w db1 secret members. sample_created = Some (w, db1) \<and> rs_Body w = [JsonBody (JObj members)]
    \<and> map_of members ''key'' = Some (JStr secret)"
proof -
  from sample_created_status obtain w db1 where
    "handleCreateKey sample_lib sample_draws ok_conn 0 5 sample_creation empty_DB = Some (w, db1)" "rs_Status w = Some 201"
    unfolding sample_created_def by blast
  with credential_lifecycle [OF this] show ?thesis unfolding sample_created_def by blast
qed

subsection \<open>Hashes stay inside\<close>

definition no_hash :: "virtual_key \<Rightarrow> virtual_key" where
  "no_hash vk = vk\<lparr>vk_hash := []\<rparr>"

definition hashless :: "DB \<Rightarrow> DB" where
  "hashless db = db\<lparr>virtual_keys := map no_hash (virtual_keys db)\<rparr>"

lemma no_hash_simps [simp]:
  "vk_id (no_hash vk) = vk_id vk" "vk_created_at (no_hash vk) = vk_created_at vk"
  "vk_revoked_at (no_hash vk) = vk_revoked_at vk" "checkVirtualKey (no_hash vk) = checkVirtualKey vk"
  by (simp_all add: no_hash_def checkVirtualKey_def)

lemma hashless_simps [simp]:
  "virtual_keys (hashless db) = map no_hash (virtual_keys db)" "key_budgets (hashless db) = key_budgets db"
  by (simp_all add: hashless_def)

lemma scanKeyRow_hashless: "scanKeyRow (hashless db) False (no_hash vk) = scanKeyRow db False vk"
  by (simp add: scanKeyRow_def no_hash_def)

lemma find_map_no_hash: "(\<And>vk. P (no_hash vk) = P vk) \<Longrightarrow> find P (map no_hash vks) = map_option no_hash (find P vks)"
  by (induction vks) simp_all

lemma keyByID_hashless: "keyByID fault (hashless db) i = keyByID fault db i"
  by (auto simp: keyByID_def scanKey_def find_map_no_hash scanKeyRow_hashless split: option.splits)

lemma ListKeys_hashless: "ListKeys fault (hashless db) = ListKeys fault db"
proof -
  have "sort_key vk_created_at (map no_hash vks) = map no_hash (sort_key vk_created_at vks)" for vks
  proof (induction vks)
    case (Cons vk vks)
    have "insort_key vk_created_at (no_hash vk) (map no_hash xs) = map no_hash (insort_key vk_created_at vk xs)" for xs
      by (induction xs) simp_all
    with Cons show ?case by simp
  qed simp
  then show ?thesis by (simp add: ListKeys_def scanKeyRow_hashless o_def rev_map split: option.split)
qed

lemma updateKeyField_hashless:
  assumes "\<And>g vk. f = Some g \<Longrightarrow> g (no_hash vk) = no_hash (g vk)"
  shows "updateKeyField c n i f (hashless db) = map_sum id hashless (updateKeyField c n i f db)"
proof (cases f)
  case (Some g)
  have "find (\<lambda>vk. vk_id vk = i \<and> checkVirtualKey (g vk) \<noteq> None) (map no_hash (virtual_keys db))
      = map_option no_hash (find (\<lambda>vk. vk_id vk = i \<and> checkVirtualKey (g vk) \<noteq> None) (virtual_keys db))"
    by (rule find_map_no_hash) (simp add: assms [OF Some])
  moreover have "update_where (\<lambda>vk. vk_id vk = i) g (map no_hash vks) = map no_hash (update_where (\<lambda>vk. vk_id vk = i) g vks)" for vks
    by (simp add: update_where_def assms [OF Some])
  ultimately show ?thesis
    using Some by (auto simp: updateKeyField_def hashless_def assms [OF Some] split: option.splits)
qed (simp add: updateKeyField_def)

lemma updateLimit_hashless: "updateLimit c n i l (hashless db) = map_sum id hashless (updateLimit c n i l db)"
  by (auto simp: updateLimit_def hashless_def split: option.splits)

lemma applyUpdate_hashless: "applyUpdate c i inp (hashless db) = map_sum id hashless (applyUpdate c i inp db)"
proof -
  have c: "case_sum Inl k (map_sum id hashless x) = map_sum id hashless (case_sum Inl k' x)"
    if "\<And>d. k (hashless d) = map_sum id hashless (k' d)" for x :: "store_error + DB" and k k' :: "DB \<Rightarrow> store_error + DB"
    using that by (cases x) simp_all
  show ?thesis
    unfolding applyUpdate_def
    by (subst updateKeyField_hashless, (auto simp: no_hash_def set_field_def split: option.splits if_splits)[1], rule c)+
      (rule updateLimit_hashless)
qed

lemma UpdateKey_hashless:
  "UpdateKey c i inp (hashless db) = map_prod id hashless (UpdateKey c i inp db)"
  by (auto simp: UpdateKey_def commit_tx_def applyUpdate_hashless keyByID_hashless list_ex_iff
      split: option.split sum.split)

lemma RevokeKey_hashless: "RevokeKey fault now i (hashless db) = map_prod id hashless (RevokeKey fault now i db)"
  by (auto simp: RevokeKey_def hashless_def update_where_def no_hash_def list_ex_iff split: option.split)

text \<open>
  Stored hashes never leave. Listing, updating and revoking answer the same for two databases that
  differ in nothing but the hashes of the keys, so no response of theirs tells anything about a stored
  hash, and with it about a credential.
\<close>

theorem hashes_stay_inside:
  assumes "hashless db = hashless db'"
  shows "handleListKeys L fault db = handleListKeys L fault db'
    \<and> fst (handleUpdateKey L s c r db) = fst (handleUpdateKey L s c r db')
    \<and> fst (handleRevokeKey L fault now r db) = fst (handleRevokeKey L fault now r db')"
proof (intro conjI)
  show "handleListKeys L fault db = handleListKeys L fault db'"
    using ListKeys_hashless [of fault db] ListKeys_hashless [of fault db'] assms by (simp add: handleListKeys_def)
  have u: "fst (UpdateKey c i inp db) = fst (UpdateKey c i inp db')" for i inp
    using UpdateKey_hashless [of c i inp db] UpdateKey_hashless [of c i inp db'] assms
    by (metis fst_map_prod id_apply)
  define reply where "reply out = (case out of
      Inl e \<Rightarrow> if e = ErrKeyNotFound then WriteError 404 ErrorTypeInvalidRequest ''no such key'' new_response
        else invalid (err_text L e)
    | Inr rec \<Rightarrow> WriteJSON 200 (key_json L (toKeyResponse L rec)) new_response)" for out
  have "fst (handleUpdateKey L s c r x) =
     (case pathUUID L r of Inl w \<Rightarrow> w | Inr i \<Rightarrow>
     (case decodeBody dec_raw_map [] (ar_Request r) of None \<Rightarrow> bad_body | Some raw \<Rightarrow>
     (case update_input L (sv_maxDrainMS s) raw of Inl e \<Rightarrow> invalid e | Inr inp \<Rightarrow> reply (fst (UpdateKey c i inp x)))))" for x
    by (auto simp: handleUpdateKey_def reply_def split: sum.split prod.split option.split store_error.split)
  then show "fst (handleUpdateKey L s c r db) = fst (handleUpdateKey L s c r db')" by (simp only: u)
  have v: "fst (RevokeKey fault now i db) = fst (RevokeKey fault now i db')" for i
    using RevokeKey_hashless [of fault now i db] RevokeKey_hashless [of fault now i db'] assms
    by (metis fst_map_prod id_apply)
  define answered where "answered out = (case out of
      Inl e \<Rightarrow> if e = ErrKeyNotFound then WriteError 404 ErrorTypeInvalidRequest ''no such key'' new_response
        else WriteError 500 ErrorTypeInternal ''could not revoke the key'' new_response
    | Inr u \<Rightarrow> write_header 204 (set_header ''Cache-Control'' ''no-store'' new_response))" for out :: "store_error + unit"
  have "fst (handleRevokeKey L fault now r x) =
     (case pathUUID L r of Inl w \<Rightarrow> w | Inr i \<Rightarrow> answered (fst (RevokeKey fault now i x)))" for x
    by (auto simp: handleRevokeKey_def answered_def split: sum.split prod.split store_error.split)
  then show "fst (handleRevokeKey L fault now r db) = fst (handleRevokeKey L fault now r db')" by (simp only: v)
qed

lemma hashes_stay_inside_witness:
  "handleListKeys sample_lib None (empty_DB\<lparr>virtual_keys := [sample_vk 7 ''k'']\<rparr>)
     = handleListKeys sample_lib None (empty_DB\<lparr>virtual_keys := [sample_vk 7 ''other'']\<rparr>)"
proof -
  have "hashless (empty_DB\<lparr>virtual_keys := [sample_vk 7 ''k'']\<rparr>) = hashless (empty_DB\<lparr>virtual_keys := [sample_vk 7 ''other'']\<rparr>)"
    by (simp add: hashless_def no_hash_def sample_vk_def)
  from hashes_stay_inside [OF this] show ?thesis by blast
qed

end
