(* ===== verification/Handler.thy ===== *)
theory Handler
  imports Router Normalise Credentials
begin

text \<open>
  Package \<open>proxy\<close>, files \<open>handler.go\<close>, \<open>stream_handler.go\<close> and \<open>body.go\<close>: one chat completion, from the
  bytes of the request to the accounting.

  The handler runs against a world that other requests share: before each of its database calls the
  others may change the database in any way, each call has the driver faults and the clock it meets,
  and the price table may be reloaded before a stream settles. Beside the response and the database the
  model returns the trace of what the handler asked of the store and of the provider, in order. A
  response of None is a panic in the provider, which the server turns into an aborted connection.

  The lemmas show that a reservation precedes every provider call, that every reservation granted is
  settled exactly once, at the price that the client and the usage record are told, and that the
  handler's effect on the database is a sequence of the store's own transactions.
\<close>

subsection \<open>Options\<close>

record 's GwOptions =
  o_Router :: "'s Router"
  o_MaxBodyBytes :: int
  o_DefaultMaxTokens :: int
  o_ReservationTTL :: duration
  o_ProviderTimeout :: duration
  o_DrainTimeout :: duration
  o_StreamWriteTimeout :: duration
  o_MaxConcurrentDrains :: int
  o_TierGuard :: float64
  o_PassthroughHeaderPrefixes :: "string list"
  o_Redactor :: "string list"
  o_Usage :: bool

definition second :: duration where "second = 1000000000"

definition New :: "'s GwOptions \<Rightarrow> 's GwOptions" where
  "New opts = opts
     \<lparr>o_MaxBodyBytes := (if o_MaxBodyBytes opts = 0 then 10 * 1048576 else o_MaxBodyBytes opts),
      o_DefaultMaxTokens := (if o_DefaultMaxTokens opts = 0 then 4096 else o_DefaultMaxTokens opts),
      o_ReservationTTL := (if o_ReservationTTL opts = 0 then 360 * second else o_ReservationTTL opts),
      o_ProviderTimeout := (if o_ProviderTimeout opts = 0 then 300 * second else o_ProviderTimeout opts),
      o_StreamWriteTimeout := (if o_StreamWriteTimeout opts = 0 then 30 * second else o_StreamWriteTimeout opts),
      o_MaxConcurrentDrains := (if o_MaxConcurrentDrains opts = 0 then 64 else o_MaxConcurrentDrains opts)\<rparr>"

definition drainTimeout :: "int option \<Rightarrow> duration \<Rightarrow> duration" where
  "drainTimeout perKeyMS fallback =
     (case perKeyMS of
        Some ms \<Rightarrow> if ms > 0 then i64 (ms * 1000000) else if fallback > 0 then fallback else 60 * second
      | None \<Rightarrow> if fallback > 0 then fallback else 60 * second)"

subsection \<open>The world around one request\<close>

text \<open>
  Database calls are numbered in the order the handler makes them: 0 reads whether the key has a
  budget, 1 reserves, 2 settles, 3 writes the usage record, 4 reads the remaining budget.
\<close>

record World =
  w_others :: "nat \<Rightarrow> DB \<Rightarrow> DB"
  w_conn :: "nat \<Rightarrow> Conn"
  w_now :: "nat \<Rightarrow> time"
  w_seen :: DB
  w_started :: time
  w_priced_at :: "nat \<Rightarrow> time"
  w_table :: "nat \<Rightarrow> Table"
  w_request_id :: string
  w_reservation_id :: uuid
  w_record_id :: uuid
  w_latency_ms :: int
  w_ttft_us :: int
  w_env :: "duration \<Rightarrow> Env"

datatype event =
    Reserved ReserveInput "store_error + ReserveOutput"
  | CalledProvider ProviderRequest
  | SettledAt SettleInput "store_error + SettleOutput"
  | Recorded Record

text \<open>The state the handler threads: the shared database and the trace.\<close>

record Gw = gw_db :: DB  gw_trace :: "event list"

definition log_event :: "event \<Rightarrow> Gw \<Rightarrow> Gw" where
  "log_event e g = g\<lparr>gw_trace := gw_trace g @ [e]\<rparr>"

definition do_reserve :: "World \<Rightarrow> ReserveInput \<Rightarrow> Gw \<Rightarrow> (store_error + ReserveOutput) \<times> Gw" where
  "do_reserve W inp g =
     (case Reserve (w_conn W 1) (w_now W 1) (w_seen W) (w_reservation_id W) inp (w_others W 1 (gw_db g)) of
        (r, db') \<Rightarrow> (r, log_event (Reserved inp r) (g\<lparr>gw_db := db'\<rparr>)))"

definition do_settle :: "World \<Rightarrow> uuid \<Rightarrow> decimal \<Rightarrow> Gw \<Rightarrow> Gw" where
  "do_settle W i cost g =
     (let inp = \<lparr>si_ReservationID = i, si_ActualUSD = cost\<rparr>
      in case Settle (w_conn W 2) (w_now W 2) inp (w_others W 2 (gw_db g)) of
           (r, db') \<Rightarrow> log_event (SettledAt inp r) (g\<lparr>gw_db := db'\<rparr>))"

text \<open>\<open>recordTo\<close>: with a sink the record leaves for the buffer, without one it is written here.\<close>

definition recordTo :: "'s GwOptions \<Rightarrow> World \<Rightarrow> Record \<Rightarrow> Gw \<Rightarrow> Gw" where
  "recordTo opts W rec g =
     log_event (Recorded rec)
       (if o_Usage opts then g\<lparr>gw_db := w_others W 3 (gw_db g)\<rparr>
        else g\<lparr>gw_db := snd (WriteUsageRecord (on_stmt (w_conn W 3) 0) (w_now W 3) rec (w_others W 3 (gw_db g)))\<rparr>)"

subsection \<open>Reading the request\<close>

record request = req_Model :: string  req_Stream :: bool  req_MaxTokens :: int

definition dec_request :: "json \<Rightarrow> request \<Rightarrow> request option" where
  "dec_request = dec_struct
     [(''model'', dec_string (\<lambda>x s. s\<lparr>req_Model := x\<rparr>)),
      (''stream'', dec_bool (\<lambda>b s. s\<lparr>req_Stream := b\<rparr>)),
      (''max_tokens'', dec_int (\<lambda>n s. s\<lparr>req_MaxTokens := n\<rparr>))]"

definition parse_request :: "string \<Rightarrow> request option" where
  "parse_request b = Unmarshal dec_request \<lparr>req_Model = [], req_Stream = False, req_MaxTokens = 0\<rparr> (json_parse b)"

definition readBody :: "HttpRequest \<Rightarrow> int \<Rightarrow> string option" where
  "readBody r limit = (if rq_Complete r \<and> int (length (rq_Body r)) \<le> limit then Some (rq_Body r) else None)"

definition passthroughHeaders :: "'s GwOptions \<Rightarrow> HttpRequest \<Rightarrow> (string \<times> string) list" where
  "passthroughHeaders opts r =
     map (\<lambda>(name, values). (name, hd values))
       (filter (\<lambda>(name, values). values \<noteq> [] \<and>
          list_ex (\<lambda>prefix. has_prefix (to_lower prefix) (to_lower name)) (o_PassthroughHeaderPrefixes opts))
        (rq_Header r))"

subsection \<open>Answering\<close>

definition upstreamErrorType :: "int \<Rightarrow> string" where
  "upstreamErrorType status =
     (if status = 429 then ''rate_limit_error'' else if status \<ge> 500 then ''upstream_error''
      else ErrorTypeInvalidRequest)"

definition itoa :: "int \<Rightarrow> string" where
  "itoa n = (if n = 0 then ''0'' else rev (digits_rev (nat n)))"

definition writeUpstreamError :: "'s GwOptions \<Rightarrow> provider_error \<Rightarrow> string \<Rightarrow> HttpResponse \<Rightarrow> HttpResponse" where
  "writeUpstreamError opts err providerName w =
     (case AsUnsupported err of
        Some u \<Rightarrow> WriteError 400 ''unsupported_parameter''
          (if un_Detail u \<noteq> [] then
             quoted (un_Parameter u) @ '' is not supported by '' @ providerName @ '' as sent: '' @ un_Detail u
           else quoted (un_Parameter u) @ '' is not supported by '' @ providerName
             @ ''; costlane refuses rather than silently dropping it'') w
      | None \<Rightarrow>
        (case AsUpstream err of
           None \<Rightarrow> WriteError 502 ErrorTypeUpstreamTimeout ''the upstream provider could not be reached'' w
         | Some u \<Rightarrow>
           (let w1 = (if eu_RetryAfter u \<noteq> [] then set_header ''Retry-After'' (eu_RetryAfter u) w else w)
            in if eu_Native u
               then write_body (RawBody (Redact (o_Redactor opts) (eu_Body u)))
                 (write_header (eu_StatusCode u) (set_header ''Cache-Control'' ''no-store''
                   (set_header ''Content-Type'' ''application/json'' w1)))
               else WriteError (eu_StatusCode u) (upstreamErrorType (eu_StatusCode u))
                 (''the '' @ providerName @ '' API returned '' @ itoa (eu_StatusCode u)) w1)))"

text \<open>The decimal renderer of the money library is \<open>dstr\<close>.\<close>

definition remainingBudget :: "(decimal \<Rightarrow> string) \<Rightarrow> World \<Rightarrow> uuid \<Rightarrow> Gw \<Rightarrow> string option" where
  "remainingBudget dstr W keyID g =
     (case RemainingBudget (on_stmt (w_conn W 4) 0) (w_others W 4 (gw_db g)) keyID of
        Inr (Some x) \<Rightarrow> Some (dstr x) | _ \<Rightarrow> None)"

definition writeResponse :: "(decimal \<Rightarrow> string) \<Rightarrow> World \<Rightarrow> ProviderResponse \<Rightarrow> decimal \<Rightarrow> Result \<Rightarrow> uuid
    \<Rightarrow> Gw \<Rightarrow> HttpResponse \<Rightarrow> HttpResponse \<times> Gw" where
  "writeResponse dstr W out cost result keyID g w =
     (let w1 = (if Unpriced result then w else set_header ''X-Costlane-Cost-Usd'' (dstr cost) w);
          w2 = (if pp_InjectedMaxTokens out > 0
                then set_header ''X-Costlane-Injected-Max-Tokens'' (itoa (pp_InjectedMaxTokens out)) w1 else w1);
          w3 = (case remainingBudget dstr W keyID g of
                  None \<Rightarrow> w2 | Some x \<Rightarrow> set_header ''X-Costlane-Budget-Remaining-Usd'' x w2)
      in (write_body (RawBody (pp_Body out)) (write_header (pp_StatusCode out)
            (set_header ''Cache-Control'' ''no-store'' (set_header ''Content-Type'' ''application/json'' w3))),
          g\<lparr>gw_db := w_others W 4 (gw_db g)\<rparr>))"

definition cost_of :: "(decimal \<Rightarrow> decimal \<Rightarrow> decimal) \<Rightarrow> Table \<Rightarrow> string \<Rightarrow> string \<Rightarrow> time \<Rightarrow> counts
    \<Rightarrow> decimal \<times> Result" where
  "cost_of ddiv t model providerName now cs =
     (case Cost ddiv t \<lparr>q_Model = model, q_Provider = providerName, q_Tier = TierStandard, q_At = now, q_Counts = cs\<rparr> of
        Inl e \<Rightarrow> (0, zero_Result)
      | Inr r \<Rightarrow> (Cost_of r, r))"

definition recordUsage :: "'s GwOptions \<Rightarrow> World \<Rightarrow> ReserveOutput \<Rightarrow> string \<Rightarrow> string \<Rightarrow> string
    \<Rightarrow> ProviderResponse \<Rightarrow> decimal \<Rightarrow> Result \<Rightarrow> Gw \<Rightarrow> Gw" where
  "recordUsage opts W ro requestedModel servedModel providerName out cost result g =
     recordTo opts W
       \<lparr>ID = w_record_id W, KeyID = ro_KeyID ro, ReservationID = Some (ro_ReservationID ro),
        RequestID = w_request_id W, RequestedModel = requestedModel, ServedModel = servedModel,
        Provider = providerName, ServiceTier = [], ProviderRequestID = pp_ProviderRequestID out,
        WindowStart = ro_WindowStart ro, TokenDetail = Some (pp_Counts out),
        CostUSD = (if Unpriced result then None else Some cost),
        UsageSource = (if pp_Degraded out then ''estimate'' else ''provider''),
        Rec_Unpriced = Unpriced result, Rec_PartiallyPriced = PartiallyPriced result,
        Streamed = False, ClientDisconnected = False, DrainTimeout = False,
        Rec_ParseErrors = pp_ParseErrors out, FinishReason = pp_FinishReason out,
        StatusCode = pp_StatusCode out, ErrorCode = [], LatencyMS = w_latency_ms W, TTFTMicros = 0\<rparr> g"

subsection \<open>Streams (stream_handler.go)\<close>

definition observe_counts :: "string list \<Rightarrow> counts" where
  "observe_counts payloads =
     fold (\<lambda>p seen. case NormaliseOpenAI (json_parse p) of Inr n \<Rightarrow> Counts n | Inl _ \<Rightarrow> seen) payloads []"

definition streamClosedCleanly :: "'s Stream \<Rightarrow> 's \<Rightarrow> PumpResult \<Rightarrow> bool" where
  "streamClosedCleanly stream s result =
     (case sm_ClosedCleanly stream of Some f \<Rightarrow> f s | None \<Rightarrow> SawDone result)"

text \<open>The counts a stream is settled for, and where they come from.\<close>

definition stream_counts :: "'s Stream \<Rightarrow> 's \<Rightarrow> counts \<Rightarrow> PumpResult \<Rightarrow> counts \<times> string" where
  "stream_counts stream s seen result =
     (let (c2, src2) =
            (if seen = [] then
               (case sm_Usage stream of
                  None \<Rightarrow> ([], ''provider'')
                | Some u \<Rightarrow> (case u s of (raw, reported) \<Rightarrow>
                    (fold (\<lambda>(k, n) c. AList.update k n c) raw [], if reported then ''provider'' else ''estimate'')))
             else (seen, ''provider''));
          (c3, src3) = (if c2 = [] then ([(KindOutput, int (Chunks result))], ''estimate'') else (c2, src2))
      in (c3, if PR_ClientDisconnected result \<and> \<not> Drained result \<and> \<not> sm_UsageIsCumulative stream
              then ''tokenizer'' else src3))"

record streamInput =
  in_body :: string
  in_bareModel :: string
  in_canonicalModel :: string
  in_requestedModel :: string
  in_maxTokens :: int
  in_reservation :: ReserveOutput
  in_headers :: "(string \<times> string) list"

definition settleStream :: "(decimal \<Rightarrow> decimal \<Rightarrow> decimal) \<Rightarrow> 's GwOptions \<Rightarrow> World \<Rightarrow> streamInput \<Rightarrow> string
    \<Rightarrow> 's Stream \<Rightarrow> 's \<Rightarrow> counts \<Rightarrow> PumpResult \<Rightarrow> bool \<Rightarrow> Gw \<Rightarrow> Gw" where
  "settleStream ddiv opts W inp providerName stream s seen result pumpErr g =
     (let (cs, source) = stream_counts stream s seen result;
          served = (if sm_ServedModel stream = [] then in_canonicalModel inp else sm_ServedModel stream);
          (cost, cres) = cost_of ddiv (w_table W 1) served providerName (w_priced_at W 1) cs;
          g1 = do_settle W (ro_ReservationID (in_reservation inp)) cost g
      in recordTo opts W
           \<lparr>ID = w_record_id W, KeyID = ro_KeyID (in_reservation inp),
            ReservationID = Some (ro_ReservationID (in_reservation inp)), RequestID = w_request_id W,
            RequestedModel = in_requestedModel inp, ServedModel = served, Provider = providerName,
            ServiceTier = [], ProviderRequestID = sm_ProviderRequestID stream,
            WindowStart = ro_WindowStart (in_reservation inp), TokenDetail = Some cs,
            CostUSD = (if Unpriced cres then None else Some cost), UsageSource = source,
            Rec_Unpriced = Unpriced cres, Rec_PartiallyPriced = PartiallyPriced cres, Streamed = True,
            ClientDisconnected = PR_ClientDisconnected result, DrainTimeout = DrainTimedOut result,
            Rec_ParseErrors = int (PR_ParseErrors result), FinishReason = [], StatusCode = 200,
            ErrorCode = (if pumpErr then ''stream_interrupted''
                         else if \<not> streamClosedCleanly stream s result then ''stream_truncated'' else []),
            LatencyMS = w_latency_ms W, TTFTMicros = w_ttft_us W\<rparr> g1)"

definition trailingChunks :: "'s Stream \<Rightarrow> ('s \<Rightarrow> string list) option" where
  "trailingChunks stream = (if sm_ClientWantsUsage stream then sm_TrailingChunks stream else None)"

definition pump_options :: "'s Stream \<Rightarrow> bool \<Rightarrow> 's PumpOptions" where
  "pump_options stream drain = \<lparr>CancelUpstream = True, Drain = drain, DrainSlot = True,
     StripUsageChunk = \<not> sm_ClientWantsUsage stream, ObserveUsage = True,
     Translate = sm_Translate stream, TrailingChunks = trailingChunks stream\<rparr>"

definition stream_error_json :: string where
  "stream_error_json = ''{'' @ quoted ''error'' @ '':{'' @ quoted ''code'' @ '':'' @ quoted ErrorTypeUpstreamTimeout
     @ '','' @ quoted ''message'' @ '':'' @ quoted ''the upstream stream ended unexpectedly''
     @ '','' @ quoted ''type'' @ '':'' @ quoted ErrorTypeUpstreamTimeout @ ''}}''"

definition writeStreamError :: "HttpResponse \<Rightarrow> HttpResponse" where
  "writeStreamError w = write_body (RawBody done_chunk) (write_body (RawBody (encodeSSE stream_error_json)) w)"

definition stream_headers :: "int \<Rightarrow> HttpResponse \<Rightarrow> HttpResponse" where
  "stream_headers injected w =
     (let w1 = set_header ''X-Accel-Buffering'' ''no'' (set_header ''Connection'' ''keep-alive''
                 (set_header ''Cache-Control'' ''no-cache'' (set_header ''Content-Type'' ''text/event-stream'' w)))
      in write_header 200
           (if injected > 0 then set_header ''X-Costlane-Injected-Max-Tokens'' (itoa injected) w1 else w1))"

definition serveStream :: "(decimal \<Rightarrow> decimal \<Rightarrow> decimal) \<Rightarrow> 's GwOptions \<Rightarrow> World \<Rightarrow> 's Provider \<Rightarrow> streamInput
    \<Rightarrow> Gw \<Rightarrow> HttpResponse \<Rightarrow> HttpResponse option \<times> Gw" where
  "serveStream ddiv opts W upstream inp g w =
     (let rid = ro_ReservationID (in_reservation inp)
      in case pv_Stream upstream of
           None \<Rightarrow> (Some (WriteError 501 ErrorTypeInvalidRequest
                       ''this provider does not support streaming through costlane yet'' w), do_settle W rid 0 g)
         | Some call \<Rightarrow>
           (let preq = \<lparr>pr_Body = in_body inp, pr_Model = in_bareModel inp, pr_Stream = True,
                        pr_MaxTokens = in_maxTokens inp, pr_PassthroughHeaders = in_headers inp\<rparr>;
                g1 = log_event (CalledProvider preq) g
            in case call preq of
                 None \<Rightarrow> (None, do_settle W rid 0 g1)
               | Some (Inl err) \<Rightarrow> (Some (writeUpstreamError opts err (pv_Name upstream) w), do_settle W rid 0 g1)
               | Some (Inr stream) \<Rightarrow>
                 (let w1 = stream_headers (sm_InjectedMaxTokens stream) w;
                      env = w_env W (drainTimeout (ro_DrainTimeoutMS (in_reservation inp)) (o_DrainTimeout opts))
                  in case Pump (pump_options stream (ro_DisconnectPolicy (in_reservation inp) = ''drain''))
                            env (sm_state stream) (sm_Body stream) of
                       (e, st) \<Rightarrow>
                         if e = Some NilSemaphore then (None, do_settle W rid 0 g1)
                         else (let w2 = fold (\<lambda>c w. write_body (RawBody c) w) (written st) w1;
                                   w3 = (if e \<noteq> None \<and> \<not> PR_ClientDisconnected (res st)
                                         then writeStreamError w2 else w2)
                               in (Some w3, settleStream ddiv opts W inp (pv_Name upstream) stream (tr st)
                                     (observe_counts (observed st)) (res st) (e \<noteq> None) g1)))))"

subsection \<open>One request (handler.go)\<close>

definition serveComplete :: "(decimal \<Rightarrow> decimal \<Rightarrow> decimal) \<Rightarrow> (decimal \<Rightarrow> string) \<Rightarrow> 's GwOptions \<Rightarrow> World
    \<Rightarrow> 's Provider \<Rightarrow> streamInput \<Rightarrow> Gw \<Rightarrow> HttpResponse \<Rightarrow> HttpResponse option \<times> Gw" where
  "serveComplete ddiv dstr opts W upstream inp g w =
     (let rid = ro_ReservationID (in_reservation inp);
          preq = \<lparr>pr_Body = in_body inp, pr_Model = in_bareModel inp, pr_Stream = False,
                  pr_MaxTokens = in_maxTokens inp, pr_PassthroughHeaders = in_headers inp\<rparr>;
          g1 = log_event (CalledProvider preq) g
      in case pv_Complete upstream preq of
           None \<Rightarrow> (None, do_settle W rid 0 g1)
         | Some (Inl err) \<Rightarrow> (Some (writeUpstreamError opts err (pv_Name upstream) w), do_settle W rid 0 g1)
         | Some (Inr out) \<Rightarrow>
           (let served = (if pp_ServedModel out = [] then in_canonicalModel inp else pp_ServedModel out);
                (cost, cres) = cost_of ddiv (w_table W 0) served (pv_Name upstream) (w_priced_at W 0) (pp_Counts out);
                g2 = do_settle W rid cost g1;
                g3 = recordUsage opts W (in_reservation inp) (in_requestedModel inp) served (pv_Name upstream)
                       out cost cres g2;
                (w1, g4) = writeResponse dstr W out cost cres (ro_KeyID (in_reservation inp)) g3 w
            in (Some w1, g4)))"

text \<open>
  The checks that come before the reservation: an answer, or what the rest of the request needs. The
  database is only read, and only for a model without a price.
\<close>

record 's admitted =
  ad_body :: string
  ad_req :: request
  ad_upstream :: "'s Provider"
  ad_bareModel :: string
  ad_canonical :: string
  ad_keyHash :: string
  ad_estimate :: decimal

definition admit :: "(string \<Rightarrow> string) \<Rightarrow> (decimal \<Rightarrow> decimal \<Rightarrow> decimal) \<Rightarrow> 's GwOptions \<Rightarrow> World \<Rightarrow> HttpRequest
    \<Rightarrow> Gw \<Rightarrow> HttpResponse \<Rightarrow> (HttpResponse + 's admitted) \<times> Gw" where
  "admit sha ddiv opts W r g w =
     (case BearerToken r of
        None \<Rightarrow> (Inl (WriteError 401 ErrorTypeInvalidAPIKey ''a credential is required in the Authorization header'' w), g)
      | Some token \<Rightarrow>
     (case readBody r (o_MaxBodyBytes opts) of
        None \<Rightarrow> (Inl (WriteError 400 ErrorTypeInvalidRequest ''the request body could not be read'' w), g)
      | Some body \<Rightarrow>
     (case parse_request body of
        None \<Rightarrow> (Inl (WriteError 400 ErrorTypeInvalidRequest ''the request body is not valid JSON'' w), g)
      | Some req \<Rightarrow>
        if req_Model req = [] then (Inl (WriteError 400 ErrorTypeInvalidRequest ''model is required'' w), g) else
     (case Route (o_Router opts) (req_Model req) of
        None \<Rightarrow> (Inl (WriteError 404 ErrorTypeModelNotFound (''no provider serves model '' @ quoted (req_Model req)) w), g)
      | Some (upstream, bareModel) \<Rightarrow>
        (let table = w_table W 0; now = w_priced_at W 0;
             canonical = Resolve table bareModel (pv_Name upstream) now
         in case Estimate ddiv table \<lparr>e_Model = canonical, e_Provider = pv_Name upstream, e_Tier = TierStandard,
                  e_At = now, e_PromptBytes = int (length body), e_MaxTokens = req_MaxTokens req,
                  e_DefaultMaxTokens = o_DefaultMaxTokens opts, e_GuardFactor = o_TierGuard opts\<rparr> of
              Inl e \<Rightarrow> (Inl (WriteError 500 ErrorTypeInternal ''the request could not be priced'' w), g)
            | Inr (estimate, eres) \<Rightarrow>
              (let keyHash = Hash sha token;
                   ok = Inr \<lparr>ad_body = body, ad_req = req, ad_upstream = upstream, ad_bareModel = bareModel,
                             ad_canonical = canonical, ad_keyHash = keyHash, ad_estimate = estimate\<rparr>
               in if \<not> Unpriced eres then (ok, g)
                  else (let g1 = g\<lparr>gw_db := w_others W 0 (gw_db g)\<rparr>
                        in case KeyHasBudget (on_stmt (w_conn W 0) 0) (gw_db g1) keyHash of
                             Inl e \<Rightarrow> (Inl (WriteReserveError e w), g1)
                           | Inr True \<Rightarrow> (Inl (WriteError 400 ErrorTypeModelNotPriced
                               (''model '' @ quoted (req_Model req) @ '' has no active price, and this key has a budget: ''
                                @ ''costlane refuses rather than letting untracked spend through'') w), g1)
                           | Inr False \<Rightarrow> (ok, g1))))))))"

definition reserve_input :: "'s GwOptions \<Rightarrow> 's admitted \<Rightarrow> ReserveInput" where
  "reserve_input opts ad = \<lparr>ri_KeyHash = ad_keyHash ad, ri_Model = req_Model (ad_req ad),
     ri_EstimatedUSD = ad_estimate ad, ri_TTL = o_ReservationTTL opts\<rparr>"

definition stream_input :: "'s GwOptions \<Rightarrow> HttpRequest \<Rightarrow> 's admitted \<Rightarrow> ReserveOutput \<Rightarrow> streamInput" where
  "stream_input opts r ad ro =
     \<lparr>in_body = ad_body ad, in_bareModel = ad_bareModel ad, in_canonicalModel = ad_canonical ad,
      in_requestedModel = req_Model (ad_req ad), in_maxTokens = req_MaxTokens (ad_req ad),
      in_reservation = ro, in_headers = passthroughHeaders opts r\<rparr>"

definition with_request_id :: "World \<Rightarrow> HttpResponse" where
  "with_request_id W = set_header ''X-Costlane-Request-Id'' (w_request_id W) new_response"

definition ServeHTTP :: "(string \<Rightarrow> string) \<Rightarrow> (decimal \<Rightarrow> decimal \<Rightarrow> decimal) \<Rightarrow> (decimal \<Rightarrow> string)
    \<Rightarrow> 's GwOptions \<Rightarrow> World \<Rightarrow> HttpRequest \<Rightarrow> DB \<Rightarrow> HttpResponse option \<times> Gw" where
  "ServeHTTP sha ddiv dstr opts W r db0 =
     (case admit sha ddiv opts W r \<lparr>gw_db = db0, gw_trace = []\<rparr> (with_request_id W) of
        (Inl refusal, g) \<Rightarrow> (Some refusal, g)
      | (Inr ad, g) \<Rightarrow>
        (case do_reserve W (reserve_input opts ad) g of
           (Inl e, g1) \<Rightarrow> (Some (WriteReserveError e (with_request_id W)), g1)
         | (Inr ro, g1) \<Rightarrow>
           if req_Stream (ad_req ad)
           then serveStream ddiv opts W (ad_upstream ad) (stream_input opts r ad ro) g1 (with_request_id W)
           else serveComplete ddiv dstr opts W (ad_upstream ad) (stream_input opts r ad ro) g1 (with_request_id W)))"

lemma ServeHTTP_cases:
  assumes "ServeHTTP sha ddiv dstr opts W r db0 = (resp, g)"
  obtains
    (refused) a where "admit sha ddiv opts W r \<lparr>gw_db = db0, gw_trace = []\<rparr> (with_request_id W) = (Inl a, g)"
      "resp = Some a"
  | (denied) ad g0 e where "admit sha ddiv opts W r \<lparr>gw_db = db0, gw_trace = []\<rparr> (with_request_id W) = (Inr ad, g0)"
      "do_reserve W (reserve_input opts ad) g0 = (Inl e, g)" "resp = Some (WriteReserveError e (with_request_id W))"
  | (streamed) ad g0 ro g1 where
      "admit sha ddiv opts W r \<lparr>gw_db = db0, gw_trace = []\<rparr> (with_request_id W) = (Inr ad, g0)"
      "do_reserve W (reserve_input opts ad) g0 = (Inr ro, g1)"
      "serveStream ddiv opts W (ad_upstream ad) (stream_input opts r ad ro) g1 (with_request_id W) = (resp, g)"
      "req_Stream (ad_req ad)"
  | (completed) ad g0 ro g1 where
      "admit sha ddiv opts W r \<lparr>gw_db = db0, gw_trace = []\<rparr> (with_request_id W) = (Inr ad, g0)"
      "do_reserve W (reserve_input opts ad) g0 = (Inr ro, g1)"
      "serveComplete ddiv dstr opts W (ad_upstream ad) (stream_input opts r ad ro) g1 (with_request_id W) = (resp, g)"
      "\<not> req_Stream (ad_req ad)"
  using assms unfolding ServeHTTP_def by (auto split: prod.splits sum.splits if_splits)

subsection \<open>The trace of one request\<close>

lemma log_event_simps [simp]:
  "gw_db (log_event e g) = gw_db g" "gw_trace (log_event e g) = gw_trace g @ [e]"
  by (simp_all add: log_event_def)

lemma admit_trace: "admit sha ddiv opts W r g w = (a, g') \<Longrightarrow> gw_trace g' = gw_trace g"
  by (auto simp: admit_def Let_def split: option.splits sum.splits prod.splits if_splits bool.splits)

lemma do_reserve_trace: "do_reserve W inp g = (r, g') \<Longrightarrow> gw_trace g' = gw_trace g @ [Reserved inp r]"
  by (auto simp: do_reserve_def split: prod.splits)

lemma do_settle_trace:
  "\<exists>out. gw_trace (do_settle W i cost g) = gw_trace g @ [SettledAt \<lparr>si_ReservationID = i, si_ActualUSD = cost\<rparr> out]"
  by (simp add: do_settle_def Let_def split: prod.split)

lemma recordTo_trace [simp]: "gw_trace (recordTo opts W rec g) = gw_trace g @ [Recorded rec]"
  by (simp add: recordTo_def)

lemma writeResponse_trace: "writeResponse dstr W out cost cres key g w = (w', g') \<Longrightarrow> gw_trace g' = gw_trace g"
  by (auto simp: writeResponse_def Let_def)

text \<open>What a record says of the money: the amount settled, or nothing for an unpriced model.\<close>

definition record_of :: "uuid \<Rightarrow> uuid \<Rightarrow> decimal \<Rightarrow> Record \<Rightarrow> bool" where
  "record_of rid key cost rec \<longleftrightarrow> ReservationID rec = Some rid \<and> KeyID rec = key
     \<and> CostUSD rec = (if Rec_Unpriced rec then None else Some cost)"

text \<open>The part of a trace after a granted reservation.\<close>

definition paid_tail :: "ReserveOutput \<Rightarrow> event list \<Rightarrow> bool" where
  "paid_tail ro tail \<longleftrightarrow>
     (\<exists>calls cost out recs. tail = calls @ SettledAt \<lparr>si_ReservationID = ro_ReservationID ro, si_ActualUSD = cost\<rparr> out # recs
        \<and> (calls = [] \<or> (\<exists>p. calls = [CalledProvider p]))
        \<and> (recs = [] \<and> cost = 0 \<or> (\<exists>rec. recs = [Recorded rec] \<and> record_of (ro_ReservationID ro) (ro_KeyID ro) cost rec)))"

lemma paid_tailI:
  assumes "tail = calls @ [SettledAt \<lparr>si_ReservationID = ro_ReservationID ro, si_ActualUSD = 0\<rparr> out]"
    "calls = [] \<or> (\<exists>p. calls = [CalledProvider p])"
  shows "paid_tail ro tail"
  unfolding paid_tail_def using assms by (intro exI [of _ calls] exI [of _ 0] exI [of _ out] exI [of _ "[]"]) simp

lemma paid_tail_released:
  assumes "gw_trace g = gw_trace g0 @ calls" "calls = [] \<or> (\<exists>p. calls = [CalledProvider p])"
  shows "\<exists>tail. gw_trace (do_settle W (ro_ReservationID ro) 0 g) = gw_trace g0 @ tail \<and> paid_tail ro tail"
  using do_settle_trace [of W "ro_ReservationID ro" 0 g] assms paid_tailI [of _ calls ro] by auto

lemma paid_tail_recorded:
  assumes "gw_trace g = gw_trace g0 @ [CalledProvider p]" "record_of (ro_ReservationID ro) (ro_KeyID ro) cost rec"
  shows "\<exists>tail. gw_trace (do_settle W (ro_ReservationID ro) cost g) @ [Recorded rec] = gw_trace g0 @ tail
    \<and> paid_tail ro tail"
proof -
  obtain out where "gw_trace (do_settle W (ro_ReservationID ro) cost g)
      = gw_trace g @ [SettledAt \<lparr>si_ReservationID = ro_ReservationID ro, si_ActualUSD = cost\<rparr> out]"
    using do_settle_trace by blast
  with assms have "gw_trace (do_settle W (ro_ReservationID ro) cost g) @ [Recorded rec] = gw_trace g0 @
      ([CalledProvider p] @ SettledAt \<lparr>si_ReservationID = ro_ReservationID ro, si_ActualUSD = cost\<rparr> out # [Recorded rec])"
    by simp
  then show ?thesis unfolding paid_tail_def using assms(2) by blast
qed

lemma serveStream_trace:
  "serveStream ddiv opts W up inp g w = (resp, g')
   \<Longrightarrow> \<exists>tail. gw_trace g' = gw_trace g @ tail \<and> paid_tail (in_reservation inp) tail"
  unfolding serveStream_def Let_def
  by (auto simp: settleStream_def Let_def record_of_def split: option.splits sum.splits prod.splits if_splits
      intro!: paid_tail_released paid_tail_recorded)

lemma serveComplete_trace:
  "serveComplete ddiv dstr opts W up inp g w = (resp, g')
   \<Longrightarrow> \<exists>tail. gw_trace g' = gw_trace g @ tail \<and> paid_tail (in_reservation inp) tail"
  unfolding serveComplete_def Let_def
  by (auto simp: recordUsage_def record_of_def writeResponse_def Let_def split: option.splits sum.splits prod.splits if_splits
      intro!: paid_tail_released paid_tail_recorded)

lemma stream_input_reservation [simp]: "in_reservation (stream_input opts r ad ro) = ro"
  by (simp add: stream_input_def)

lemma ServeHTTP_trace:
  assumes "ServeHTTP sha ddiv dstr opts W r db0 = (resp, g)"
  shows "gw_trace g = [] \<or> (\<exists>inp e. gw_trace g = [Reserved inp (Inl e)])
    \<or> (\<exists>inp ro tail. gw_trace g = Reserved inp (Inr ro) # tail \<and> paid_tail ro tail)"
  using assms
proof (cases rule: ServeHTTP_cases)
  case (refused a)
  with admit_trace show ?thesis by fastforce
next
  case (denied ad g0 e)
  with admit_trace [OF denied(1)] do_reserve_trace [OF denied(2)] show ?thesis by simp
next
  case (streamed ad g0 ro g1)
  with admit_trace [OF streamed(1)] do_reserve_trace [OF streamed(2)] serveStream_trace [OF streamed(3)]
  show ?thesis by auto
next
  case (completed ad g0 ro g1)
  with admit_trace [OF completed(1)] do_reserve_trace [OF completed(2)] serveComplete_trace [OF completed(3)]
  show ?thesis by auto
qed

subsection \<open>The handler only runs the store's transactions\<close>

definition others_ok :: "World \<Rightarrow> bool" where
  "others_ok W \<longleftrightarrow> (\<forall>k db. db_step\<^sup>*\<^sup>* db (w_others W k db))"

lemma admit_steps:
  "admit sha ddiv opts W r g w = (a, g') \<Longrightarrow> others_ok W \<Longrightarrow> db_step\<^sup>*\<^sup>* (gw_db g) (gw_db g')"
  by (auto simp: admit_def others_ok_def Let_def split: option.splits sum.splits prod.splits if_splits bool.splits)

lemma others_step: "others_ok W \<Longrightarrow> db_step (w_others W k db) db' \<Longrightarrow> db_step\<^sup>*\<^sup>* db db'"
  unfolding others_ok_def by (meson rtranclp.rtrancl_into_rtrancl)

lemma do_reserve_steps:
  assumes "do_reserve W inp g = (r, g')" "others_ok W"
  shows "db_step\<^sup>*\<^sup>* (gw_db g) (gw_db g')"
proof -
  from assms(1) obtain db' where "Reserve (w_conn W 1) (w_now W 1) (w_seen W) (w_reservation_id W) inp
      (w_others W 1 (gw_db g)) = (r, db')" "gw_db g' = db'"
    by (auto simp: do_reserve_def split: prod.splits)
  with assms(2) show ?thesis using others_step step_fixed step_reserve by metis
qed

lemma do_settle_steps:
  assumes "others_ok W"
  shows "db_step\<^sup>*\<^sup>* (gw_db g) (gw_db (do_settle W i cost g))"
proof -
  obtain r db' where r: "Settle (w_conn W 2) (w_now W 2) \<lparr>si_ReservationID = i, si_ActualUSD = cost\<rparr>
      (w_others W 2 (gw_db g)) = (r, db')" by fastforce
  then have "gw_db (do_settle W i cost g) = db'" by (simp add: do_settle_def Let_def)
  with r assms show ?thesis using others_step step_fixed step_settle by metis
qed

lemma recordTo_steps:
  assumes "others_ok W"
  shows "db_step\<^sup>*\<^sup>* (gw_db g) (gw_db (recordTo opts W rec g))"
proof -
  let ?db = "w_others W 3 (gw_db g)"
  have "db_step ?db (snd (WriteUsageRecord (on_stmt (w_conn W 3) 0) (w_now W 3) rec ?db))"
    by (rule step_fixed, rule step_record) (rule prod.collapse [symmetric])
  from others_step [OF assms this] assms show ?thesis by (auto simp: recordTo_def others_ok_def)
qed

lemma settle_then_record_steps:
  "others_ok W \<Longrightarrow> gw_db g0 = gw_db g \<Longrightarrow> db_step\<^sup>*\<^sup>* (gw_db g0) (gw_db (recordTo opts W rec (do_settle W i cost g)))"
  using do_settle_steps recordTo_steps by (metis rtranclp_trans)

lemma release_steps: "others_ok W \<Longrightarrow> gw_db g0 = gw_db g \<Longrightarrow> db_step\<^sup>*\<^sup>* (gw_db g0) (gw_db (do_settle W i 0 g))"
  using do_settle_steps by simp

lemma serveStream_steps:
  "serveStream ddiv opts W up inp g w = (resp, g') \<Longrightarrow> others_ok W \<Longrightarrow> db_step\<^sup>*\<^sup>* (gw_db g) (gw_db g')"
  unfolding serveStream_def Let_def
  by (auto simp: settleStream_def Let_def split: option.splits sum.splits prod.splits if_splits
      intro!: settle_then_record_steps release_steps)

lemma serveComplete_steps:
  assumes "serveComplete ddiv dstr opts W up inp g w = (resp, g')" "others_ok W"
  shows "db_step\<^sup>*\<^sup>* (gw_db g) (gw_db g')"
proof -
  have last: "db_step\<^sup>*\<^sup>* x y \<Longrightarrow> db_step\<^sup>*\<^sup>* x (w_others W 4 y)" for x y
    using assms(2) unfolding others_ok_def by (meson rtranclp_trans)
  show ?thesis using assms unfolding serveComplete_def Let_def
    by (auto simp: recordUsage_def writeResponse_def Let_def split: option.splits sum.splits prod.splits if_splits
        intro!: last settle_then_record_steps release_steps)
qed

lemma ServeHTTP_steps:
  assumes "ServeHTTP sha ddiv dstr opts W r db0 = (resp, g)" "others_ok W"
  shows "db_step\<^sup>*\<^sup>* db0 (gw_db g)"
  using assms(1)
proof (cases rule: ServeHTTP_cases)
  case (refused a)
  from admit_steps [OF refused(1) assms(2)] show ?thesis by simp
next
  case (denied ad g0 e)
  from admit_steps [OF denied(1) assms(2)] do_reserve_steps [OF denied(2) assms(2)] show ?thesis by simp
next
  case (streamed ad g0 ro g1)
  from admit_steps [OF streamed(1) assms(2)] do_reserve_steps [OF streamed(2) assms(2)]
    serveStream_steps [OF streamed(3) assms(2)] show ?thesis by simp
next
  case (completed ad g0 ro g1)
  from admit_steps [OF completed(1) assms(2)] do_reserve_steps [OF completed(2) assms(2)]
    serveComplete_steps [OF completed(3) assms(2)] show ?thesis by simp
qed

subsection \<open>What has been checked before the provider is called\<close>

text \<open>
  A request that was let through: its credential, its body, its route, the estimate of its price, and
  for a model without a price a key that was seen to have no budget.
\<close>

definition covered :: "(string \<Rightarrow> string) \<Rightarrow> (decimal \<Rightarrow> decimal \<Rightarrow> decimal) \<Rightarrow> 's GwOptions \<Rightarrow> World \<Rightarrow> HttpRequest
    \<Rightarrow> DB \<Rightarrow> 's admitted \<Rightarrow> bool" where
  "covered sha ddiv opts W r db0 ad \<longleftrightarrow>
     (\<exists>token eres. BearerToken r = Some token \<and> ad_keyHash ad = Hash sha token
        \<and> ad_body ad = rq_Body r \<and> int (length (rq_Body r)) \<le> o_MaxBodyBytes opts
        \<and> parse_request (rq_Body r) = Some (ad_req ad)
        \<and> Route (o_Router opts) (req_Model (ad_req ad)) = Some (ad_upstream ad, ad_bareModel ad)
        \<and> Estimate ddiv (w_table W 0)
            \<lparr>e_Model = Resolve (w_table W 0) (ad_bareModel ad) (pv_Name (ad_upstream ad)) (w_priced_at W 0),
             e_Provider = pv_Name (ad_upstream ad), e_Tier = TierStandard,
             e_At = w_priced_at W 0, e_PromptBytes = int (length (rq_Body r)),
             e_MaxTokens = req_MaxTokens (ad_req ad), e_DefaultMaxTokens = o_DefaultMaxTokens opts,
             e_GuardFactor = o_TierGuard opts\<rparr> = Inr (ad_estimate ad, eres)
        \<and> (Unpriced eres \<longrightarrow> KeyHasBudget (on_stmt (w_conn W 0) 0) (w_others W 0 db0) (ad_keyHash ad) = Inr False))"

lemma admit_covered:
  "admit sha ddiv opts W r \<lparr>gw_db = db0, gw_trace = t\<rparr> w = (Inr ad, g) \<Longrightarrow> covered sha ddiv opts W r db0 ad"
  unfolding admit_def covered_def Let_def
  by (auto simp: readBody_def split: option.splits sum.splits prod.splits if_splits bool.splits)

lemma called_do_settle [simp]:
  "CalledProvider p \<in> set (gw_trace (do_settle W i cost g)) \<longleftrightarrow> CalledProvider p \<in> set (gw_trace g)"
  using do_settle_trace [of W i cost g] by auto

definition provider_request :: "streamInput \<Rightarrow> bool \<Rightarrow> ProviderRequest" where
  "provider_request inp s = \<lparr>pr_Body = in_body inp, pr_Model = in_bareModel inp, pr_Stream = s,
     pr_MaxTokens = in_maxTokens inp, pr_PassthroughHeaders = in_headers inp\<rparr>"

lemma serveStream_calls:
  "serveStream ddiv opts W up inp g w = (resp, g') \<Longrightarrow> CalledProvider p \<in> set (gw_trace g')
   \<Longrightarrow> CalledProvider p \<in> set (gw_trace g) \<or> p = provider_request inp True"
  unfolding serveStream_def Let_def
  by (auto simp: settleStream_def Let_def provider_request_def split: option.splits sum.splits prod.splits if_splits)

lemma serveComplete_calls:
  "serveComplete ddiv dstr opts W up inp g w = (resp, g') \<Longrightarrow> CalledProvider p \<in> set (gw_trace g')
   \<Longrightarrow> CalledProvider p \<in> set (gw_trace g) \<or> p = provider_request inp False"
  unfolding serveComplete_def Let_def
  by (auto simp: recordUsage_def writeResponse_def Let_def provider_request_def
      split: option.splits sum.splits prod.splits if_splits)

text \<open>The cost header is set by a priced, completed response and by nothing else.\<close>

definition cost_header :: "HttpResponse \<Rightarrow> string option" where
  "cost_header w = map_of (rs_Header w) ''X-Costlane-Cost-Usd''"

lemma cost_header_set [simp]:
  "cost_header (set_header k v w) = (if k = ''X-Costlane-Cost-Usd'' then Some v else cost_header w)"
  by (simp add: cost_header_def set_header_def update_conv')

lemma cost_header_write [simp]:
  "cost_header (write_header s w) = cost_header w" "cost_header (write_body b w) = cost_header w"
  by (simp_all add: cost_header_def write_header_def write_body_def split: option.split)

lemma cost_header_errors [simp]:
  "cost_header (answer s b w) = cost_header w" "cost_header (WriteError s t m w) = cost_header w"
  "cost_header (WriteReserveError e w) = cost_header w"
  "cost_header (writeUpstreamError opts err name w) = cost_header w"
  "cost_header (stream_headers n w) = cost_header w" "cost_header (writeStreamError w) = cost_header w"
  "cost_header (fold (\<lambda>c w. write_body (RawBody c) w) cs w) = cost_header w"
proof -
  show a [simp]: "cost_header (answer s b w) = cost_header w" for s b w by (simp add: answer_def)
  show e [simp]: "cost_header (WriteError s t m w) = cost_header w" for s t m w by (simp add: WriteError_def)
  show "cost_header (WriteReserveError e w) = cost_header w"
    by (simp add: WriteReserveError_def writeBudgetExceeded_def split: store_error.split)
  show "cost_header (writeUpstreamError opts err name w) = cost_header w"
    by (simp add: writeUpstreamError_def Let_def split: option.split)
  show "cost_header (stream_headers n w) = cost_header w" "cost_header (writeStreamError w) = cost_header w"
    by (simp_all add: stream_headers_def writeStreamError_def Let_def)
  show "cost_header (fold (\<lambda>c w. write_body (RawBody c) w) cs w) = cost_header w"
    by (induction cs arbitrary: w) simp_all
qed

lemma with_request_id_cost [simp]: "cost_header (with_request_id W) = None"
  by (simp add: with_request_id_def) (simp add: cost_header_def new_response_def)

lemma admit_cost_header:
  "admit sha ddiv opts W r g w = (Inl a, g') \<Longrightarrow> cost_header a = cost_header w"
  by (auto simp: admit_def Let_def split: option.splits sum.splits prod.splits if_splits bool.splits)

lemma serveStream_cost_header:
  "serveStream ddiv opts W up inp g w = (Some w', g') \<Longrightarrow> cost_header w' = cost_header w"
  unfolding serveStream_def Let_def by (auto split: option.splits sum.splits prod.splits if_splits)

lemma serveComplete_cost_header:
  assumes "serveComplete ddiv dstr opts W up inp g w = (Some w', g')" "cost_header w = None" "cost_header w' = Some v"
  shows "\<exists>cost out rec. v = dstr cost \<and> CostUSD rec = Some cost
    \<and> SettledAt \<lparr>si_ReservationID = ro_ReservationID (in_reservation inp), si_ActualUSD = cost\<rparr> out \<in> set (gw_trace g')
    \<and> Recorded rec \<in> set (gw_trace g')"
proof -
  obtain out' where out': "pv_Complete up (provider_request inp False) = Some (Inr out')"
    using assms unfolding serveComplete_def Let_def provider_request_def
    by (auto split: option.splits sum.splits)
  define served where "served = (if pp_ServedModel out' = [] then in_canonicalModel inp else pp_ServedModel out')"
  obtain cost cres where c: "cost_of ddiv (w_table W 0) served (pv_Name up) (w_priced_at W 0) (pp_Counts out') = (cost, cres)"
    by fastforce
  define g1 where "g1 = do_settle W (ro_ReservationID (in_reservation inp)) cost (log_event (CalledProvider (provider_request inp False)) g)"
  define g2 where "g2 = recordUsage opts W (in_reservation inp) (in_requestedModel inp) served (pv_Name up) out' cost cres g1"
  have resp: "writeResponse dstr W out' cost cres (ro_KeyID (in_reservation inp)) g2 w = (w', g')"
    using assms(1) out' c unfolding serveComplete_def Let_def provider_request_def [symmetric] served_def
    by (auto simp: g1_def g2_def served_def split: prod.splits)
  with assms(2,3) have "\<not> Unpriced cres" "v = dstr cost" "gw_trace g' = gw_trace g2"
    by (auto simp: writeResponse_def Let_def split: option.splits if_splits)
  moreover obtain rec where "gw_trace g2 = gw_trace g1 @ [Recorded rec]" "Unpriced cres \<or> CostUSD rec = Some cost"
    by (auto simp: g2_def recordUsage_def)
  moreover obtain out where
    "SettledAt \<lparr>si_ReservationID = ro_ReservationID (in_reservation inp), si_ActualUSD = cost\<rparr> out \<in> set (gw_trace g1)"
    using do_settle_trace [of W "ro_ReservationID (in_reservation inp)" cost] unfolding g1_def by (metis in_set_conv_decomp)
  ultimately show ?thesis by auto
qed

lemma with_request_id_status [simp]: "rs_Status (with_request_id W) = None"
  by (simp add: with_request_id_def set_header_def new_response_def)

lemma KeyHasBudget_errors: "KeyHasBudget fault db h = Inl e \<Longrightarrow> reserve_status e \<in> {401, 500}"
  by (auto simp: KeyHasBudget_def reserve_status_def split: option.splits)

subsection \<open>Properties\<close>


text \<open>
  C10. No call without cover. If the provider was called, then the request carried a credential and a
  well-formed body within the size limit, its model was routed to that provider, the amount reserved
  under the hash of that credential is the estimate of its price, and if the model had no price the key
  was seen to have no budget. The provider gets the body as it arrived, under the routed name.
\<close>

theorem no_call_without_cover:
  assumes "ServeHTTP sha ddiv dstr opts W r db0 = (resp, g)" "CalledProvider p \<in> set (gw_trace g)"
  shows "\<exists>ad ro. covered sha ddiv opts W r db0 ad
    \<and> hd (gw_trace g) = Reserved \<lparr>ri_KeyHash = ad_keyHash ad, ri_Model = req_Model (ad_req ad),
         ri_EstimatedUSD = ad_estimate ad, ri_TTL = o_ReservationTTL opts\<rparr> (Inr ro)
    \<and> pr_Body p = rq_Body r \<and> pr_Model p = ad_bareModel ad \<and> pr_Stream p = req_Stream (ad_req ad)"
proof -
  have *: ?thesis
    if a: "admit sha ddiv opts W r \<lparr>gw_db = db0, gw_trace = []\<rparr> (with_request_id W) = (Inr ad, g0)"
    and r: "do_reserve W (reserve_input opts ad) g0 = (Inr ro, g1)"
    and t: "gw_trace g = gw_trace g1 @ tail"
    and q: "p = provider_request (stream_input opts r ad ro) (req_Stream (ad_req ad))" for ad g0 ro g1 tail
  proof -
    have c: "covered sha ddiv opts W r db0 ad" using admit_covered [OF a] .
    then have b: "ad_body ad = rq_Body r" by (auto simp: covered_def)
    have "gw_trace g1 = [Reserved (reserve_input opts ad) (Inr ro)]"
      using do_reserve_trace [OF r] admit_trace [OF a] by simp
    with t have "hd (gw_trace g) = Reserved (reserve_input opts ad) (Inr ro)" by simp
    with b c q show ?thesis
      by (intro exI [of _ ad] exI [of _ ro]) (simp add: provider_request_def stream_input_def reserve_input_def)
  qed
  from assms(1) show ?thesis
  proof (cases rule: ServeHTTP_cases)
    case (refused a)
    with admit_trace [OF refused(1)] assms(2) show ?thesis by simp
  next
    case (denied ad g0 e)
    with admit_trace [OF denied(1)] do_reserve_trace [OF denied(2)] assms(2) show ?thesis by simp
  next
    case (streamed ad g0 ro g1)
    have "CalledProvider p \<notin> set (gw_trace g1)"
      using admit_trace [OF streamed(1)] do_reserve_trace [OF streamed(2)] by simp
    with serveStream_calls [OF streamed(3) assms(2)] streamed(4)
    have q: "p = provider_request (stream_input opts r ad ro) (req_Stream (ad_req ad))" by simp
    obtain tail where "gw_trace g = gw_trace g1 @ tail" using serveStream_trace [OF streamed(3)] by blast
    from * [OF streamed(1,2) this q] show ?thesis .
  next
    case (completed ad g0 ro g1)
    have "CalledProvider p \<notin> set (gw_trace g1)"
      using admit_trace [OF completed(1)] do_reserve_trace [OF completed(2)] by simp
    with serveComplete_calls [OF completed(3) assms(2)] completed(4)
    have q: "p = provider_request (stream_input opts r ad ro) (req_Stream (ad_req ad))" by simp
    obtain tail where "gw_trace g = gw_trace g1 @ tail" using serveComplete_trace [OF completed(3)] by blast
    from * [OF completed(1,2) this q] show ?thesis .
  qed
qed


definition sample_reply :: ProviderResponse where
  "sample_reply = \<lparr>pp_StatusCode = 200, pp_Body = ''ok'', pp_ServedModel = ''m'', pp_ProviderRequestID = [],
     pp_Counts = [(KindInput, 4), (KindOutput, 1)], pp_FinishReason = ''stop'', pp_Degraded = False,
     pp_ParseErrors = 0, pp_InjectedMaxTokens = 0\<rparr>"

definition serving_provider :: "unit Provider" where
  "serving_provider = \<lparr>pv_Name = ''openai'', pv_Complete = (\<lambda>_. Some (Inr sample_reply)), pv_Stream = None\<rparr>"

definition sample_gateway :: "unit GwOptions" where
  "sample_gateway = New \<lparr>o_Router = SetModelProviders [(''m'', ''openai'')] (NewRouter [serving_provider]),
     o_MaxBodyBytes = 0, o_DefaultMaxTokens = 0, o_ReservationTTL = 0, o_ProviderTimeout = 0, o_DrainTimeout = 0,
     o_StreamWriteTimeout = 0, o_MaxConcurrentDrains = 0, o_TierGuard = Fin 0, o_PassthroughHeaderPrefixes = [],
     o_Redactor = [], o_Usage = False\<rparr>"

definition plain_table :: Table where
  "plain_table = \<lparr>t_rows = [((''m'', ''openai''), [sample_row KindInput 5 0 0, sample_row KindOutput 15 0 0])], t_aliases = []\<rparr>"

definition sample_world :: World where
  "sample_world = \<lparr>w_others = (\<lambda>_ db. db), w_conn = (\<lambda>_. ok_conn), w_now = (\<lambda>_. 0), w_seen = empty_DB,
     w_started = 0, w_priced_at = (\<lambda>_. 7), w_table = (\<lambda>_. plain_table), w_request_id = ''r1'',
     w_reservation_id = 21, w_record_id = 22, w_latency_ms = 5, w_ttft_us = 0, w_env = (\<lambda>_. sample_env)\<rparr>"

definition sample_http :: HttpRequest where
  "sample_http = \<lparr>rq_Authorization = ''Bearer h'', rq_Query = [], rq_Header = [],
     rq_Body = ''{'' @ quoted ''model'' @ '':'' @ quoted ''m'' @ '','' @ quoted ''max_tokens'' @ '':1}'', rq_Complete = True\<rparr>"

definition funded_db :: DB where
  "funded_db = sample_db\<lparr>key_budgets := [(sample_kb 0 0)\<lparr>kb_limit_usd := Some 1000000\<rparr>]\<rparr>"


lemma sample_token: "BearerToken sample_http = Some ''h''"
proof -
  have "to_lower ''Bearer'' = ''bearer''" by code_simp
  then show ?thesis
    by (simp add: BearerToken_def sample_http_def has_prefix_def trim_space_plain plain_char_def)
qed

lemma sample_parse: "parse_request (rq_Body sample_http) = Some \<lparr>req_Model = ''m'', req_Stream = False, req_MaxTokens = 1\<rparr>"
  by code_simp

lemma plain_Cost:
  assumes "0 < n" "n < 1000" "0 < k"
  shows "Cost (/) plain_table \<lparr>q_Model = ''m'', q_Provider = ''openai'', q_Tier = TierStandard, q_At = 7,
      q_Counts = [(KindInput, n), (KindOutput, k)]\<rparr>
    = Inr \<lparr>Cost_of = of_int n * 5 / perMillion + of_int k * 15 / perMillion, Unpriced = False,
       PartiallyPriced = False, UnpricedKinds = [], PricedKinds = [KindInput, KindOutput]\<rparr>"
proof -
  have "InputTierTotal [(KindInput, n), (KindOutput, k)] = n"
    using assms by (simp add: InputTierTotal_def CountsTowardInputTier_def kind_defs i64_def)
  with assms show ?thesis
    by (simp add: Cost_def plain_table_def Resolve_def map_get_def sortedKinds_def kind_defs Billable_def pick_def
        sample_row_def Row_Covers_def TierStandard_def)
qed

definition sample_usd :: decimal where "sample_usd = 55 / 1000000"

lemma sample_estimate: "Estimate (/) plain_table \<lparr>e_Model = ''m'', e_Provider = ''openai'', e_Tier = TierStandard,
      e_At = 7, e_PromptBytes = 28, e_MaxTokens = 1, e_DefaultMaxTokens = 4096, e_GuardFactor = Fin 0\<rparr>
    = Inr (sample_usd, \<lparr>Cost_of = sample_usd, Unpriced = False,
       PartiallyPriced = False, UnpricedKinds = [], PricedKinds = [KindInput, KindOutput]\<rparr>)"
proof -
  have "estimateCounts plain_table \<lparr>e_Model = ''m'', e_Provider = ''openai'', e_Tier = TierStandard,
      e_At = 7, e_PromptBytes = 28, e_MaxTokens = 1, e_DefaultMaxTokens = 4096, e_GuardFactor = Fin 0\<rparr>
      = [(KindInput, 8), (KindOutput, 1)]"
    by (simp add: estimateCounts_def Let_def EstimateInputTokens_def charsPerToken_def Thresholds_def i64_def
        rowsFor_def map_get_def plain_table_def sample_row_def GuardedTierTotal_def)
  then show ?thesis using plain_Cost [of 8 1] by (simp add: Estimate_def perMillion_def sample_usd_def)
qed

definition sample_admitted :: "unit admitted" where
  "sample_admitted = \<lparr>ad_body = rq_Body sample_http, ad_req = \<lparr>req_Model = ''m'', req_Stream = False, req_MaxTokens = 1\<rparr>,
     ad_upstream = serving_provider, ad_bareModel = ''m'', ad_canonical = ''m'', ad_keyHash = ''h'',
     ad_estimate = sample_usd\<rparr>"

lemma sample_admit: "admit id (/) sample_gateway sample_world sample_http g w = (Inr sample_admitted, g)"
proof -
  have route: "Route (o_Router sample_gateway) ''m'' = Some (serving_provider, ''m'')"
    by (simp add: Route_def sample_gateway_def New_def SetModelProviders_def NewRouter_def serving_provider_def has_prefix_def)
  have len: "length (rq_Body sample_http) = 28" by (simp add: sample_http_def quoted_def)
  then have body: "readBody sample_http (o_MaxBodyBytes sample_gateway) = Some (rq_Body sample_http)"
    by (simp add: readBody_def sample_gateway_def New_def) (simp add: sample_http_def)
  have world: "w_table sample_world 0 = plain_table" "w_priced_at sample_world 0 = 7" by (simp_all add: sample_world_def)
  have opts: "o_DefaultMaxTokens sample_gateway = 4096" "o_TierGuard sample_gateway = Fin 0"
    by (simp_all add: sample_gateway_def New_def)
  have name: "pv_Name serving_provider = ''openai''" by (simp add: serving_provider_def)
  have res: "Resolve plain_table ''m'' ''openai'' 7 = ''m''" by (simp add: Resolve_def plain_table_def map_get_def)
  show ?thesis
    by (simp add: admit_def sample_token body sample_parse route world opts name res len sample_estimate
        sample_admitted_def Hash_def hashString_def Let_def)
qed

lemma funded_Reserve:
  "\<exists>ro db'. Reserve ok_conn 0 empty_DB 21 (reserve_input sample_gateway sample_admitted) funded_db = (Inr ro, db')"
proof -
  let ?inp = "reserve_input sample_gateway sample_admitted"
  let ?kb = "(sample_kb 0 0)\<lparr>kb_limit_usd := Some 1000000\<rparr>"
  have d: "sample_usd = dec10 550000" by (simp add: sample_usd_def dec10_def)
  have "reserveKey ?inp sample_vk"
    by (simp add: reserveKey_def reserve_input_def sample_admitted_def sample_vk_def)
  moreover have "reserveFits 0 sample_usd ?kb"
    unfolding d by (simp add: reserveFits_def sample_kb_def rotatedSpent_def dec10_def)
  moreover have "checkBudget (reserveRow 0 sample_usd ?kb) = None"
    unfolding d by (simp add: checkBudget_def reserveRow_def sample_kb_def rotatedSpent_def fits10_def)
  moreover have "num10 sample_usd = 550000" by (simp only: d num10_dec10)
  moreover have "ri_EstimatedUSD ?inp = sample_usd" by (simp add: reserve_input_def sample_admitted_def)
  moreover have "virtual_keys funded_db = [sample_vk]" "key_budgets funded_db = [?kb]" "budget_reservations funded_db = []"
    by (simp_all add: funded_db_def sample_db_def)
  moreover have "kb_key_id ?kb = 11" "vk_id sample_vk = 11" by (simp_all add: sample_kb_def sample_vk_def)
  moreover have "kb_key_id (reserveRow 0 x ?kb) = 11" for x by (simp add: reserveRow_def sample_kb_def)
  ultimately show ?thesis
    by (simp add: Reserve_def reserveUpdate_def ok_conn_def current_month_0 Let_def insertReservation_def
        commit_tx_def fits10_def)
qed

abbreviation sample_run :: "HttpResponse option \<times> Gw" where
  "sample_run \<equiv> ServeHTTP id (/) (\<lambda>_. ''0.000035'') sample_gateway sample_world sample_http funded_db"

lemma sample_served:
  obtains ro g1 where
    "do_reserve sample_world (reserve_input sample_gateway sample_admitted) \<lparr>gw_db = funded_db, gw_trace = []\<rparr> = (Inr ro, g1)"
    "sample_run = serveComplete (/) (\<lambda>_. ''0.000035'') sample_gateway sample_world serving_provider
       (stream_input sample_gateway sample_http sample_admitted ro) g1 (with_request_id sample_world)"
proof -
  have ad: "ad_upstream sample_admitted = serving_provider" "\<not> req_Stream (ad_req sample_admitted)"
    by (simp_all add: sample_admitted_def)
  obtain ro db' where "Reserve ok_conn 0 empty_DB 21 (reserve_input sample_gateway sample_admitted) funded_db = (Inr ro, db')"
    using funded_Reserve by blast
  then have "do_reserve sample_world (reserve_input sample_gateway sample_admitted) \<lparr>gw_db = funded_db, gw_trace = []\<rparr>
      = (Inr ro, log_event (Reserved (reserve_input sample_gateway sample_admitted) (Inr ro)) \<lparr>gw_db = db', gw_trace = []\<rparr>)"
    by (simp add: do_reserve_def sample_world_def)
  moreover from this have "sample_run = serveComplete (/) (\<lambda>_. ''0.000035'') sample_gateway sample_world serving_provider
       (stream_input sample_gateway sample_http sample_admitted ro)
       (log_event (Reserved (reserve_input sample_gateway sample_admitted) (Inr ro)) \<lparr>gw_db = db', gw_trace = []\<rparr>)
       (with_request_id sample_world)"
    by (simp add: ServeHTTP_def sample_admit ad)
  ultimately show thesis by (rule that)
qed

lemma sample_called:
  "CalledProvider \<lparr>pr_Body = rq_Body sample_http, pr_Model = ''m'', pr_Stream = False, pr_MaxTokens = 1,
     pr_PassthroughHeaders = []\<rparr> \<in> set (gw_trace (snd sample_run))"
proof -
  obtain ro g1 where run: "sample_run = serveComplete (/) (\<lambda>_. ''0.000035'') sample_gateway sample_world serving_provider
       (stream_input sample_gateway sample_http sample_admitted ro) g1 (with_request_id sample_world)"
    using sample_served by blast
  show ?thesis unfolding run
    by (simp add: serveComplete_def serving_provider_def recordUsage_def writeResponse_def Let_def split: prod.split)
      (simp add: stream_input_def sample_admitted_def passthroughHeaders_def sample_http_def)
qed

theorem no_call_without_cover_witness:
  "\<exists>ad. covered id (/) sample_gateway sample_world sample_http funded_db ad \<and> ad_bareModel ad = ''m''"
  using no_call_without_cover [OF prod.collapse [symmetric] sample_called] by auto

text \<open>
  C11. The running gateway is a history of the store. When the other requests only run the store's own
  transactions, so does a request as a whole, wherever it stops; so from a database the store can
  reach, the database after the request is one the store can reach, the books still balance, and no
  amount is lost or invented by the way the calls are composed.
\<close>

theorem gateway_refines_store:
  assumes "db_step\<^sup>*\<^sup>* empty_DB db0" "\<forall>k db. db_step\<^sup>*\<^sup>* db (w_others W k db)"
    "ServeHTTP sha ddiv dstr opts W r db0 = (resp, g)"
  shows "db_step\<^sup>*\<^sup>* empty_DB (gw_db g) \<and> balanceDrift (gw_db g) = []
    \<and> (\<forall>kb \<in> set (key_budgets (gw_db g)). 0 \<le> kb_spent_usd kb \<and> 0 \<le> kb_reserved_usd kb)"
proof -
  have "db_step\<^sup>*\<^sup>* db0 (gw_db g)" using ServeHTTP_steps [OF assms(3)] assms(2) by (simp add: others_ok_def)
  with assms(1) have reach: "db_step\<^sup>*\<^sup>* empty_DB (gw_db g)" by simp
  then have b: "books (gw_db g)" by (intro store.inv_reachable) simp_all
  then have "balanceDrift (gw_db g) = []"
    by (auto simp: balanceDrift_def Let_def filter_empty_conv books_def balanced_def)
  with reach b books_balances_nonneg show ?thesis by blast
qed

theorem gateway_refines_store_witness:
  "balanceDrift (gw_db (snd (ServeHTTP id (/) (\<lambda>_. []) sample_gateway sample_world sample_http sample_db2))) = []"
proof -
  have "\<forall>k db. db_step\<^sup>*\<^sup>* db (w_others sample_world k db)" by (simp add: sample_world_def)
  from gateway_refines_store [OF sample_reach(1) this prod.collapse [symmetric]] show ?thesis by blast
qed


lemma sample_told: "\<exists>w. fst sample_run = Some w \<and> map_of (rs_Header w) ''X-Costlane-Cost-Usd'' = Some ''0.000035''"
proof -
  obtain ro g1 where run: "sample_run = serveComplete (/) (\<lambda>_. ''0.000035'') sample_gateway sample_world serving_provider
       (stream_input sample_gateway sample_http sample_admitted ro) g1 (with_request_id sample_world)"
    using sample_served by blast
  have c: "cost_of (/) plain_table ''m'' ''openai'' 7 [(KindInput, 4), (KindOutput, 1)]
      = (35 / 1000000, \<lparr>Cost_of = 35 / 1000000, Unpriced = False, PartiallyPriced = False, UnpricedKinds = [],
           PricedKinds = [KindInput, KindOutput]\<rparr>)"
    using plain_Cost [of 4 1] by (simp add: cost_of_def perMillion_def)
  have w: "w_table sample_world 0 = plain_table" "w_priced_at sample_world 0 = 7" by (simp_all add: sample_world_def)
  show ?thesis unfolding run cost_header_def [symmetric]
    by (simp add: serveComplete_def serving_provider_def sample_reply_def w c writeResponse_def Let_def split: option.split)
qed


text \<open>
  Refusals. A refused reservation is answered with the status of its reason: 402 for an exhausted
  budget, 401 for a key that is unknown or revoked, 403 for a model the key may not use, 500 for a
  database failure. A request refused before that gets 400, 401, 404 or 500, and one without a
  credential gets 401 without the database being touched.
\<close>

theorem refusals_answered:
  assumes "ServeHTTP sha ddiv dstr opts W r db0 = (resp, g)"
  shows "(\<forall>inp e. gw_trace g = [Reserved inp (Inl e)] \<longrightarrow> (\<exists>w. resp = Some w \<and> rs_Status w = Some (reserve_status e)))
    \<and> (gw_trace g = [] \<longrightarrow> (\<exists>w s. resp = Some w \<and> rs_Status w = Some s \<and> s \<in> {400, 401, 404, 500}))
    \<and> (BearerToken r = None \<longrightarrow> (\<exists>w. resp = Some w \<and> rs_Status w = Some 401) \<and> gw_db g = db0 \<and> gw_trace g = [])"
  using assms
proof (cases rule: ServeHTTP_cases)
  case (refused a)
  have "\<exists>s. rs_Status a = Some s \<and> s \<in> {400, 401, 404, 500}"
    using refused(1)
    by (auto simp: admit_def Let_def WriteReserveError_status dest!: KeyHasBudget_errors
        split: option.splits sum.splits prod.splits if_splits bool.splits)
  moreover have "BearerToken r = None \<Longrightarrow> rs_Status a = Some 401 \<and> gw_db g = db0"
    using refused(1) by (auto simp: admit_def)
  ultimately show ?thesis using refused(2) admit_trace [OF refused(1)] by auto
next
  case (denied ad g0 e)
  have "BearerToken r \<noteq> None" using admit_covered [OF denied(1)] by (auto simp: covered_def)
  with denied admit_trace [OF denied(1)] do_reserve_trace [OF denied(2)] show ?thesis
    by (auto simp: WriteReserveError_status)
next
  case (streamed ad g0 ro g1)
  have "BearerToken r \<noteq> None" using admit_covered [OF streamed(1)] by (auto simp: covered_def)
  with do_reserve_trace [OF streamed(2)] serveStream_trace [OF streamed(3)] show ?thesis
    by (auto simp: paid_tail_def)
next
  case (completed ad g0 ro g1)
  have "BearerToken r \<noteq> None" using admit_covered [OF completed(1)] by (auto simp: covered_def)
  with do_reserve_trace [OF completed(2)] serveComplete_trace [OF completed(3)] show ?thesis
    by (auto simp: paid_tail_def)
qed

theorem refusals_answered_witness:
  "gw_db (snd (ServeHTTP id (/) (\<lambda>_. []) sample_gateway sample_world (sample_http\<lparr>rq_Authorization := ''Basic h''\<rparr>)
     funded_db)) = funded_db"
proof -
  have "to_lower ''Basic'' \<noteq> ''bearer''" by code_simp
  then have "BearerToken (sample_http\<lparr>rq_Authorization := ''Basic h''\<rparr>) = None"
    by (simp add: BearerToken_def has_prefix_def)
  with refusals_answered [OF prod.collapse [symmetric]] show ?thesis by blast
qed

end
