(* ===== verification/Server.thy ===== *)
theory Server
  imports Admin Handler
begin

text \<open>
  Package \<open>api\<close>, files \<open>server.go\<close>, \<open>admin_ops.go\<close> and \<open>health.go\<close>, and \<open>WithRequestID\<close> of
  \<open>proxy/middleware.go\<close>: the routes of the process and what stands in front of them.

  The state is the database, the price table in force and whether the process is draining. A request is
  its method, the segments of its path (the multiplexer redirects a path that is not in canonical form
  before any route) and the request proper. What differs from call to call is a \<open>Moment\<close>: the clock, the
  connection, fresh identifiers and random blocks, and for the proxy the world of theory \<open>Handler\<close>. A
  response without a status is a connection on which nothing was written.

  The lemmas compose the components: whatever is served, the database moves by transactions of the
  store, so the reconciliation endpoint never finds drift; and no path below \<open>/admin\<close> does anything for
  a caller without the master key.
\<close>

subsection \<open>State\<close>

record Sys =
  sy_db :: DB
  sy_prices :: Snapshot
  sy_draining :: bool

record Moment =
  mo_conn :: Conn
  mo_faults :: "nat \<Rightarrow> string option"
  mo_now :: time
  mo_id :: uuid
  mo_draws :: "nat list option list"
  mo_world :: World
  mo_request_id :: string
  mo_prices_ok :: bool
  mo_ping_ok :: bool

record ServerRequest =
  sr_Method :: string
  sr_Path :: "string list"
  sr_Api :: ApiRequest

text \<open>What the server was built with: \<open>api.Options\<close>, with the handlers it mounts.\<close>

record 's ApiOptions =
  ao_lib :: Lib
  ao_server :: Server
  ao_div :: "decimal \<Rightarrow> decimal \<Rightarrow> decimal"
  ao_proxy :: "'s GwOptions option"
  ao_models :: "'s Router option"
  ao_health :: "string option"
  ao_reload :: "(Price_Loader \<times> FS \<times> string) option"
  ao_load_error_text :: "load_error \<Rightarrow> string"

subsection \<open>Health (health.go)\<close>

definition BeginDraining :: "Sys \<Rightarrow> Sys" where
  "BeginDraining st = st\<lparr>sy_draining := True\<rparr>"

definition writePlain :: "int \<Rightarrow> string \<Rightarrow> HttpResponse \<Rightarrow> HttpResponse" where
  "writePlain status body w = write_body (RawBody body) (write_header status w)"

definition Live :: "string \<Rightarrow> HttpResponse" where
  "Live version =
     write_body (JsonBody (JObj [(''status'', JStr ''ok''),
         (''version'', JStr (if version = [] then ''dev'' else version))]))
       (write_header 200 (set_header ''Content-Type'' ''application/json''
         (set_header ''Cache-Control'' ''no-store'' new_response)))"

definition Ready :: "bool \<Rightarrow> bool \<Rightarrow> bool \<Rightarrow> HttpResponse" where
  "Ready draining prices_ok ping_ok =
     (let w = set_header ''Cache-Control'' ''no-store'' new_response
      in if draining then writePlain 503 (''draining'' @ [CHR 0x0A]) w
         else if \<not> prices_ok then writePlain 503 (''prices not loaded'' @ [CHR 0x0A]) w
         else if \<not> ping_ok then writePlain 503 (''database unreachable'' @ [CHR 0x0A]) w
         else writePlain 200 (''ready'' @ [CHR 0x0A]) w)"

subsection \<open>Administration (admin_ops.go)\<close>

definition drift_json :: "Lib \<Rightarrow> BalanceDrift \<Rightarrow> json" where
  "drift_json L d = map_json
     [(''key_id'', uuid_text L (bd_KeyID d)), (''materialised_spent'', dec_text L (bd_MaterialisedSpent d)),
      (''materialised_reserved'', dec_text L (bd_MaterialisedReserved d)),
      (''log_spent'', dec_text L (bd_LogSpent d)), (''log_reserved'', dec_text L (bd_LogReserved d))]"

definition handleReconcile :: "Lib \<Rightarrow> (nat \<Rightarrow> string option) \<Rightarrow> DB \<Rightarrow> HttpResponse" where
  "handleReconcile L faults db =
     (case Reconcile faults db of
        Inl e \<Rightarrow> WriteError 500 ErrorTypeInternal ''the reconciliation could not be run'' new_response
      | Inr report \<Rightarrow>
          WriteJSON (if ReconcileReport_OK report then 200 else 409) (JObj
            [(''balance_drift'', JArr (map (drift_json L) (rr_BalanceDrift report))),
             (''cost_window_mismatch'', JNum (int_lit (int (rr_CostWindowMismatch report)))),
             (''ok'', JBool (ReconcileReport_OK report)),
             (''settled_without_usage_record'', JNum (int_lit (int (rr_SettledWithoutUsageRecord report))))]) new_response)"

definition handlePricingReload :: "'s ApiOptions \<Rightarrow> Sys \<Rightarrow> HttpResponse \<times> Sys" where
  "handlePricingReload opts st =
     (case ao_reload opts of
        None \<Rightarrow> (WriteError 501 ErrorTypeInvalidRequest ''this build cannot reload prices'' new_response, st)
      | Some (loader, fsys, dir) \<Rightarrow>
        (case ReloadFS loader (sy_prices st) fsys dir of
           (Some e, s) \<Rightarrow> (WriteError 400 ErrorTypeInvalidRequest
               (''the price files were not loaded: '' @ ao_load_error_text opts e) new_response, st\<lparr>sy_prices := s\<rparr>)
         | (None, s) \<Rightarrow> (WriteJSON 200 (JObj [(''reloaded'', JBool True)]) new_response, st\<lparr>sy_prices := s\<rparr>)))"

subsection \<open>Routes (server.go)\<close>

datatype route = CreateRoute | ListRoute | UpdateRoute | RevokeRoute | ChatRoute | ModelsRoute | UsageRoute
  | RequestsRoute | BudgetRoute | ReconcileRoute | ReloadRoute | LiveRoute | ReadyRoute

definition patterns :: "'s ApiOptions \<Rightarrow> (string \<times> string list \<times> route) list" where
  "patterns opts =
     [(''POST'', [''admin'', ''keys''], CreateRoute), (''GET'', [''admin'', ''keys''], ListRoute),
      (''PATCH'', [''admin'', ''keys'', ''{id}''], UpdateRoute), (''DELETE'', [''admin'', ''keys'', ''{id}''], RevokeRoute)]
     @ (if ao_proxy opts = None then [] else [(''POST'', [''v1'', ''chat'', ''completions''], ChatRoute)])
     @ (if ao_models opts = None then [] else [(''GET'', [''v1'', ''models''], ModelsRoute)])
     @ [(''GET'', [''v1'', ''usage''], UsageRoute), (''GET'', [''v1'', ''usage'', ''requests''], RequestsRoute),
        (''GET'', [''v1'', ''budget''], BudgetRoute), (''GET'', [''admin'', ''reconcile''], ReconcileRoute),
        (''POST'', [''admin'', ''pricing'', ''reload''], ReloadRoute)]
     @ (if ao_health opts = None then [] else [(''GET'', [''healthz''], LiveRoute), (''GET'', [''readyz''], ReadyRoute)])"

text \<open>The one wildcard matches one segment that is not empty.\<close>

definition seg_matches :: "string \<Rightarrow> string \<Rightarrow> bool" where
  "seg_matches p x \<longleftrightarrow> (if p = ''{id}'' then x \<noteq> [] else p = x)"

definition path_matches :: "string list \<Rightarrow> string list \<Rightarrow> bool" where
  "path_matches p path \<longleftrightarrow> list_all2 seg_matches p path"

text \<open>A GET pattern answers HEAD too.\<close>

definition method_matches :: "string \<Rightarrow> string \<Rightarrow> bool" where
  "method_matches m method \<longleftrightarrow> m = method \<or> m = ''GET'' \<and> method = ''HEAD''"

definition find_route :: "'s ApiOptions \<Rightarrow> string \<Rightarrow> string list \<Rightarrow> int + route" where
  "find_route opts method path =
     (case find (\<lambda>(m, p, _). path_matches p path \<and> method_matches m method) (patterns opts) of
        Some (_, _, rt) \<Rightarrow> Inr rt
      | None \<Rightarrow> if list_ex (\<lambda>(_, p, _). path_matches p path) (patterns opts) then Inl 405 else Inl 404)"

definition path_id :: "string list \<Rightarrow> string" where
  "path_id path = (if length path = 3 then path ! 2 else [])"

definition admin_only :: "'s ApiOptions \<Rightarrow> (Sys \<Rightarrow> HttpResponse \<times> Sys) \<Rightarrow> ApiRequest \<Rightarrow> Sys \<Rightarrow> HttpResponse \<times> Sys" where
  "admin_only opts h r st =
     requireMaster (sha (ao_lib opts)) (sv_masterKey (ao_server opts)) (\<lambda>_. h) (ar_Request r) st"

definition serve_route :: "'s ApiOptions \<Rightarrow> (string \<Rightarrow> 'o :: linorder) \<Rightarrow> Moment \<Rightarrow> route \<Rightarrow> ApiRequest \<Rightarrow> Sys
    \<Rightarrow> HttpResponse \<times> Sys" where
  "serve_route opts coll m rt r st =
     (let L = ao_lib opts; s = ao_server opts; db = sy_db st
      in case rt of
           CreateRoute \<Rightarrow> admin_only opts (\<lambda>st.
             case handleCreateKey L (mo_draws m) (mo_conn m) (mo_now m) (mo_id m) r (sy_db st) of
               None \<Rightarrow> (new_response, st)
             | Some (w, db') \<Rightarrow> (w, st\<lparr>sy_db := db'\<rparr>)) r st
         | ListRoute \<Rightarrow> admin_only opts (\<lambda>st. (handleListKeys L (mo_faults m 0) (sy_db st), st)) r st
         | UpdateRoute \<Rightarrow> admin_only opts (\<lambda>st.
             case handleUpdateKey L s (mo_conn m) r (sy_db st) of (w, db') \<Rightarrow> (w, st\<lparr>sy_db := db'\<rparr>)) r st
         | RevokeRoute \<Rightarrow> admin_only opts (\<lambda>st.
             case handleRevokeKey L (mo_faults m 0) (mo_now m) r (sy_db st) of (w, db') \<Rightarrow> (w, st\<lparr>sy_db := db'\<rparr>)) r st
         | ChatRoute \<Rightarrow> (case ao_proxy opts of
             None \<Rightarrow> (new_response, st)
           | Some gw \<Rightarrow>
             (case ServeHTTP (sha L) (ao_div opts) (dec_text L) gw (mo_world m) (ar_Request r) db of
                (w, g) \<Rightarrow> (case w of None \<Rightarrow> new_response | Some x \<Rightarrow> x, st\<lparr>sy_db := gw_db g\<rparr>)))
         | ModelsRoute \<Rightarrow> (case ao_models opts of
             None \<Rightarrow> (new_response, st)
           | Some router \<Rightarrow> (ModelsHandler router (current (sy_prices st)) (mo_now m) (ar_Request r), st))
         | UsageRoute \<Rightarrow> (handleUsage L coll s (mo_faults m) (mo_now m) db r, st)
         | RequestsRoute \<Rightarrow> (handleRequests L s (mo_faults m) (mo_now m) db r, st)
         | BudgetRoute \<Rightarrow> (handleBudget L s (mo_faults m) (mo_now m) db r, st)
         | ReconcileRoute \<Rightarrow> admin_only opts (\<lambda>st. (handleReconcile L (mo_faults m) (sy_db st), st)) r st
         | ReloadRoute \<Rightarrow> admin_only opts (handlePricingReload opts) r st
         | LiveRoute \<Rightarrow> (Live (case ao_health opts of None \<Rightarrow> [] | Some v \<Rightarrow> v), st)
         | ReadyRoute \<Rightarrow> (Ready (sy_draining st) (mo_prices_ok m) (mo_ping_ok m), st))"

definition mux :: "'s ApiOptions \<Rightarrow> (string \<Rightarrow> 'o :: linorder) \<Rightarrow> Moment \<Rightarrow> ServerRequest \<Rightarrow> Sys \<Rightarrow> HttpResponse \<times> Sys" where
  "mux opts coll m req st =
     (case find_route opts (sr_Method req) (sr_Path req) of
        Inl code \<Rightarrow> (writePlain code (if code = 405 then ''Method Not Allowed'' else ''404 page not found'') new_response, st)
      | Inr rt \<Rightarrow> serve_route opts coll m rt ((sr_Api req)\<lparr>ar_PathID := path_id (sr_Path req)\<rparr>) st)"

text \<open>\<open>Server.Handler\<close>.\<close>

definition Server_Handler :: "'s ApiOptions \<Rightarrow> (string \<Rightarrow> 'o :: linorder) \<Rightarrow> Moment \<Rightarrow> ServerRequest \<Rightarrow> Sys
    \<Rightarrow> HttpResponse \<times> Sys" where
  "Server_Handler opts coll m req st =
     RejectQueryCredentials (\<lambda>_. mux opts coll m req) (ar_Request (sr_Api req)) st"

text \<open>The identifier is set before the handler, which may replace it.\<close>

definition WithRequestID :: "string \<Rightarrow> HttpResponse \<Rightarrow> HttpResponse" where
  "WithRequestID i w =
     (if map_of (rs_Header w) ''X-Costlane-Request-Id'' = None then set_header ''X-Costlane-Request-Id'' i w else w)"

definition serve :: "'s ApiOptions \<Rightarrow> (string \<Rightarrow> 'o :: linorder) \<Rightarrow> Moment \<Rightarrow> ServerRequest \<Rightarrow> Sys
    \<Rightarrow> HttpResponse \<times> Sys" where
  "serve opts coll m req st =
     (case Server_Handler opts coll m req st of (w, st') \<Rightarrow> (WithRequestID (mo_request_id m) w, st'))"

lemma WithRequestID_simps [simp]:
  "rs_Status (WithRequestID i w) = rs_Status w" "rs_Body (WithRequestID i w) = rs_Body w"
  by (simp_all add: WithRequestID_def set_header_def)

subsection \<open>A small server\<close>

definition sample_api :: "unit ApiOptions" where
  "sample_api = \<lparr>ao_lib = sample_lib, ao_server = sample_server, ao_div = (/), ao_proxy = None, ao_models = None,
     ao_health = Some [], ao_reload = None, ao_load_error_text = (\<lambda>_. [])\<rparr>"

definition sample_moment :: Moment where
  "sample_moment = \<lparr>mo_conn = ok_conn, mo_faults = (\<lambda>_. None), mo_now = 0, mo_id = 5, mo_draws = sample_draws,
     mo_world = sample_world, mo_request_id = ''r'', mo_prices_ok = True, mo_ping_ok = True\<rparr>"

definition sample_sys :: Sys where
  "sample_sys = \<lparr>sy_db = empty_DB, sy_prices = \<lparr>current = \<lparr>t_rows = [], t_aliases = []\<rparr>\<rparr>, sy_draining = False\<rparr>"

definition sample_call :: "string \<Rightarrow> string list \<Rightarrow> string \<Rightarrow> ServerRequest" where
  "sample_call method path auth = \<lparr>sr_Method = method, sr_Path = path,
     sr_Api = \<lparr>ar_Request = \<lparr>rq_Authorization = auth, rq_Query = [], rq_Header = [], rq_Body = [], rq_Complete = True\<rparr>,
       ar_Values = [], ar_PathID = []\<rparr>\<rparr>"

lemma sample_token_of:
  "BearerToken (ar_Request (sr_Api (sample_call method path ''Bearer m''))) = Some ''m''"
proof -
  have "trim_space ''m'' = ''m''" by (rule trim_space_plain) (simp_all add: plain_char_def)
  moreover have "cut '' '' ''Bearer m'' = Some (''Bearer'', ''m'')" "to_lower ''Bearer'' = ''bearer''" by code_simp+
  ultimately show ?thesis by (simp add: BearerToken_def sample_call_def)
qed

subsection \<open>The server is a history of the store\<close>

lemma admin_only_steps:
  assumes "admin_only opts h r st = (w, st')" "\<And>w st'. h st = (w, st') \<Longrightarrow> db_step\<^sup>*\<^sup>* (sy_db st) (sy_db st')"
  shows "db_step\<^sup>*\<^sup>* (sy_db st) (sy_db st')"
  using assms by (auto simp: admin_only_def requireMaster_def split: option.splits if_splits)

lemma serve_route_steps:
  assumes "serve_route opts coll m rt r st = (w, st')" "others_ok (mo_world m)"
  shows "db_step\<^sup>*\<^sup>* (sy_db st) (sy_db st')"
proof (cases rt)
  case CreateRoute
  then show ?thesis
    using assms(1) handleCreateKey_step [of "ao_lib opts" "mo_draws m" "mo_conn m" "mo_now m" "mo_id m" r "sy_db st"]
    unfolding serve_route_def Let_def by (auto elim!: admin_only_steps split: option.splits prod.splits)
next
  case UpdateRoute
  then show ?thesis
    using assms(1) handleUpdateKey_step [of "ao_lib opts" "ao_server opts" "mo_conn m" r "sy_db st"]
    unfolding serve_route_def Let_def by (auto elim!: admin_only_steps split: prod.splits)
next
  case RevokeRoute
  then show ?thesis
    using assms(1) handleRevokeKey_step [of "ao_lib opts" "mo_faults m 0" "mo_now m" r "sy_db st"]
    unfolding serve_route_def Let_def by (auto elim!: admin_only_steps split: prod.splits)
next
  case ChatRoute
  then show ?thesis
    using assms ServeHTTP_steps unfolding serve_route_def Let_def
    by (fastforce split: option.splits prod.splits)
next
  case ReloadRoute
  then show ?thesis
    using assms(1) unfolding serve_route_def Let_def
    by (auto elim!: admin_only_steps simp: handlePricingReload_def split: option.splits prod.splits)
next
  case ModelsRoute
  then show ?thesis using assms(1) unfolding serve_route_def Let_def by (auto split: option.splits)
qed (use assms(1) in \<open>auto simp: serve_route_def Let_def elim!: admin_only_steps\<close>)

lemma serve_steps:
  assumes "serve opts coll m req st = (w, st')" "others_ok (mo_world m)"
  shows "db_step\<^sup>*\<^sup>* (sy_db st) (sy_db st')"
  using assms serve_route_steps
  by (auto simp: serve_def Server_Handler_def RejectQueryCredentials_def mux_def split: if_splits prod.splits sum.splits)

text \<open>Any number of requests, the process draining from some point on.\<close>

inductive served :: "'s ApiOptions \<Rightarrow> (string \<Rightarrow> 'o :: linorder) \<Rightarrow> Sys \<Rightarrow> Sys \<Rightarrow> bool" for opts coll where
  request: "serve opts coll m req st = (w, st') \<Longrightarrow> others_ok (mo_world m) \<Longrightarrow> served opts coll st st'"
| background: "db_step (sy_db st) db' \<Longrightarrow> served opts coll st (st\<lparr>sy_db := db'\<rparr>)"
| drain: "served opts coll st (BeginDraining st)"

lemma served_steps: "served opts coll st st' \<Longrightarrow> db_step\<^sup>*\<^sup>* (sy_db st) (sy_db st')"
  by (induction rule: served.induct) (auto intro: serve_steps simp: BeginDraining_def)

lemma served_reachable:
  "(served opts coll)\<^sup>*\<^sup>* st st' \<Longrightarrow> db_step\<^sup>*\<^sup>* (sy_db st) (sy_db st')"
  by (induction rule: rtranclp_induct) (auto dest: served_steps)

lemma served_books:
  assumes "(served opts coll)\<^sup>*\<^sup>* st0 st" "sy_db st0 = empty_DB"
  shows "books (sy_db st)"
proof (rule store.inv_reachable)
  show "db_step\<^sup>*\<^sup>* empty_DB (sy_db st)" using served_reachable [OF assms(1)] assms(2) by simp
qed simp

text \<open>
  C13. The reconciliation endpoint never reports drift. Start the gateway on an empty database and let it serve
  any requests on any routes (keys created, updated and revoked over HTTP, completions proxied,
  reports read), with any failures of connections and providers and with reaping and usage writes in
  the background: a \<open>GET /admin/reconcile\<close> that presents the master key and whose reads succeed
  answers 200 or 409 with an empty \<open>balance_drift\<close>.
\<close>

theorem reconcile_never_reports_drift:
  assumes "(served opts coll)\<^sup>*\<^sup>* st0 st" "sy_db st0 = empty_DB"
    "sr_Method req = ''GET''" "sr_Path req = [''admin'', ''reconcile'']"
    "BearerToken (ar_Request (sr_Api req)) = Some token"
    "VerifyMaster (sha (ao_lib opts)) (sv_masterKey (ao_server opts)) token"
    "\<not> list_ex isCredentialParam (rq_Query (ar_Request (sr_Api req)))" "mo_faults m = (\<lambda>_. None)"
    "serve opts coll m req st = (w, st')"
  shows "rs_Status w \<in> {Some 200, Some 409}
    \<and> (\<exists>members. rs_Body w = [JsonBody (JObj members)] \<and> map_of members ''balance_drift'' = Some (JArr []))"
proof -
  have "balanceDrift (sy_db st) = []"
    using served_books [OF assms(1,2)]
    by (auto simp: balanceDrift_def Let_def filter_empty_conv books_def balanced_def)
  moreover have "find_route opts ''GET'' [''admin'', ''reconcile''] = Inr ReconcileRoute"
    by (simp add: find_route_def patterns_def path_matches_def seg_matches_def method_matches_def)
  ultimately show ?thesis
    using assms(3-9)
    by (auto simp: serve_def Server_Handler_def RejectQueryCredentials_def mux_def serve_route_def Let_def
        admin_only_def requireMaster_def handleReconcile_def Reconcile_def WriteJSON_def new_response_def
        split: if_splits)
qed

lemma reconcile_never_reports_drift_witness:
  "\<exists>members. rs_Body (fst (serve sample_api id sample_moment (sample_call ''GET'' [''admin'', ''reconcile''] ''Bearer m'')
       sample_sys)) = [JsonBody (JObj members)] \<and> map_of members ''balance_drift'' = Some (JArr [])"
proof -
  let ?q = "sample_call ''GET'' [''admin'', ''reconcile''] ''Bearer m''"
  have "VerifyMaster (sha (ao_lib sample_api)) (sv_masterKey (ao_server sample_api)) ''m''" by code_simp
  moreover have "sr_Method ?q = ''GET''" "sr_Path ?q = [''admin'', ''reconcile'']"
    "\<not> list_ex isCredentialParam (rq_Query (ar_Request (sr_Api ?q)))" "sy_db sample_sys = empty_DB"
    "mo_faults sample_moment = (\<lambda>_. None)"
    by (simp_all add: sample_call_def sample_sys_def sample_moment_def)
  ultimately show ?thesis
    using reconcile_never_reports_drift [OF rtranclp.rtrancl_refl _ _ _ sample_token_of _ _ _ prod.collapse [symmetric],
        of sample_sys "''GET''" "[''admin'', ''reconcile'']" sample_api sample_moment id] by blast
qed

subsection \<open>Nothing below /admin without the master key\<close>

lemma admin_routes:
  assumes "find_route opts method (''admin'' # path) = Inr rt"
  shows "rt \<in> {CreateRoute, ListRoute, UpdateRoute, RevokeRoute, ReconcileRoute, ReloadRoute}"
proof -
  obtain me p where "(me, p, rt) \<in> set (patterns opts)" "path_matches p (''admin'' # path)"
    using assms by (auto simp: find_route_def find_Some_iff split: option.splits if_splits dest!: nth_mem)
  then show ?thesis
    by (auto simp: patterns_def path_matches_def seg_matches_def split: if_splits)
qed

text \<open>
  C14. No administration without the master key. A request for any path below \<open>/admin\<close>, with any method, that
  does not present the master key as a bearer token is answered 400 (a credential in the query
  string), 401, 404 or 405, the same 401 whether the token is missing or wrong, and leaves the database, the
  prices and the process as they were.
\<close>

theorem admin_needs_master:
  assumes "sr_Path req = ''admin'' # path"
    "\<forall>token. BearerToken (ar_Request (sr_Api req)) = Some token \<longrightarrow>
       \<not> VerifyMaster (sha (ao_lib opts)) (sv_masterKey (ao_server opts)) token"
    "serve opts coll m req st = (w, st')"
  shows "st' = st \<and> rs_Status w \<in> {Some 400, Some 401, Some 404, Some 405}
    \<and> (rs_Status w = Some 401 \<longrightarrow> rs_Body w = [ErrorBody ErrorTypeInvalidAPIKey
         ''a valid administrative credential is required in the Authorization header''])"
proof -
  let ?r = "(sr_Api req)\<lparr>ar_PathID := path_id (sr_Path req)\<rparr>"
  have denied: "admin_only opts h ?r st = (WriteError 401 ErrorTypeInvalidAPIKey
      ''a valid administrative credential is required in the Authorization header'' new_response, st)" for h
    using assms(2) by (auto simp: admin_only_def requireMaster_def split: option.splits)
  have plain: "rs_Status (writePlain code b new_response) = Some code" for code b
    by (simp add: writePlain_def write_body_def write_header_def new_response_def)
  have routed: "mux opts coll m req st = (WriteError 401 ErrorTypeInvalidAPIKey
      ''a valid administrative credential is required in the Authorization header'' new_response, st)"
    if "find_route opts (sr_Method req) (sr_Path req) = Inr rt" for rt
  proof -
    have "rt \<in> {CreateRoute, ListRoute, UpdateRoute, RevokeRoute, ReconcileRoute, ReloadRoute}"
      using admin_routes [of opts "sr_Method req" path rt] that assms(1) by simp
    then show ?thesis using that denied by (auto simp: mux_def serve_route_def Let_def)
  qed
  have codes: "code \<in> {404, 405}" if "find_route opts (sr_Method req) (sr_Path req) = Inl code" for code
    using that by (auto simp: find_route_def split: option.splits if_splits)
  show ?thesis
  proof (cases "list_ex isCredentialParam (rq_Query (ar_Request (sr_Api req)))")
    case True
    then show ?thesis
      using assms(3) by (auto simp: serve_def Server_Handler_def RejectQueryCredentials_def new_response_def)
  next
    case False
    then have m: "mux opts coll m req st = (x, y) \<Longrightarrow> w = WithRequestID (mo_request_id m) x \<and> st' = y" for x y
      using assms(3) by (auto simp: serve_def Server_Handler_def RejectQueryCredentials_def)
    show ?thesis
    proof (cases "find_route opts (sr_Method req) (sr_Path req)")
      case (Inl code)
      with codes m plain show ?thesis by (auto simp: mux_def)
    next
      case (Inr rt)
      with routed m show ?thesis by (auto simp: new_response_def)
    qed
  qed
qed

lemma admin_needs_master_witness:
  "snd (serve sample_api id sample_moment (sample_call ''DELETE'' [''admin'', ''keys'', ''x''] []) sample_sys) = sample_sys"
proof -
  have none: "BearerToken (ar_Request (sr_Api (sample_call ''DELETE'' [''admin'', ''keys'', ''x''] []))) = None"
    by (simp add: BearerToken_def sample_call_def)
  have "sr_Path (sample_call ''DELETE'' [''admin'', ''keys'', ''x''] []) = ''admin'' # [''keys'', ''x'']"
    by (simp add: sample_call_def)
  from admin_needs_master [OF this _ prod.collapse [symmetric], of sample_api id sample_moment sample_sys] none
  show ?thesis by simp
qed

text \<open>
  Readiness: while the process drains it is not ready, whatever the prices and the database; and it is
  ready exactly when it is not draining, prices are loaded and the database answers.
\<close>

lemma ready_iff: "rs_Status (Ready draining prices_ok ping_ok) = Some (if \<not> draining \<and> prices_ok \<and> ping_ok then 200 else 503)"
  by (simp add: Ready_def Let_def writePlain_def write_body_def write_header_def set_header_def new_response_def)

end
