(* ===== verification/Stream_Translate.thy ===== *)
theory Stream_Translate
  imports Translate
begin

text \<open>
  Package \<open>provider\<close>, files \<open>stream_anthropic.go\<close> and \<open>stream_google.go\<close>, and the \<open>Stream\<close> methods of the three
  adapters: translating a live stream event by event.

  A translator is a record threaded through \<open>Translate\<close>; None in its result is the error of an event that
  cannot be parsed. Counters of tool calls are unbounded, since a stream cannot hold enough events to
  overflow them.
\<close>

subsection \<open>Anthropic (stream_anthropic.go)\<close>

record AnthropicStreamTranslator =
  at_id :: string
  at_model :: string
  at_inputTokens :: int
  at_cacheReadTokens :: int
  at_cacheWriteTokens :: int
  at_outputTokens :: int
  at_blockKind :: "(int \<times> string) list"
  at_toolIndex :: "(int \<times> int) list"
  at_nextTool :: int
  at_sawUsage :: bool
  at_sawStop :: bool

definition NewAnthropicStreamTranslator :: AnthropicStreamTranslator where
  "NewAnthropicStreamTranslator = \<lparr>at_id = [], at_model = [], at_inputTokens = 0, at_cacheReadTokens = 0,
     at_cacheWriteTokens = 0, at_outputTokens = 0, at_blockKind = [], at_toolIndex = [], at_nextTool = 0,
     at_sawUsage = False, at_sawStop = False\<rparr>"

record event_usage =
  vu_InputTokens :: int
  vu_OutputTokens :: int
  vu_CacheRead :: int
  vu_CacheCreation :: int

record event_message =
  vm_ID :: string
  vm_Model :: string
  vm_Usage :: "event_usage option"

record event_block = vb_Type :: string  vb_ID :: string  vb_Name :: string

record event_delta =
  vd_Type :: string
  vd_Text :: string
  vd_PartialJSON :: string
  vd_StopReason :: string

record anthropicEvent =
  ae_Type :: string
  ae_Index :: int
  ae_Message :: "event_message option"
  ae_ContentBlock :: "event_block option"
  ae_Delta :: "event_delta option"
  ae_Usage :: "event_usage option"

definition zero_event_usage :: event_usage where
  "zero_event_usage = \<lparr>vu_InputTokens = 0, vu_OutputTokens = 0, vu_CacheRead = 0, vu_CacheCreation = 0\<rparr>"

definition dec_event_usage :: "json \<Rightarrow> event_usage \<Rightarrow> event_usage option" where
  "dec_event_usage = dec_struct
     [(''input_tokens'', dec_int (\<lambda>n s. s\<lparr>vu_InputTokens := n\<rparr>)),
      (''output_tokens'', dec_int (\<lambda>n s. s\<lparr>vu_OutputTokens := n\<rparr>)),
      (''cache_read_input_tokens'', dec_int (\<lambda>n s. s\<lparr>vu_CacheRead := n\<rparr>)),
      (''cache_creation_input_tokens'', dec_int (\<lambda>n s. s\<lparr>vu_CacheCreation := n\<rparr>))]"

definition zero_event :: anthropicEvent where
  "zero_event = \<lparr>ae_Type = [], ae_Index = 0, ae_Message = None, ae_ContentBlock = None, ae_Delta = None, ae_Usage = None\<rparr>"

definition dec_anthropicEvent :: "json \<Rightarrow> anthropicEvent \<Rightarrow> anthropicEvent option" where
  "dec_anthropicEvent = dec_struct
     [(''type'', dec_string (\<lambda>x s. s\<lparr>ae_Type := x\<rparr>)),
      (''index'', dec_int (\<lambda>n s. s\<lparr>ae_Index := n\<rparr>)),
      (''message'', dec_ptr ae_Message (\<lambda>m s. s\<lparr>ae_Message := m\<rparr>) \<lparr>vm_ID = [], vm_Model = [], vm_Usage = None\<rparr>
         (dec_struct
            [(''id'', dec_string (\<lambda>x s. s\<lparr>vm_ID := x\<rparr>)), (''model'', dec_string (\<lambda>x s. s\<lparr>vm_Model := x\<rparr>)),
             (''usage'', dec_ptr vm_Usage (\<lambda>u s. s\<lparr>vm_Usage := u\<rparr>) zero_event_usage dec_event_usage)])),
      (''content_block'', dec_ptr ae_ContentBlock (\<lambda>b s. s\<lparr>ae_ContentBlock := b\<rparr>) \<lparr>vb_Type = [], vb_ID = [], vb_Name = []\<rparr>
         (dec_struct
            [(''type'', dec_string (\<lambda>x s. s\<lparr>vb_Type := x\<rparr>)), (''id'', dec_string (\<lambda>x s. s\<lparr>vb_ID := x\<rparr>)),
             (''name'', dec_string (\<lambda>x s. s\<lparr>vb_Name := x\<rparr>))])),
      (''delta'', dec_ptr ae_Delta (\<lambda>d s. s\<lparr>ae_Delta := d\<rparr>)
         \<lparr>vd_Type = [], vd_Text = [], vd_PartialJSON = [], vd_StopReason = []\<rparr>
         (dec_struct
            [(''type'', dec_string (\<lambda>x s. s\<lparr>vd_Type := x\<rparr>)), (''text'', dec_string (\<lambda>x s. s\<lparr>vd_Text := x\<rparr>)),
             (''partial_json'', dec_string (\<lambda>x s. s\<lparr>vd_PartialJSON := x\<rparr>)),
             (''stop_reason'', dec_string (\<lambda>x s. s\<lparr>vd_StopReason := x\<rparr>))])),
      (''usage'', dec_ptr ae_Usage (\<lambda>u s. s\<lparr>ae_Usage := u\<rparr>) zero_event_usage dec_event_usage)]"

definition nonNegative :: "int \<Rightarrow> int" where
  "nonNegative n = (if n < 0 then 0 else n)"

text \<open>The encoding of one chunk, shared by both translators.\<close>

definition chunk_json :: "string \<Rightarrow> string \<Rightarrow> (string \<times> json) list \<Rightarrow> string option \<Rightarrow> json" where
  "chunk_json i model delta finish =
     obj [(''id'', JStr i), (''object'', JStr ''chat.completion.chunk''), (''model'', JStr model),
          (''choices'', JArr [obj ([(''index'', int_json 0), (''delta'', obj delta)]
             @ opt_member ''finish_reason'' (map_option JStr finish))])]"

definition anthropic_chunk :: "AnthropicStreamTranslator \<Rightarrow> (string \<times> json) list \<Rightarrow> string option \<Rightarrow> string" where
  "anthropic_chunk t delta finish = json_print (chunk_json (at_id t) (at_model t) delta finish)"

definition anthropicFinishReason :: "string \<Rightarrow> string" where
  "anthropicFinishReason stop =
     (if stop = ''max_tokens'' then ''length'' else if stop = ''tool_use'' then ''tool_calls'' else ''stop'')"

definition message_start :: "anthropicEvent \<Rightarrow> AnthropicStreamTranslator \<Rightarrow> AnthropicStreamTranslator" where
  "message_start e t =
     (case ae_Message e of
        None \<Rightarrow> t
      | Some m \<Rightarrow>
        (let t1 = t\<lparr>at_id := vm_ID m, at_model := vm_Model m\<rparr>
         in case vm_Usage m of
              None \<Rightarrow> t1
            | Some u \<Rightarrow> t1\<lparr>at_inputTokens := nonNegative (vu_InputTokens u),
                at_cacheReadTokens := nonNegative (vu_CacheRead u),
                at_cacheWriteTokens := nonNegative (vu_CacheCreation u)\<rparr>))"

definition tool_announcement :: "int \<Rightarrow> string \<Rightarrow> string \<Rightarrow> string \<Rightarrow> (string \<times> json) list" where
  "tool_announcement index i name args =
     [(''tool_calls'', JArr [obj [(''index'', int_json index), (''id'', JStr i), (''type'', JStr ''function''),
         (''function'', obj [(''name'', JStr name), (''arguments'', JStr args)])]])]"

definition content_block_start :: "anthropicEvent \<Rightarrow> AnthropicStreamTranslator \<Rightarrow> string list \<times> AnthropicStreamTranslator" where
  "content_block_start e t =
     (case ae_ContentBlock e of
        None \<Rightarrow> ([], t)
      | Some b \<Rightarrow>
        (let t1 = t\<lparr>at_blockKind := AList.update (ae_Index e) (vb_Type b) (at_blockKind t)\<rparr>
         in if vb_Type b \<noteq> ''tool_use'' then ([], t1)
            else (let index = at_nextTool t1;
                      t2 = t1\<lparr>at_toolIndex := AList.update (ae_Index e) index (at_toolIndex t1), at_nextTool := index + 1\<rparr>
                  in ([anthropic_chunk t2 (tool_announcement index (vb_ID b) (vb_Name b) []) None], t2))))"

definition tool_fragment :: "int \<Rightarrow> string \<Rightarrow> (string \<times> json) list" where
  "tool_fragment index args =
     [(''tool_calls'', JArr [obj [(''index'', int_json index), (''function'', obj [(''arguments'', JStr args)])]])]"

definition content_block_delta :: "anthropicEvent \<Rightarrow> AnthropicStreamTranslator \<Rightarrow> string list" where
  "content_block_delta e t =
     (case ae_Delta e of
        None \<Rightarrow> []
      | Some d \<Rightarrow>
        if vd_Type d = ''text_delta'' then [anthropic_chunk t [(''content'', JStr (vd_Text d))] None]
        else if vd_Type d = ''input_json_delta'' then
          (case map_of (at_toolIndex t) (ae_Index e) of
             None \<Rightarrow> []
           | Some index \<Rightarrow> [anthropic_chunk t (tool_fragment index (vd_PartialJSON d)) None])
        else [])"

definition message_delta :: "anthropicEvent \<Rightarrow> AnthropicStreamTranslator \<Rightarrow> string list \<times> AnthropicStreamTranslator" where
  "message_delta e t =
     (let t1 = (case ae_Usage e of
                  None \<Rightarrow> t
                | Some u \<Rightarrow> t\<lparr>at_outputTokens := nonNegative (vu_OutputTokens u), at_sawUsage := True\<rparr>)
      in case ae_Delta e of
           None \<Rightarrow> ([], t1)
         | Some d \<Rightarrow> if vd_StopReason d = [] then ([], t1)
                     else ([anthropic_chunk t1 [] (Some (anthropicFinishReason (vd_StopReason d)))], t1))"

text \<open>The type of an event is its own, or else the name of its frame.\<close>

definition event_type :: "string \<Rightarrow> anthropicEvent \<Rightarrow> string" where
  "event_type event e = (if ae_Type e = [] then event else ae_Type e)"

definition AnthropicTranslate :: "string \<Rightarrow> string \<Rightarrow> AnthropicStreamTranslator \<Rightarrow> string list option \<times> AnthropicStreamTranslator" where
  "AnthropicTranslate event payload t =
     (case Unmarshal dec_anthropicEvent zero_event (json_parse payload) of
        None \<Rightarrow> (None, t)
      | Some e \<Rightarrow>
        (let ty = event_type event e
         in if ty = ''message_start'' then
              (let t1 = message_start e t in (Some [anthropic_chunk t1 [(''role'', JStr ''assistant'')] None], t1))
            else if ty = ''content_block_start'' then
              (case content_block_start e t of (cs, t1) \<Rightarrow> (Some cs, t1))
            else if ty = ''content_block_delta'' then (Some (content_block_delta e t), t)
            else if ty = ''message_delta'' then (case message_delta e t of (cs, t1) \<Rightarrow> (Some cs, t1))
            else if ty = ''message_stop'' then (Some [], t\<lparr>at_sawStop := True\<rparr>)
            else (Some [], t)))"

definition AnthropicClosedCleanly :: "AnthropicStreamTranslator \<Rightarrow> bool" where
  "AnthropicClosedCleanly t = at_sawStop t"

definition AnthropicUsage :: "AnthropicStreamTranslator \<Rightarrow> int \<times> int \<times> int \<times> int \<times> bool" where
  "AnthropicUsage t = (at_inputTokens t, at_cacheReadTokens t, at_cacheWriteTokens t, at_outputTokens t, at_sawUsage t)"

definition usage_chunk_json :: "string \<Rightarrow> string \<Rightarrow> int \<Rightarrow> int \<Rightarrow> json" where
  "usage_chunk_json i model prompt completion =
     obj [(''id'', JStr i), (''object'', JStr ''chat.completion.chunk''), (''model'', JStr model),
          (''choices'', JArr []), (''usage'', usage_json prompt completion)]"

definition AnthropicUsageChunk :: "AnthropicStreamTranslator \<Rightarrow> string" where
  "AnthropicUsageChunk t = json_print (usage_chunk_json (at_id t) (at_model t)
     (i64 (at_inputTokens t + at_cacheReadTokens t + at_cacheWriteTokens t)) (at_outputTokens t))"

subsection \<open>Google (stream_google.go)\<close>

record GoogleStreamTranslator =
  gt_id :: string
  gt_model :: string
  gt_lastUsage :: string
  gt_sawFinishReason :: bool
  gt_sentRole :: bool
  gt_toolCalls :: int

definition NewGoogleStreamTranslator :: GoogleStreamTranslator where
  "NewGoogleStreamTranslator = \<lparr>gt_id = [], gt_model = [], gt_lastUsage = [], gt_sawFinishReason = False,
     gt_sentRole = False, gt_toolCalls = 0\<rparr>"

record function_call = fc_ID :: string  fc_Name :: string  fc_Args :: "json option"

record stream_part = sp_Text :: string  sp_FunctionCall :: "function_call option"

record stream_candidate =
  sc_Role :: string
  sc_Parts :: "stream_part list"
  sc_FinishReason :: string
  sc_Index :: int

record googleStreamChunk =
  gs_Candidates :: "stream_candidate list"
  gs_UsageMetadata :: "json option"
  gs_ModelVersion :: string
  gs_ResponseID :: string

definition zero_googleStreamChunk :: googleStreamChunk where
  "zero_googleStreamChunk = \<lparr>gs_Candidates = [], gs_UsageMetadata = None, gs_ModelVersion = [], gs_ResponseID = []\<rparr>"

definition dec_stream_part :: "json \<Rightarrow> stream_part \<Rightarrow> stream_part option" where
  "dec_stream_part = dec_struct
     [(''text'', dec_string (\<lambda>x s. s\<lparr>sp_Text := x\<rparr>)),
      (''functionCall'', dec_ptr sp_FunctionCall (\<lambda>f s. s\<lparr>sp_FunctionCall := f\<rparr>) \<lparr>fc_ID = [], fc_Name = [], fc_Args = None\<rparr>
         (dec_struct
            [(''id'', dec_string (\<lambda>x s. s\<lparr>fc_ID := x\<rparr>)), (''name'', dec_string (\<lambda>x s. s\<lparr>fc_Name := x\<rparr>)),
             (''args'', dec_raw (\<lambda>j s. s\<lparr>fc_Args := Some j\<rparr>))]))]"

definition dec_stream_candidate :: "json \<Rightarrow> stream_candidate \<Rightarrow> stream_candidate option" where
  "dec_stream_candidate = dec_struct
     [(''content'', dec_struct
         [(''role'', dec_string (\<lambda>x s. s\<lparr>sc_Role := x\<rparr>)),
          (''parts'', dec_slice (\<lambda>xs s. s\<lparr>sc_Parts := xs\<rparr>) \<lparr>sp_Text = [], sp_FunctionCall = None\<rparr> dec_stream_part)]),
      (''finishReason'', dec_string (\<lambda>x s. s\<lparr>sc_FinishReason := x\<rparr>)),
      (''index'', dec_int (\<lambda>n s. s\<lparr>sc_Index := n\<rparr>))]"

definition dec_googleStreamChunk :: "json \<Rightarrow> googleStreamChunk \<Rightarrow> googleStreamChunk option" where
  "dec_googleStreamChunk = dec_struct
     [(''candidates'', dec_slice (\<lambda>xs s. s\<lparr>gs_Candidates := xs\<rparr>)
         \<lparr>sc_Role = [], sc_Parts = [], sc_FinishReason = [], sc_Index = 0\<rparr> dec_stream_candidate),
      (''usageMetadata'', dec_raw (\<lambda>j s. s\<lparr>gs_UsageMetadata := Some j\<rparr>)),
      (''modelVersion'', dec_string (\<lambda>x s. s\<lparr>gs_ModelVersion := x\<rparr>)),
      (''responseId'', dec_string (\<lambda>x s. s\<lparr>gs_ResponseID := x\<rparr>))]"

text \<open>The first chunk announces the role.\<close>

definition google_chunk :: "GoogleStreamTranslator \<Rightarrow> (string \<times> json) list \<Rightarrow> string option \<Rightarrow> string \<times> GoogleStreamTranslator" where
  "google_chunk t delta finish =
     (let delta' = (if gt_sentRole t then delta else AList.update ''role'' (JStr ''assistant'') delta)
      in (json_print (chunk_json (gt_id t) (gt_model t) delta' finish), t\<lparr>gt_sentRole := True\<rparr>))"

definition finishReason :: "GoogleStreamTranslator \<Rightarrow> string \<Rightarrow> string" where
  "finishReason t reason =
     (if gt_toolCalls t > 0 then ''tool_calls''
      else if reason = ''STOP'' then ''stop''
      else if reason = ''MAX_TOKENS'' then ''length''
      else if reason \<in> {''SAFETY'', ''RECITATION'', ''BLOCKLIST'', ''PROHIBITED_CONTENT'', ''SPII''} then ''content_filter''
      else ''stop'')"

text \<open>The text of the arguments, an empty object when the call has none.\<close>

definition call_arguments :: "function_call \<Rightarrow> string" where
  "call_arguments f = (case fc_Args f of None \<Rightarrow> ''{}'' | Some j \<Rightarrow> json_print j)"

fun google_parts :: "stream_part list \<Rightarrow> GoogleStreamTranslator \<Rightarrow> string list \<times> GoogleStreamTranslator" where
  "google_parts [] t = ([], t)"
| "google_parts (p # ps) t =
     (case sp_FunctionCall p of
        Some f \<Rightarrow>
          (case google_chunk t (tool_announcement (gt_toolCalls t) (fc_ID f) (fc_Name f) (call_arguments f)) None of
             (c, t1) \<Rightarrow> (case google_parts ps (t1\<lparr>gt_toolCalls := gt_toolCalls t1 + 1\<rparr>) of (cs, t2) \<Rightarrow> (c # cs, t2)))
      | None \<Rightarrow>
          if sp_Text p \<noteq> [] then
            (case google_chunk t [(''content'', JStr (sp_Text p))] None of
               (c, t1) \<Rightarrow> (case google_parts ps t1 of (cs, t2) \<Rightarrow> (c # cs, t2)))
          else google_parts ps t)"

text \<open>What a chunk tells about the stream as a whole.\<close>

definition note_chunk :: "string \<Rightarrow> googleStreamChunk \<Rightarrow> GoogleStreamTranslator \<Rightarrow> GoogleStreamTranslator" where
  "note_chunk payload c t =
     (let t1 = (if gt_id t = [] \<and> gs_ResponseID c \<noteq> [] then t\<lparr>gt_id := ''chatcmpl-'' @ gs_ResponseID c\<rparr> else t);
          t2 = (if gs_ModelVersion c \<noteq> [] then t1\<lparr>gt_model := gs_ModelVersion c\<rparr> else t1)
      in if gs_UsageMetadata c \<noteq> None then t2\<lparr>gt_lastUsage := payload\<rparr> else t2)"

definition GoogleTranslate :: "string \<Rightarrow> string \<Rightarrow> GoogleStreamTranslator \<Rightarrow> string list option \<times> GoogleStreamTranslator" where
  "GoogleTranslate event payload t =
     (case Unmarshal dec_googleStreamChunk zero_googleStreamChunk (json_parse payload) of
        None \<Rightarrow> (None, t)
      | Some c \<Rightarrow>
        (let t1 = note_chunk payload c t
         in case gs_Candidates c of
              [] \<Rightarrow> (Some [], t1)
            | cand # _ \<Rightarrow>
              (case google_parts (sc_Parts cand) t1 of
                 (out, t2) \<Rightarrow>
                   if sc_FinishReason cand = [] then (Some out, t2)
                   else (let t3 = t2\<lparr>gt_sawFinishReason := True\<rparr>
                         in case google_chunk t3 [] (Some (finishReason t3 (sc_FinishReason cand))) of
                              (ch, t4) \<Rightarrow> (Some (out @ [ch]), t4)))))"

definition GoogleClosedCleanly :: "GoogleStreamTranslator \<Rightarrow> bool" where
  "GoogleClosedCleanly t = gt_sawFinishReason t"

definition GoogleUsage :: "GoogleStreamTranslator \<Rightarrow> counts \<times> bool" where
  "GoogleUsage t =
     (if gt_lastUsage t = [] then ([], False)
      else case NormaliseGoogle (json_parse (gt_lastUsage t)) of
             Inl e \<Rightarrow> ([], False)
           | Inr n \<Rightarrow> (Counts n, True))"

definition GoogleUsageChunk :: "GoogleStreamTranslator \<Rightarrow> string option" where
  "GoogleUsageChunk t =
     (case GoogleUsage t of
        (cs, ok) \<Rightarrow>
          if \<not> ok then None
          else Some (json_print (usage_chunk_json (gt_id t) (gt_model t)
                 (i64 (map_get 0 cs KindInput + map_get 0 cs KindCachedRead)) (map_get 0 cs KindOutput))))"

subsection \<open>The Stream methods\<close>

text \<open>One type for the state a stream carries, whichever adapter opened it.\<close>

datatype translator = NoTranslator | AnthropicState AnthropicStreamTranslator | GoogleState GoogleStreamTranslator

definition on_anthropic :: "'r \<Rightarrow> (AnthropicStreamTranslator \<Rightarrow> 'r) \<Rightarrow> translator \<Rightarrow> 'r" where
  "on_anthropic z f s = (case s of AnthropicState t \<Rightarrow> f t | _ \<Rightarrow> z)"

definition on_google :: "'r \<Rightarrow> (GoogleStreamTranslator \<Rightarrow> 'r) \<Rightarrow> translator \<Rightarrow> 'r" where
  "on_google z f s = (case s of GoogleState t \<Rightarrow> f t | _ \<Rightarrow> z)"

definition stream_header :: "(string \<times> string) list" where
  "stream_header = [(''Accept'', ''text/event-stream'')]"

definition OpenAI_Stream :: "ProviderOptions \<Rightarrow> ProviderRequest \<Rightarrow> (provider_error + translator Stream) option" where
  "OpenAI_Stream opts req =
     (case ensureIncludeUsage (pr_Body req) of
        None \<Rightarrow> None
      | Some (Inl e) \<Rightarrow> Some (Inl e)
      | Some (Inr (body, clientAskedForUsage)) \<Rightarrow>
        (case call_upstream (op_Client opts) ''openai'' (op_BaseURL opts @ ''/v1/chat/completions'')
                ([(''Content-Type'', ''application/json''), (''Authorization'', ''Bearer '' @ op_APIKey opts)] @ stream_header)
                (pr_PassthroughHeaders req) body of
           Inl e \<Rightarrow> Some (Inl e)
         | Inr reply \<Rightarrow>
           if hr_StatusCode reply \<ge> 400 then Some (Inl (upstream_error True reply))
           else Some (Inr \<lparr>sm_Body = hr_Body reply, sm_ServedModel = [],
                  sm_ProviderRequestID = map_get [] (hr_Header reply) ''X-Request-Id'', sm_Translate = None,
                  sm_TrailingChunks = None, sm_Usage = None, sm_InjectedMaxTokens = 0,
                  sm_ClientWantsUsage = clientAskedForUsage, sm_ClosedCleanly = None, sm_UsageIsCumulative = False,
                  sm_state = NoTranslator\<rparr>)))"

definition anthropic_counts_of :: "AnthropicStreamTranslator \<Rightarrow> (string \<times> int) list \<times> bool" where
  "anthropic_counts_of t =
     (case AnthropicUsage t of
        (input, cachedRead, cacheWrite, output, reported) \<Rightarrow>
          ([(''input'', input), (''cached_read'', cachedRead), (''cache_write_5m'', cacheWrite), (''output'', output)], reported))"

definition Anthropic_Stream :: "seed \<Rightarrow> ProviderOptions \<Rightarrow> ProviderRequest \<Rightarrow> (provider_error + translator Stream) option" where
  "Anthropic_Stream sd opts req =
     (case TranslateAnthropicRequest sd (pr_Body req) (op_DefaultMaxTokens opts) of
        Inl e \<Rightarrow> Some (Inl e)
      | Inr (translated, injected) \<Rightarrow>
        (case SetField translated ''stream'' (JBool True) of
           None \<Rightarrow> None
         | Some (Inl e) \<Rightarrow> Some (Inl e)
         | Some (Inr body) \<Rightarrow>
           (case call_upstream (op_Client opts) ''anthropic'' (op_BaseURL opts @ ''/v1/messages'')
                   (anthropic_headers opts @ stream_header) (pr_PassthroughHeaders req) body of
              Inl e \<Rightarrow> Some (Inl e)
            | Inr reply \<Rightarrow>
              if hr_StatusCode reply \<ge> 400 then Some (Inl (upstream_error False reply))
              else Some (Inr \<lparr>sm_Body = hr_Body reply, sm_ServedModel = [],
                     sm_ProviderRequestID = map_get [] (hr_Header reply) ''Request-Id'',
                     sm_Translate = Some (\<lambda>ev d. on_anthropic (Some [], NoTranslator)
                       (\<lambda>t. case AnthropicTranslate ev d t of (cs, t1) \<Rightarrow> (cs, AnthropicState t1))),
                     sm_TrailingChunks = Some (on_anthropic [] (\<lambda>t. [AnthropicUsageChunk t])),
                     sm_Usage = Some (on_anthropic ([], False) anthropic_counts_of),
                     sm_InjectedMaxTokens = injected, sm_ClientWantsUsage = ClientAskedForUsage (pr_Body req),
                     sm_ClosedCleanly = Some (on_anthropic False AnthropicClosedCleanly), sm_UsageIsCumulative = False,
                     sm_state = AnthropicState NewAnthropicStreamTranslator\<rparr>))))"

definition Google_Stream :: "seed \<Rightarrow> ProviderOptions \<Rightarrow> ProviderRequest \<Rightarrow> (provider_error + translator Stream) option" where
  "Google_Stream sd opts req =
     (case TranslateGoogleRequest sd (pr_Body req) (pr_Model req) of
        Inl e \<Rightarrow> Some (Inl e)
      | Inr translated \<Rightarrow>
        (case call_upstream (op_Client opts) ''google'' (google_url opts (pr_Model req) '':streamGenerateContent?alt=sse'')
                (google_headers opts @ stream_header) (pr_PassthroughHeaders req) translated of
           Inl e \<Rightarrow> Some (Inl e)
         | Inr reply \<Rightarrow>
           if hr_StatusCode reply \<ge> 400 then Some (Inl (upstream_error False reply))
           else Some (Inr \<lparr>sm_Body = hr_Body reply, sm_ServedModel = [],
                  sm_ProviderRequestID = map_get [] (hr_Header reply) ''X-Request-Id'',
                  sm_Translate = Some (\<lambda>ev d. on_google (Some [], NoTranslator)
                    (\<lambda>t. case GoogleTranslate ev d t of (cs, t1) \<Rightarrow> (cs, GoogleState t1))),
                  sm_TrailingChunks = Some (on_google [] (\<lambda>t. case GoogleUsageChunk t of None \<Rightarrow> [] | Some ch \<Rightarrow> [ch])),
                  sm_Usage = Some (on_google ([], False) GoogleUsage),
                  sm_InjectedMaxTokens = 0, sm_ClientWantsUsage = ClientAskedForUsage (pr_Body req),
                  sm_ClosedCleanly = Some (on_google False GoogleClosedCleanly), sm_UsageIsCumulative = True,
                  sm_state = GoogleState NewGoogleStreamTranslator\<rparr>)))"

text \<open>The adapters as the router holds them.\<close>

definition openai_provider :: "ProviderOptions \<Rightarrow> translator Provider" where
  "openai_provider opts = \<lparr>pv_Name = ''openai'', pv_Complete = (\<lambda>req. Some (OpenAI_Complete (NewOpenAI opts) req)),
     pv_Stream = Some (OpenAI_Stream (NewOpenAI opts))\<rparr>"

definition anthropic_provider :: "seed \<Rightarrow> ProviderOptions \<Rightarrow> translator Provider" where
  "anthropic_provider sd opts = \<lparr>pv_Name = ''anthropic'',
     pv_Complete = (\<lambda>req. Some (Anthropic_Complete sd (NewAnthropic opts) req)),
     pv_Stream = Some (Anthropic_Stream sd (NewAnthropic opts))\<rparr>"

definition google_provider :: "seed \<Rightarrow> ProviderOptions \<Rightarrow> translator Provider" where
  "google_provider sd opts = \<lparr>pv_Name = ''google'',
     pv_Complete = (\<lambda>req. Some (Google_Complete sd (NewGoogle opts) req)),
     pv_Stream = Some (Google_Stream sd (NewGoogle opts))\<rparr>"

end
