(* ===== verification/Dialects.thy ===== *)
theory Dialects
  imports Translate
begin

text \<open>
  What the translators of \<open>anthropic.go\<close> and \<open>google.go\<close> send: the members of the translated request as a
  provider reads them from the bytes. Decoding keeps documents printable, so every translated request
  can be read back, and the lemmas give each member in terms of what the client sent.
\<close>

subsection \<open>What the translators write can be read\<close>

lemma dec_members_ok:
  assumes "\<And>name f j s s'. (name, f) \<in> set fs \<Longrightarrow> json_ok j \<Longrightarrow> P s \<Longrightarrow> f j s = Some s' \<Longrightarrow> P s'"
  shows "list_all (\<lambda>(_, v). json_ok v) kvs \<Longrightarrow> dec_members fs kvs s = Some s' \<Longrightarrow> P s \<Longrightarrow> P s'"
proof (induction kvs arbitrary: s)
  case (Cons kv kvs)
  obtain k v where kv: "kv = (k, v)" by (cases kv)
  show ?case
  proof (cases "find_field fs k")
    case None
    with Cons kv show ?thesis by simp
  next
    case (Some f)
    then obtain name where f: "(name, f) \<in> set fs"
      by (auto simp: find_field_def split: option.splits dest: map_of_SomeD find_SomeD)
    from Some Cons.prems kv obtain s1 where s1: "f v s = Some s1" "dec_members fs kvs s1 = Some s'"
      by (auto split: option.splits)
    have "P s1" using assms [OF f _ Cons.prems(3) s1(1)] Cons.prems(1) kv by simp
    with Cons.IH [OF _ s1(2)] Cons.prems(1) show ?thesis by simp
  qed
qed simp

lemma dec_struct_ok:
  assumes "dec_struct fs j s = Some s'" "json_ok j" "P s"
    and "\<And>name f j s s'. (name, f) \<in> set fs \<Longrightarrow> json_ok j \<Longrightarrow> P s \<Longrightarrow> f j s = Some s' \<Longrightarrow> P s'"
  shows "P s'"
proof (cases j)
  case (JObj kvs)
  with assms(1,2) have "dec_members fs kvs s = Some s'" "list_all (\<lambda>(_, v). json_ok v) kvs"
    by (simp_all add: dec_struct_def)
  from dec_members_ok [of fs P, OF assms(4) this(2,1) assms(3)] show ?thesis .
qed (use assms(1,3) in \<open>simp_all add: dec_struct_def\<close>)

lemma dec_elems_raw: "dec_elems z (dec_raw (\<lambda>j _. j)) js = Some js"
  by (induction js) (simp_all add: dec_raw_def)

lemma stopSequences_ok [simp]: "json_ok (stopSequences j)"
  by (auto simp: stopSequences_def list_all_iff split: option.splits)

definition opt_ok :: "string option \<Rightarrow> bool" where
  "opt_ok l = (case l of None \<Rightarrow> True | Some x \<Rightarrow> num_ok x)"

lemma dec_float_ptr_ok:
  "dec_float_ptr put j s = Some s' \<Longrightarrow> json_ok j \<Longrightarrow> (\<And>l. opt_ok l \<Longrightarrow> P (put l s)) \<Longrightarrow> P s'"
  by (auto simp: dec_float_ptr_def dec_ptr_def dec_float_def opt_ok_def split: json.splits float64.splits)

definition anthropic_incoming_ok :: "anthropic_incoming \<Rightarrow> bool" where
  "anthropic_incoming_ok inc \<longleftrightarrow> list_all json_ok (ai_Messages inc) \<and> opt_ok (ai_Temperature inc) \<and> opt_ok (ai_TopP inc)
     \<and> (\<forall>j. ai_Tools inc = Some j \<longrightarrow> json_ok j)"

lemma anthropic_incoming_decoded:
  assumes "Unmarshal dec_anthropic_incoming zero_anthropic_incoming (json_parse body) = Some inc"
  shows "anthropic_incoming_ok inc"
proof -
  from assms obtain j where j: "json_parse body = Some j" "dec_anthropic_incoming j zero_anthropic_incoming = Some inc"
    by (auto simp: Unmarshal_def split: option.splits)
  show ?thesis
  proof (rule dec_struct_ok [OF j(2) [unfolded dec_anthropic_incoming_def] json_parse_ok [OF j(1)]])
    show "anthropic_incoming_ok zero_anthropic_incoming"
      by (simp add: anthropic_incoming_ok_def zero_anthropic_incoming_def opt_ok_def)
  next
    fix name f j and s s' :: anthropic_incoming
    assume "json_ok j" "anthropic_incoming_ok s" "f j s = Some s'"
    moreover assume "(name, f) \<in> set [(''model'', dec_string (\<lambda>x s. s\<lparr>ai_Model := x\<rparr>)),
      (''messages'', dec_slice (\<lambda>xs s. s\<lparr>ai_Messages := xs\<rparr>) JNull (dec_raw (\<lambda>j _. j))),
      (''max_tokens'', dec_int_ptr (\<lambda>n s. s\<lparr>ai_MaxTokens := n\<rparr>)),
      (''temperature'', dec_float_ptr (\<lambda>l s. s\<lparr>ai_Temperature := l\<rparr>)),
      (''top_p'', dec_float_ptr (\<lambda>l s. s\<lparr>ai_TopP := l\<rparr>)),
      (''stop'', dec_raw (\<lambda>j s. s\<lparr>ai_Stop := Some j\<rparr>)),
      (''stream'', dec_bool (\<lambda>b s. s\<lparr>ai_Stream := b\<rparr>)),
      (''tools'', dec_raw (\<lambda>j s. s\<lparr>ai_Tools := Some j\<rparr>)),
      (''tool_choice'', dec_raw (\<lambda>j s. s\<lparr>ai_ToolChoice := Some j\<rparr>)),
      (''reasoning_effort'', dec_string_ptr (\<lambda>x s. s\<lparr>ai_ReasoningEffort := x\<rparr>))]"
    ultimately show "anthropic_incoming_ok s'"
      by (auto simp: anthropic_incoming_ok_def dec_string_def dec_slice_def dec_elems_raw dec_raw_def dec_bool_def
          dec_int_ptr_def dec_string_ptr_def dec_ptr_def dec_int_def split: json.splits elim!: dec_float_ptr_ok)
  qed
qed

lemma dec_elems_ok:
  assumes "\<And>j x. json_ok j \<Longrightarrow> dec j z = Some x \<Longrightarrow> P x"
  shows "list_all json_ok js \<Longrightarrow> dec_elems z dec js = Some xs \<Longrightarrow> list_all P xs"
  by (induction js arbitrary: xs) (auto split: option.splits intro: assms)

definition tool_ok :: "chat_tool \<Rightarrow> bool" where
  "tool_ok t \<longleftrightarrow> (\<forall>j. ct_Parameters t = Some j \<longrightarrow> json_ok j)"

lemma dec_chat_tool_ok:
  assumes "dec_chat_tool j t = Some t'" "json_ok j" "tool_ok t"
  shows "tool_ok t'"
proof (rule dec_struct_ok [where P = tool_ok, OF assms(1) [unfolded dec_chat_tool_def] assms(2,3)])
  fix name f j and s s' :: chat_tool
  assume a: "(name, f) \<in> set [(''type'', dec_string (\<lambda>x s. s\<lparr>ct_Type := x\<rparr>)),
      (''function'', dec_struct
         [(''name'', dec_string (\<lambda>x s. s\<lparr>ct_Name := x\<rparr>)),
          (''description'', dec_string (\<lambda>x s. s\<lparr>ct_Description := x\<rparr>)),
          (''parameters'', dec_raw (\<lambda>j s. s\<lparr>ct_Parameters := Some j\<rparr>))])]" "json_ok j" "tool_ok s" "f j s = Some s'"
  have inner: "tool_ok x'" if "dec_struct [(''name'', dec_string (\<lambda>x s. s\<lparr>ct_Name := x\<rparr>)),
          (''description'', dec_string (\<lambda>x s. s\<lparr>ct_Description := x\<rparr>)),
          (''parameters'', dec_raw (\<lambda>j s. s\<lparr>ct_Parameters := Some j\<rparr>))] j x = Some x'" "json_ok j" "tool_ok x" for j x x'
    by (rule dec_struct_ok [where P = tool_ok, OF that]) (auto simp: dec_string_def dec_raw_def tool_ok_def split: json.splits)
  from a show "tool_ok s'"
    by (auto simp: dec_string_def tool_ok_def split: json.splits intro: inner [unfolded tool_ok_def, rule_format])
qed

lemma anthropic_tools_ok: "anthropic_tools ts = Inr out \<Longrightarrow> list_all tool_ok ts \<Longrightarrow> list_all json_ok out"
  by (induction ts arbitrary: out)
    (auto simp: opt_member_def tool_ok_def split: if_splits sum.splits option.splits)

lemma translateTools_ok: "translateTools j = Inr out \<Longrightarrow> json_ok j \<Longrightarrow> list_all json_ok out"
proof -
  assume t: "translateTools j = Inr out" and ok: "json_ok j"
  let ?z = "\<lparr>ct_Type = [], ct_Name = [], ct_Description = [], ct_Parameters = None\<rparr>"
  from t obtain ts where ts: "dec_slice (\<lambda>xs _. xs) ?z dec_chat_tool j [] = Some ts" "anthropic_tools ts = Inr out"
    by (auto simp: translateTools_def split: option.splits)
  have "list_all tool_ok ts"
    using ts(1) ok dec_elems_ok [of dec_chat_tool ?z tool_ok] dec_chat_tool_ok
    by (auto simp: dec_slice_def tool_ok_def split: json.splits)
  with ts(2) show ?thesis by (rule anthropic_tools_ok)
qed

subsection \<open>What Anthropic is sent\<close>

definition is_system :: "json \<Rightarrow> bool" where
  "is_system raw \<longleftrightarrow> (\<exists>m. dec_chat_message raw \<lparr>cm_Role = [], cm_Content = None\<rparr> = Some m \<and> cm_Role m = ''system'')"

definition system_text :: "json \<Rightarrow> string" where
  "system_text raw =
     (case dec_chat_message raw \<lparr>cm_Role = [], cm_Content = None\<rparr> of
        None \<Rightarrow> []
      | Some m \<Rightarrow> (case content_text (cm_Content m) of None \<Rightarrow> [] | Some t \<Rightarrow> t))"

definition join_system :: "string list \<Rightarrow> string" where
  "join_system ts = fold (\<lambda>t acc. (if acc \<noteq> [] then acc @ blank_line else acc) @ t) ts []"

lemma splitSystemMessages_spec:
  "splitSystemMessages ms sys rest = Inr (sys', rest') \<Longrightarrow> rest' = rest @ filter (\<lambda>m. \<not> is_system m) ms
    \<and> sys' = fold (\<lambda>t acc. (if acc \<noteq> [] then acc @ blank_line else acc) @ t) (map system_text (filter is_system ms)) sys"
  by (induction ms sys rest rule: splitSystemMessages.induct)
    (auto simp: is_system_def system_text_def split: option.splits if_splits)

text \<open>Every member of the document Anthropic is sent, read back from the bytes.\<close>

lemma anthropic_request_fields:
  assumes "TranslateAnthropicRequest sd body d = Inr (out, injected)"
  obtains inc system messages config tools where
    "Unmarshal dec_anthropic_incoming zero_anthropic_incoming (json_parse body) = Some inc"
    "splitSystemMessages (ai_Messages inc) [] [] = Inr (system, messages)"
    "config = map_option (\<lambda>eff. obj [(''effort'', JStr (the (AnthropicEffort sd (ai_Model inc) eff)))]) (ai_ReasoningEffort inc)"
    "\<forall>eff. ai_ReasoningEffort inc = Some eff \<longrightarrow> AnthropicEffort sd (ai_Model inc) eff \<noteq> None"
    "\<forall>l. ai_Temperature inc = Some l \<longrightarrow> \<not> above_one l"
    "injected = (case ai_MaxTokens inc of Some _ \<Rightarrow> 0 | None \<Rightarrow> d)"
    "Field out = map_of (anthropic_members inc system messages config tools d)"
proof -
  from assms obtain inc doc where inc: "Unmarshal dec_anthropic_incoming zero_anthropic_incoming (json_parse body) = Some inc"
    and doc: "anthropic_document sd inc d = Inr (doc, injected)" "out = json_print doc"
    by (auto simp: TranslateAnthropicRequest_def split: option.splits sum.splits)
  from doc(1) obtain system messages where sm: "splitSystemMessages (ai_Messages inc) [] [] = Inr (system, messages)"
    by (auto simp: anthropic_document_def split: sum.splits)
  define config where "config =
    map_option (\<lambda>eff. obj [(''effort'', JStr (the (AnthropicEffort sd (ai_Model inc) eff)))]) (ai_ReasoningEffort inc)"
  from doc(1) sm obtain tools where t: "\<forall>eff. ai_ReasoningEffort inc = Some eff \<longrightarrow> AnthropicEffort sd (ai_Model inc) eff \<noteq> None"
    "\<forall>l. ai_Temperature inc = Some l \<longrightarrow> \<not> above_one l" "injected = (case ai_MaxTokens inc of Some _ \<Rightarrow> 0 | None \<Rightarrow> d)"
    "doc = obj (anthropic_members inc system messages config tools d)"
    "tools = None \<or> (\<exists>j ts. ai_Tools inc = Some j \<and> translateTools j = Inr ts \<and> tools = Some (JArr ts))"
    unfolding anthropic_document_def config_def
    by (cases "ai_ReasoningEffort inc"; cases "ai_Tools inc"; cases "ai_Temperature inc")
      (auto split: sum.splits option.splits if_splits)
  have ok: "anthropic_incoming_ok inc" using inc by (rule anthropic_incoming_decoded)
  have msgs: "list_all json_ok messages"
    using splitSystemMessages_spec [OF sm] ok by (auto simp: anthropic_incoming_ok_def list_all_iff)
  have "list_all (\<lambda>(_, v). json_ok v) (anthropic_members inc system messages config tools d)"
    using ok msgs t(5) translateTools_ok
    by (auto simp: anthropic_members_def opt_member_def config_def anthropic_incoming_ok_def opt_ok_def split: option.splits)
  moreover have "distinct (map fst (anthropic_members inc system messages config tools d))"
    by (simp add: anthropic_members_def opt_member_def split: option.splits)
  ultimately have "Field out = map_of (anthropic_members inc system messages config tools d)"
    using Field_print t(4) doc(2) by (intro ext) simp
  from that [OF inc sm config_def t(1-3) this] show ?thesis .
qed

text \<open>
  The conversation reaches Anthropic whole: the messages sent are exactly the client's messages other
  than system turns, each as it came and in order, the system prompt is all the system turns' texts in
  order, joined by blank lines, and the model is the one asked for.
\<close>

theorem conversation_kept:
  assumes "TranslateAnthropicRequest sd body d = Inr (out, injected)"
  shows "\<exists>inc. Unmarshal dec_anthropic_incoming zero_anthropic_incoming (json_parse body) = Some inc
    \<and> Field out ''messages'' = Some (JArr (filter (\<lambda>m. \<not> is_system m) (ai_Messages inc)))
    \<and> Field out ''system'' = (let t = join_system (map system_text (filter is_system (ai_Messages inc)))
                               in if t = [] then None else Some (JStr t))
    \<and> Field out ''model'' = Some (JStr (ai_Model inc))"
proof -
  obtain inc system messages config tools where
    f: "Unmarshal dec_anthropic_incoming zero_anthropic_incoming (json_parse body) = Some inc"
    "splitSystemMessages (ai_Messages inc) [] [] = Inr (system, messages)"
    "Field out = map_of (anthropic_members inc system messages config tools d)"
    by (rule anthropic_request_fields [OF assms])
  from splitSystemMessages_spec [OF f(2)] f(1,3) show ?thesis
    by (intro exI [of _ inc]) (simp add: anthropic_members_def opt_member_def join_system_def Let_def split: option.splits)
qed

definition sample_turns :: string where
  "sample_turns = ''{'' @ quoted ''model'' @ '':'' @ quoted ''claude'' @ '','' @ quoted ''messages'' @ '':[''
     @ ''{'' @ quoted ''role'' @ '':'' @ quoted ''system'' @ '','' @ quoted ''content'' @ '':'' @ quoted ''be brief'' @ ''},''
     @ ''{'' @ quoted ''role'' @ '':'' @ quoted ''user'' @ '','' @ quoted ''content'' @ '':'' @ quoted ''hi'' @ ''}],''
     @ quoted ''reasoning_effort'' @ '':'' @ quoted ''low'' @ ''}''"

definition sample_seed :: seed where
  "sample_seed = Inr [\<lparr>tm_Provider = ''anthropic'', tm_Model = ''claude'', tm_SourceURL = ''u'', tm_FetchedAt = 1,
     tm_Levels = [\<lparr>tl_ReasoningEffort = ''low'', tl_ProviderLevel = ''light'', tl_SourceURL = ''u''\<rparr>]\<rparr>,
     \<lparr>tm_Provider = ''google'', tm_Model = ''gemini'', tm_SourceURL = ''u'', tm_FetchedAt = 1,
     tm_Levels = [\<lparr>tl_ReasoningEffort = ''low'', tl_ProviderLevel = ''LOW'', tl_SourceURL = ''u''\<rparr>]\<rparr>]"

definition sample_turn :: json where
  "sample_turn = JObj [(''role'', JStr ''user''), (''content'', JStr ''hi'')]"

definition sample_inc :: anthropic_incoming where
  "sample_inc = zero_anthropic_incoming\<lparr>ai_Model := ''claude'',
     ai_Messages := [JObj [(''role'', JStr ''system''), (''content'', JStr ''be brief'')], sample_turn],
     ai_ReasoningEffort := Some ''low''\<rparr>"

lemma sample_turns_decode: "Unmarshal dec_anthropic_incoming zero_anthropic_incoming (json_parse sample_turns) = Some sample_inc"
  by code_simp

lemma sample_turns_sent:
  "TranslateAnthropicRequest sample_seed sample_turns 4096 = Inr (json_print (obj (anthropic_members sample_inc ''be brief''
     [sample_turn] (Some (JObj [(''effort'', JStr ''light'')])) None 4096)), 4096)"
proof -
  have "refuse_unsupported anthropicUnsupported ''anthropic'' sample_turns = None" by code_simp
  moreover have "splitSystemMessages (ai_Messages sample_inc) [] [] = Inr (''be brief'', [sample_turn])" by code_simp
  moreover have "AnthropicEffort sample_seed ''claude'' ''low'' = Some ''light''" by code_simp
  moreover have "ai_ReasoningEffort sample_inc = Some ''low''" "ai_Model sample_inc = ''claude''" "ai_Temperature sample_inc = None"
    "ai_Tools sample_inc = None" "ai_MaxTokens sample_inc = None"
    by (simp_all add: sample_inc_def zero_anthropic_incoming_def)
  ultimately show ?thesis
    by (simp add: TranslateAnthropicRequest_def sample_turns_decode anthropic_document_def obj_def [of "[_]"])
qed

theorem conversation_kept_witness:
  "Field (json_print (obj (anthropic_members sample_inc ''be brief'' [sample_turn] (Some (JObj [(''effort'', JStr ''light'')]))
      None 4096))) ''messages'' = Some (JArr [sample_turn])"
proof -
  have "filter (\<lambda>m. \<not> is_system m) (ai_Messages sample_inc) = [sample_turn]"
    by (simp add: sample_inc_def sample_turn_def is_system_def dec_chat_message_def dec_struct_def find_field_def
        dec_string_def dec_raw_def)
  with conversation_kept [OF sample_turns_sent] sample_turns_decode show ?thesis by auto
qed

lemma google_request_fields:
  assumes "TranslateGoogleRequest sd body model = Inr out"
  obtains inc contents system thinking where
    "Unmarshal dec_google_incoming zero_google_incoming (json_parse body) = Some inc"
    "google_contents (gi_Messages inc) [] None = (contents, system)"
    "thinking = map_option (\<lambda>eff. obj [(''thinkingLevel'', JStr (the (GoogleThinkingLevel sd model eff)))]) (gi_ReasoningEffort inc)"
    "\<forall>eff. gi_ReasoningEffort inc = Some eff \<longrightarrow> GoogleThinkingLevel sd model eff \<noteq> None"
    "out = json_print (obj (google_members contents system (google_generation inc thinking)))"
proof -
  from assms obtain inc doc where inc: "Unmarshal dec_google_incoming zero_google_incoming (json_parse body) = Some inc"
    and doc: "google_document sd inc model = Inr doc" "out = json_print doc"
    by (auto simp: TranslateGoogleRequest_def split: option.splits sum.splits)
  obtain contents system where cs: "google_contents (gi_Messages inc) [] None = (contents, system)" by fastforce
  show ?thesis
  proof (cases "gi_ReasoningEffort inc")
    case None
    with doc cs show ?thesis by (intro that [OF inc cs refl]) (simp_all add: google_document_def Let_def)
  next
    case (Some eff)
    with doc cs show ?thesis
      by (intro that [OF inc cs refl]) (auto simp: google_document_def Let_def split: option.splits)
  qed
qed

lemma google_contents_ok:
  "google_contents ms cs sys = (cs', sys') \<Longrightarrow> list_all json_ok cs \<Longrightarrow> (\<forall>j. sys = Some j \<longrightarrow> json_ok j)
   \<Longrightarrow> list_all json_ok cs' \<and> (\<forall>j. sys' = Some j \<longrightarrow> json_ok j)"
  by (induction ms cs sys rule: google_contents.induct) (auto simp: google_part_def split: if_splits)

definition google_incoming_ok :: "google_incoming \<Rightarrow> bool" where
  "google_incoming_ok inc \<longleftrightarrow> opt_ok (gi_Temperature inc) \<and> opt_ok (gi_TopP inc)"

lemma google_incoming_decoded:
  assumes "Unmarshal dec_google_incoming zero_google_incoming (json_parse body) = Some inc"
  shows "google_incoming_ok inc"
proof -
  from assms obtain j where j: "json_parse body = Some j" "dec_google_incoming j zero_google_incoming = Some inc"
    by (auto simp: Unmarshal_def split: option.splits)
  show ?thesis
  proof (rule dec_struct_ok [where P = google_incoming_ok, OF j(2) [unfolded dec_google_incoming_def] json_parse_ok [OF j(1)]])
    show "google_incoming_ok zero_google_incoming"
      by (simp add: google_incoming_ok_def zero_google_incoming_def opt_ok_def)
  next
    fix name f j and s s' :: google_incoming
    assume "json_ok j" "google_incoming_ok s" "f j s = Some s'"
    moreover assume "(name, f) \<in> set [(''messages'', dec_slice (\<lambda>xs s. s\<lparr>gi_Messages := xs\<rparr>) \<lparr>tx_Role = [], tx_Content = []\<rparr>
         (dec_struct [(''role'', dec_string (\<lambda>x s. s\<lparr>tx_Role := x\<rparr>)),
                      (''content'', dec_string (\<lambda>x s. s\<lparr>tx_Content := x\<rparr>))])),
      (''max_tokens'', dec_int_ptr (\<lambda>n s. s\<lparr>gi_MaxTokens := n\<rparr>)),
      (''temperature'', dec_float_ptr (\<lambda>l s. s\<lparr>gi_Temperature := l\<rparr>)),
      (''top_p'', dec_float_ptr (\<lambda>l s. s\<lparr>gi_TopP := l\<rparr>)),
      (''stop'', dec_raw (\<lambda>j s. s\<lparr>gi_Stop := Some j\<rparr>)),
      (''reasoning_effort'', dec_string_ptr (\<lambda>x s. s\<lparr>gi_ReasoningEffort := x\<rparr>))]"
    ultimately show "google_incoming_ok s'"
      by (auto simp: google_incoming_ok_def dec_slice_def dec_raw_def
          dec_int_ptr_def dec_string_ptr_def dec_ptr_def dec_int_def split: json.splits elim!: dec_float_ptr_ok)
  qed
qed

lemma google_Field:
  assumes "TranslateGoogleRequest sd body model = Inr out"
    and "Unmarshal dec_google_incoming zero_google_incoming (json_parse body) = Some inc"
    and "thinking = map_option (\<lambda>eff. obj [(''thinkingLevel'', JStr (the (GoogleThinkingLevel sd model eff)))]) (gi_ReasoningEffort inc)"
  shows "Field out ''generationConfig''
    = (if google_generation inc thinking = [] then None else Some (obj (google_generation inc thinking)))"
proof -
  obtain inc' contents system thinking' where
    f: "Unmarshal dec_google_incoming zero_google_incoming (json_parse body) = Some inc'"
    "google_contents (gi_Messages inc') [] None = (contents, system)"
    "thinking' = map_option (\<lambda>eff. obj [(''thinkingLevel'', JStr (the (GoogleThinkingLevel sd model eff)))]) (gi_ReasoningEffort inc')"
    "\<forall>eff. gi_ReasoningEffort inc' = Some eff \<longrightarrow> GoogleThinkingLevel sd model eff \<noteq> None"
    "out = json_print (obj (google_members contents system (google_generation inc' thinking')))"
    by (rule google_request_fields [OF assms(1)])
  have eq: "inc' = inc" "thinking' = thinking" using f(1,3) assms(2,3) by auto
  have ok: "list_all (\<lambda>(_, v). json_ok v) (google_generation inc thinking)"
    using google_incoming_decoded [OF assms(2)]
    by (auto simp: google_generation_def opt_member_def google_incoming_ok_def opt_ok_def assms(3) split: option.splits)
  have "list_all (\<lambda>(_, v). json_ok v) (google_members contents system (google_generation inc thinking))"
    using google_contents_ok [OF f(2)] ok by (auto simp: google_members_def opt_member_def split: option.splits)
  moreover have "distinct (map fst (google_members contents system (google_generation inc thinking)))"
    by (simp add: google_members_def opt_member_def split: option.splits)
  ultimately have "Field out ''generationConfig'' = map_of (google_members contents system (google_generation inc thinking)) ''generationConfig''"
    unfolding f(5) eq by (intro Field_print)
  then show ?thesis by (simp add: google_members_def opt_member_def split: option.splits)
qed

text \<open>A member of a member.\<close>

definition sub_field :: "string \<Rightarrow> string \<Rightarrow> string \<Rightarrow> json option" where
  "sub_field body outer inner = (case Field body outer of Some (JObj kvs) \<Rightarrow> map_of kvs inner | _ \<Rightarrow> None)"

text \<open>
  C29. A reasoning effort is either sent upstream as the level the seeded table gives for the model or the
  request is refused: Anthropic gets it in its \<open>output_config\<close>, Gemini in its \<open>thinkingConfig\<close>, and a request
  without one carries no level at all.
\<close>

theorem effort_mapped_or_refused:
  "(TranslateAnthropicRequest sd body d = Inr (aout, injected) \<longrightarrow>
      (\<exists>inc. Unmarshal dec_anthropic_incoming zero_anthropic_incoming (json_parse body) = Some inc
         \<and> (case ai_ReasoningEffort inc of
              None \<Rightarrow> Field aout ''output_config'' = None
            | Some eff \<Rightarrow> \<exists>level. AnthropicEffort sd (ai_Model inc) eff = Some level
                \<and> sub_field aout ''output_config'' ''effort'' = Some (JStr level))))
   \<and> (TranslateGoogleRequest sd body model = Inr gout \<longrightarrow>
      (\<exists>inc. Unmarshal dec_google_incoming zero_google_incoming (json_parse body) = Some inc
         \<and> (case gi_ReasoningEffort inc of
              None \<Rightarrow> sub_field gout ''generationConfig'' ''thinkingConfig'' = None
            | Some eff \<Rightarrow> \<exists>level. GoogleThinkingLevel sd model eff = Some level
                \<and> sub_field gout ''generationConfig'' ''thinkingConfig'' = Some (JObj [(''thinkingLevel'', JStr level)]))))"
proof (intro conjI impI)
  assume a: "TranslateAnthropicRequest sd body d = Inr (aout, injected)"
  obtain inc system messages config tools where
    f: "Unmarshal dec_anthropic_incoming zero_anthropic_incoming (json_parse body) = Some inc"
    "config = map_option (\<lambda>eff. obj [(''effort'', JStr (the (AnthropicEffort sd (ai_Model inc) eff)))]) (ai_ReasoningEffort inc)"
    "\<forall>eff. ai_ReasoningEffort inc = Some eff \<longrightarrow> AnthropicEffort sd (ai_Model inc) eff \<noteq> None"
    "Field aout = map_of (anthropic_members inc system messages config tools d)"
    by (rule anthropic_request_fields [OF a])
  have "Field aout ''output_config'' = config"
    by (simp add: f(4) anthropic_members_def opt_member_def split: option.splits)
  with f(1-3) show "\<exists>inc. Unmarshal dec_anthropic_incoming zero_anthropic_incoming (json_parse body) = Some inc
         \<and> (case ai_ReasoningEffort inc of
              None \<Rightarrow> Field aout ''output_config'' = None
            | Some eff \<Rightarrow> \<exists>level. AnthropicEffort sd (ai_Model inc) eff = Some level
                \<and> sub_field aout ''output_config'' ''effort'' = Some (JStr level))"
    by (intro exI [of _ inc]) (auto simp: sub_field_def obj_def split: option.splits)
next
  assume g: "TranslateGoogleRequest sd body model = Inr gout"
  obtain inc contents system thinking where
    f: "Unmarshal dec_google_incoming zero_google_incoming (json_parse body) = Some inc"
    "thinking = map_option (\<lambda>eff. obj [(''thinkingLevel'', JStr (the (GoogleThinkingLevel sd model eff)))]) (gi_ReasoningEffort inc)"
    "\<forall>eff. gi_ReasoningEffort inc = Some eff \<longrightarrow> GoogleThinkingLevel sd model eff \<noteq> None"
    by (rule google_request_fields [OF g])
  have "sub_field gout ''generationConfig'' ''thinkingConfig'' = thinking"
    by (simp add: sub_field_def google_Field [OF g f(1,2)] obj_def)
      (simp add: google_generation_def opt_member_def split: option.splits)
  with f(1-3) show "\<exists>inc. Unmarshal dec_google_incoming zero_google_incoming (json_parse body) = Some inc
         \<and> (case gi_ReasoningEffort inc of
              None \<Rightarrow> sub_field gout ''generationConfig'' ''thinkingConfig'' = None
            | Some eff \<Rightarrow> \<exists>level. GoogleThinkingLevel sd model eff = Some level
                \<and> sub_field gout ''generationConfig'' ''thinkingConfig'' = Some (JObj [(''thinkingLevel'', JStr level)]))"
    by (intro exI [of _ inc]) (auto simp: obj_def split: option.splits)
qed

theorem effort_mapped_or_refused_witness:
  "sub_field (json_print (obj (anthropic_members sample_inc ''be brief'' [sample_turn] (Some (JObj [(''effort'', JStr ''light'')]))
      None 4096))) ''output_config'' ''effort'' = Some (JStr ''light'')"
proof -
  have "AnthropicEffort sample_seed ''claude'' ''low'' = Some ''light''" by code_simp
  moreover have "ai_ReasoningEffort sample_inc = Some ''low''" "ai_Model sample_inc = ''claude''"
    by (simp_all add: sample_inc_def)
  ultimately show ?thesis
    using effort_mapped_or_refused [of sample_seed sample_turns 4096] sample_turns_sent sample_turns_decode by auto
qed

end
