(* ===== verification/Stream_Dialects.thy ===== *)
theory Stream_Dialects
  imports Stream_Translate Dialects
begin

text \<open>
  What a client of a translated stream sees and what the gateway meters from it: properties of the
  translators of \<open>stream_anthropic.go\<close> and \<open>stream_google.go\<close> over whole streams of events. What both have in
  common, that the text of an event is the text of its chunks and that an invariant of the state is
  kept, is a locale the two translators instantiate.
\<close>

subsection \<open>Reading a chunk\<close>

text \<open>The delta of the first choice of a chunk, and its parts.\<close>

definition chunk_delta :: "string \<Rightarrow> (string \<times> json) list" where
  "chunk_delta c =
     (case Field c ''choices'' of
        Some (JArr (JObj choice # _)) \<Rightarrow> (case map_of choice ''delta'' of Some (JObj d) \<Rightarrow> d | _ \<Rightarrow> [])
      | _ \<Rightarrow> [])"

definition delta_text :: "string \<Rightarrow> string" where
  "delta_text c = (case map_of (chunk_delta c) ''content'' of Some (JStr s) \<Rightarrow> s | _ \<Rightarrow> [])"

text \<open>The tool call a chunk carries: its index, and its name when the chunk announces the call.\<close>

definition delta_call :: "string \<Rightarrow> (json \<times> json option \<times> string) option" where
  "delta_call c =
     (case map_of (chunk_delta c) ''tool_calls'' of
        Some (JArr (JObj call # _)) \<Rightarrow>
          (case (map_of call ''index'', map_of call ''function'') of
             (Some i, Some (JObj f)) \<Rightarrow>
               Some (i, map_of f ''name'', case map_of f ''arguments'' of Some (JStr a) \<Rightarrow> a | _ \<Rightarrow> [])
           | _ \<Rightarrow> None)
      | _ \<Rightarrow> None)"

lemma chunk_delta_print:
  assumes "list_all (\<lambda>(_, v). json_ok v) delta"
  shows "chunk_delta (json_print (chunk_json i model delta finish)) = sort_key fst delta"
proof -
  let ?choice = "[(''index'', int_json 0), (''delta'', obj delta)] @ opt_member ''finish_reason'' (map_option JStr finish)"
  have "Field (json_print (chunk_json i model delta finish)) ''choices'' = Some (JArr [obj ?choice])"
    unfolding chunk_json_def using assms
    by (subst Field_print) (auto simp: opt_member_def split: option.splits)
  moreover have "map_of (sort_key fst ?choice) ''delta'' = Some (obj delta)"
    by (simp add: opt_member_def split: option.splits)
  ultimately show ?thesis by (simp add: chunk_delta_def obj_def)
qed

lemma delta_text_print:
  assumes "list_all (\<lambda>(_, v). json_ok v) delta"
  shows "delta_text (json_print (chunk_json i model delta finish))
    = (case map_of delta ''content'' of Some (JStr s) \<Rightarrow> s | _ \<Rightarrow> [])"
  by (simp add: delta_text_def chunk_delta_print [OF assms])

lemma delta_call_announce:
  assumes "delta = tool_announcement n i' name args \<or> delta = AList.update ''role'' (JStr ''assistant'') (tool_announcement n i' name args)"
  shows "delta_call (json_print (chunk_json i model delta finish)) = Some (int_json n, Some (JStr name), args)"
proof -
  have "list_all (\<lambda>(_, v). json_ok v) delta" using assms by (auto simp: tool_announcement_def)
  from chunk_delta_print [OF this] assms show ?thesis
    by (auto simp: delta_call_def tool_announcement_def obj_def)
qed

lemma delta_call_fragment:
  "delta_call (json_print (chunk_json i model (tool_fragment n args) finish)) = Some (int_json n, None, args)"
proof -
  have "list_all (\<lambda>(_, v). json_ok v) (tool_fragment n args)" by (auto simp: tool_fragment_def)
  from chunk_delta_print [OF this] show ?thesis by (auto simp: delta_call_def tool_fragment_def obj_def)
qed

lemma delta_call_other:
  "list_all (\<lambda>(_, v). json_ok v) delta \<Longrightarrow> map_of delta ''tool_calls'' = None
   \<Longrightarrow> delta_call (json_print (chunk_json i model delta finish)) = None"
  by (simp add: delta_call_def chunk_delta_print)

subsection \<open>Streams of events\<close>

text \<open>An event that cannot be parsed adds no chunk: the pump forwards its frame.\<close>

fun run_events :: "(string \<Rightarrow> string \<Rightarrow> 's \<Rightarrow> string list option \<times> 's) \<Rightarrow> (string \<times> string) list \<Rightarrow> 's \<Rightarrow> string list \<times> 's" where
  "run_events step [] s = ([], s)"
| "run_events step ((ev, d) # es) s =
     (case step ev d s of (cs, s1) \<Rightarrow> (case run_events step es s1 of (rest, s2) \<Rightarrow> ((case cs of None \<Rightarrow> [] | Some x \<Rightarrow> x) @ rest, s2)))"

locale stream_translator =
  fixes step :: "string \<Rightarrow> string \<Rightarrow> 's \<Rightarrow> string list option \<times> 's"
    and event_text :: "string \<Rightarrow> string \<Rightarrow> string"
    and good :: "'s \<Rightarrow> bool"
    and start :: 's
  assumes step_text: "step ev d s = (Some cs, s') \<Longrightarrow> concat (map delta_text cs) = event_text ev d"
    and unparsed_text: "step ev d s = (None, s') \<Longrightarrow> event_text ev d = []"
    and start_good: "good start"
    and step_good: "good s \<Longrightarrow> good (snd (step ev d s))"
begin

lemma run_text: "concat (map delta_text (fst (run_events step es s))) = concat (map (\<lambda>(ev, d). event_text ev d) es)"
proof (induction es arbitrary: s)
  case (Cons e es)
  obtain ev d where e: "e = (ev, d)" by (cases e)
  obtain cs s1 where st: "step ev d s = (cs, s1)" by (cases "step ev d s")
  from Cons [of s1] st step_text [of ev d s _ s1] unparsed_text [of ev d s s1] show ?case
    by (cases cs) (auto simp: e split: prod.splits)
qed simp

lemma run_good: "good s \<Longrightarrow> good (snd (run_events step es s))"
proof (induction es arbitrary: s)
  case (Cons e es)
  obtain ev d where e: "e = (ev, d)" by (cases e)
  from Cons.IH [OF step_good [OF Cons.prems, of ev d]] show ?case by (auto simp: e split: prod.splits)
qed simp

lemmas run_start_good = run_good [OF start_good]

end

subsection \<open>Anthropic\<close>

definition anthropic_event_text :: "string \<Rightarrow> string \<Rightarrow> string" where
  "anthropic_event_text ev d =
     (case Unmarshal dec_anthropicEvent zero_event (json_parse d) of
        None \<Rightarrow> []
      | Some e \<Rightarrow>
        (case ae_Delta e of
           Some x \<Rightarrow> if event_type ev e = ''content_block_delta'' \<and> vd_Type x = ''text_delta'' then vd_Text x else []
         | None \<Rightarrow> []))"

definition anthropic_good :: "AnthropicStreamTranslator \<Rightarrow> bool" where
  "anthropic_good t \<longleftrightarrow> 0 \<le> at_inputTokens t \<and> 0 \<le> at_cacheReadTokens t \<and> 0 \<le> at_cacheWriteTokens t \<and> 0 \<le> at_outputTokens t
     \<and> 0 \<le> at_nextTool t \<and> (\<forall>(b, i) \<in> set (at_toolIndex t). 0 \<le> i \<and> i < at_nextTool t)"

lemma set_update_subset: "set (AList.update k v m) \<subseteq> insert (k, v) (set m)"
  by (induction m) auto

lemma nonNegative_le [simp]: "0 \<le> nonNegative n"
  by (simp add: nonNegative_def)

lemma anthropic_step_good: "anthropic_good t \<Longrightarrow> anthropic_good (snd (AnthropicTranslate ev d t))"
proof (cases "Unmarshal dec_anthropicEvent zero_event (json_parse d)")
  case (Some e)
  assume g: "anthropic_good t"
  have "anthropic_good (message_start e t)" using g
    by (simp add: message_start_def anthropic_good_def Let_def split: option.splits)
  moreover have "anthropic_good (snd (content_block_start e t))"
    using g set_update_subset [of "ae_Index e" "at_nextTool t" "at_toolIndex t"]
    by (auto simp: content_block_start_def anthropic_good_def Let_def split: option.splits) fastforce+
  moreover have "anthropic_good (snd (message_delta e t))" using g
    by (simp add: message_delta_def anthropic_good_def Let_def split: option.splits)
  moreover have "anthropic_good (t\<lparr>at_sawStop := True\<rparr>)" using g by (simp add: anthropic_good_def)
  ultimately show ?thesis using g Some
    by (auto simp: AnthropicTranslate_def Let_def split: prod.splits)
qed (simp add: AnthropicTranslate_def)

lemma anthropic_chunk_text:
  "list_all (\<lambda>(_, v). json_ok v) delta
   \<Longrightarrow> delta_text (anthropic_chunk t delta finish) = (case map_of delta ''content'' of Some (JStr s) \<Rightarrow> s | _ \<Rightarrow> [])"
  by (simp add: anthropic_chunk_def delta_text_print)

lemma anthropic_content_text [simp]: "delta_text (anthropic_chunk t [(''content'', JStr a)] None) = a"
  by (simp add: anthropic_chunk_text)

lemma anthropic_call_text [simp]:
  "delta_text (anthropic_chunk t (tool_fragment n a) None) = []"
  "delta_text (anthropic_chunk t (tool_announcement n i name a) None) = []"
  by (simp_all add: anthropic_chunk_text tool_fragment_def tool_announcement_def)

lemma content_block_delta_text:
  "concat (map delta_text (content_block_delta e t))
   = (case ae_Delta e of Some x \<Rightarrow> if vd_Type x = ''text_delta'' then vd_Text x else [] | None \<Rightarrow> [])"
proof (cases "ae_Delta e")
  case (Some x)
  consider "vd_Type x = ''text_delta''" | "vd_Type x = ''input_json_delta''"
    | "vd_Type x \<noteq> ''text_delta''" "vd_Type x \<noteq> ''input_json_delta''" by blast
  then show ?thesis
  proof cases
    case 2
    with Some show ?thesis
      by (cases "map_of (at_toolIndex t) (ae_Index e)") (simp_all add: content_block_delta_def)
  qed (simp_all add: Some content_block_delta_def)
qed (simp add: content_block_delta_def)

lemma anthropic_step_text:
  assumes "AnthropicTranslate ev d t = (Some cs, t')"
  shows "concat (map delta_text cs) = anthropic_event_text ev d"
proof -
  from assms obtain e where e: "Unmarshal dec_anthropicEvent zero_event (json_parse d) = Some e"
    by (auto simp: AnthropicTranslate_def split: option.splits)
  have "concat (map delta_text (fst (content_block_start e t))) = []"
    by (auto simp: content_block_start_def Let_def split: option.splits)
  moreover have "concat (map delta_text (fst (message_delta e t))) = []"
    by (auto simp: message_delta_def anthropic_chunk_text Let_def split: option.splits)
  ultimately show ?thesis using assms e
    by (auto simp: AnthropicTranslate_def anthropic_event_text_def anthropic_chunk_text Let_def content_block_delta_text
        simp del: concat_eq_Nil_conv split: if_splits prod.splits option.splits)
qed

interpretation anthropic: stream_translator AnthropicTranslate anthropic_event_text anthropic_good NewAnthropicStreamTranslator
proof unfold_locales
  fix ev d and s s' :: AnthropicStreamTranslator and cs
  show "AnthropicTranslate ev d s = (Some cs, s') \<Longrightarrow> concat (map delta_text cs) = anthropic_event_text ev d"
    by (rule anthropic_step_text)
  show "AnthropicTranslate ev d s = (None, s') \<Longrightarrow> anthropic_event_text ev d = []"
    by (auto simp: AnthropicTranslate_def anthropic_event_text_def Let_def split: option.splits if_splits prod.splits)
  show "anthropic_good NewAnthropicStreamTranslator"
    by (simp add: anthropic_good_def NewAnthropicStreamTranslator_def)
  show "anthropic_good s \<Longrightarrow> anthropic_good (snd (AnthropicTranslate ev d s))" by (rule anthropic_step_good)
qed

subsection \<open>Google\<close>

definition part_text :: "stream_part \<Rightarrow> string" where
  "part_text p = (case sp_FunctionCall p of Some _ \<Rightarrow> [] | None \<Rightarrow> sp_Text p)"

definition google_event_text :: "string \<Rightarrow> string \<Rightarrow> string" where
  "google_event_text ev d =
     (case Unmarshal dec_googleStreamChunk zero_googleStreamChunk (json_parse d) of
        None \<Rightarrow> []
      | Some c \<Rightarrow> (case gs_Candidates c of [] \<Rightarrow> [] | cand # _ \<Rightarrow> concat (map part_text (sc_Parts cand))))"

text \<open>The chunk kept for its usage is one that was read, and tool calls are counted from zero.\<close>

definition google_good :: "GoogleStreamTranslator \<Rightarrow> bool" where
  "google_good t \<longleftrightarrow> 0 \<le> gt_toolCalls t \<and> (gt_lastUsage t \<noteq> [] \<longrightarrow>
     (\<exists>c. Unmarshal dec_googleStreamChunk zero_googleStreamChunk (json_parse (gt_lastUsage t)) = Some c \<and> gs_UsageMetadata c \<noteq> None))"

lemma google_chunk_state: "snd (google_chunk t delta finish) = t\<lparr>gt_sentRole := True\<rparr>"
  by (simp add: google_chunk_def Let_def)

lemma google_chunk_text:
  assumes "list_all (\<lambda>(_, v). json_ok v) delta"
  shows "delta_text (fst (google_chunk t delta finish)) = (case map_of delta ''content'' of Some (JStr s) \<Rightarrow> s | _ \<Rightarrow> [])"
proof -
  have "list_all (\<lambda>(_, v). json_ok v) (if gt_sentRole t then delta else AList.update ''role'' (JStr ''assistant'') delta)"
    using assms by (simp add: update_ok)
  from delta_text_print [OF this] show ?thesis by (simp add: google_chunk_def Let_def update_conv')
qed

lemma google_parts_Cons:
  "google_parts (p # ps) t =
     (case sp_FunctionCall p of
        Some f \<Rightarrow>
          (let c = fst (google_chunk t (tool_announcement (gt_toolCalls t) (fc_ID f) (fc_Name f) (call_arguments f)) None);
               r = google_parts ps (t\<lparr>gt_sentRole := True, gt_toolCalls := gt_toolCalls t + 1\<rparr>)
           in (c # fst r, snd r))
      | None \<Rightarrow>
          if sp_Text p = [] then google_parts ps t
          else (let c = fst (google_chunk t [(''content'', JStr (sp_Text p))] None);
                    r = google_parts ps (t\<lparr>gt_sentRole := True\<rparr>)
                in (c # fst r, snd r)))"
  by (simp add: google_chunk_def Let_def split: option.splits prod.splits)

declare google_parts.simps(2) [simp del]

lemma google_parts_text: "concat (map delta_text (fst (google_parts ps t))) = concat (map part_text ps)"
proof (induction ps arbitrary: t)
  case (Cons p ps)
  have "delta_text (fst (google_chunk t (tool_announcement n i name a) None)) = []" for n i name a
    using google_chunk_text [of "tool_announcement n i name a" t None] by (simp add: tool_announcement_def)
  moreover have "delta_text (fst (google_chunk t [(''content'', JStr x)] None)) = x" for x
    using google_chunk_text [of "[(''content'', JStr x)]" t None] by simp
  ultimately show ?case using Cons by (simp add: google_parts_Cons part_text_def Let_def split: option.splits)
qed simp

lemma google_parts_state:
  "\<exists>role. snd (google_parts ps t) = t\<lparr>gt_sentRole := role,
     gt_toolCalls := gt_toolCalls t + int (length (filter (\<lambda>p. sp_FunctionCall p \<noteq> None) ps))\<rparr>"
proof (induction ps arbitrary: t)
  case Nil
  show ?case by (rule exI [of _ "gt_sentRole t"]) simp
next
  case (Cons p ps)
  from Cons [of "t\<lparr>gt_sentRole := True, gt_toolCalls := gt_toolCalls t + 1\<rparr>"] Cons [of "t\<lparr>gt_sentRole := True\<rparr>"] Cons [of t]
  show ?case by (cases "sp_FunctionCall p") (auto simp: google_parts_Cons Let_def algebra_simps)
qed

lemma google_Translate_parsed:
  assumes "Unmarshal dec_googleStreamChunk zero_googleStreamChunk (json_parse d) = Some c"
  shows "GoogleTranslate ev d t = (let t1 = note_chunk d c t in
     case gs_Candidates c of
       [] \<Rightarrow> (Some [], t1)
     | cand # _ \<Rightarrow>
       (let r = google_parts (sc_Parts cand) t1; t3 = (snd r)\<lparr>gt_sawFinishReason := True\<rparr>
        in if sc_FinishReason cand = [] then (Some (fst r), snd r)
           else (Some (fst r @ [fst (google_chunk t3 [] (Some (finishReason t3 (sc_FinishReason cand))))]), t3\<lparr>gt_sentRole := True\<rparr>)))"
  using assms google_chunk_state
  by (simp add: GoogleTranslate_def Let_def google_chunk_def split: list.splits prod.splits)

lemma google_step_text:
  assumes "GoogleTranslate ev d t = (Some cs, t')"
  shows "concat (map delta_text cs) = google_event_text ev d"
proof -
  from assms obtain c where c: "Unmarshal dec_googleStreamChunk zero_googleStreamChunk (json_parse d) = Some c"
    by (auto simp: GoogleTranslate_def split: option.splits)
  from assms google_parts_text show ?thesis
    by (auto simp: google_Translate_parsed [OF c] google_event_text_def c Let_def google_chunk_text
        simp del: concat_eq_Nil_conv split: list.splits if_splits)
qed

lemma google_step_good: "google_good t \<Longrightarrow> google_good (snd (GoogleTranslate ev d t))"
proof (cases "Unmarshal dec_googleStreamChunk zero_googleStreamChunk (json_parse d)")
  case (Some c)
  assume g: "google_good t"
  then have n: "google_good (note_chunk d c t)" using Some
    by (auto simp: note_chunk_def google_good_def Let_def)
  have p: "google_good (snd (google_parts ps t))" if "google_good t" for ps t
    using google_parts_state [of ps t] that by (auto simp: google_good_def)
  show ?thesis using n p
    by (auto simp: google_Translate_parsed [OF Some] Let_def google_good_def split: list.splits)
qed (simp add: GoogleTranslate_def)

interpretation google: stream_translator GoogleTranslate google_event_text google_good NewGoogleStreamTranslator
proof unfold_locales
  fix ev d and s s' :: GoogleStreamTranslator and cs
  show "GoogleTranslate ev d s = (Some cs, s') \<Longrightarrow> concat (map delta_text cs) = google_event_text ev d"
    by (rule google_step_text)
  show "GoogleTranslate ev d s = (None, s') \<Longrightarrow> google_event_text ev d = []"
    by (auto simp: GoogleTranslate_def google_event_text_def Let_def split: option.splits list.splits if_splits prod.splits)
  show "google_good NewGoogleStreamTranslator" by (simp add: google_good_def NewGoogleStreamTranslator_def)
  show "google_good s \<Longrightarrow> google_good (snd (GoogleTranslate ev d s))" by (rule google_step_good)
qed

subsection \<open>Text and usage over a whole stream\<close>

text \<open>
  C26. Not a character of a streamed answer is lost, repeated or moved: whatever the events, the content
  deltas of the chunks the client gets, put together, are the texts of the provider's events in order,
  for Anthropic and for Gemini.
\<close>

theorem streamed_text_kept:
  "concat (map delta_text (fst (run_events AnthropicTranslate es NewAnthropicStreamTranslator)))
     = concat (map (\<lambda>(ev, d). anthropic_event_text ev d) es)
   \<and> concat (map delta_text (fst (run_events GoogleTranslate es NewGoogleStreamTranslator)))
     = concat (map (\<lambda>(ev, d). google_event_text ev d) es)"
  using anthropic.run_text google.run_text by blast

lemma anthropic_counts_sound: "anthropic_good t \<Longrightarrow> sound_counts (fst (anthropic_counts_of t))"
  by (simp add: sound_counts_def anthropic_counts_of_def AnthropicUsage_def anthropic_good_def)

lemma google_counts_sound: "sound_counts (fst (GoogleUsage t))"
  by (auto simp: GoogleUsage_def sound_counts_def split: sum.splits dest: normalised_sound(3) [unfolded sound_counts_def])

text \<open>
  C28. Usage is never free by accident. Whatever a provider reports, in one piece or over a stream of any
  events, the counts taken from it are non-negative, so pricing them against a validated table
  succeeds: the error that would be settled as a zero cost cannot arise.
\<close>

theorem usage_always_priced:
  assumes "NewTable rows aliases = Inr tbl"
    and "cs = fst (anthropic_counts_of (snd (run_events AnthropicTranslate es NewAnthropicStreamTranslator)))
       \<or> cs = fst (GoogleUsage (snd (run_events GoogleTranslate es NewGoogleStreamTranslator)))
       \<or> NormaliseOpenAI b = Inr n \<and> cs = Counts n \<or> NormaliseAnthropic b = Inr n \<and> cs = Counts n
       \<or> NormaliseGoogle b = Inr n \<and> cs = Counts n"
  shows "(\<forall>(k, v) \<in> set cs. 0 \<le> v) \<and> (\<exists>r. Cost ddiv tbl (req\<lparr>q_Counts := cs\<rparr>) = Inr r)"
proof -
  have "sound_counts cs"
    using assms(2) anthropic_counts_sound [OF anthropic.run_start_good] google_counts_sound normalised_sound by blast
  with sound_counts_cost [OF assms(1), of "req\<lparr>q_Counts := cs\<rparr>"] show ?thesis by (auto simp: sound_counts_def)
qed

text \<open>A stream that reports a negative count.\<close>

definition sample_negative :: "(string \<times> string) list" where
  "sample_negative = [(''message_delta'', ''{'' @ quoted ''usage'' @ '':{'' @ quoted ''output_tokens'' @ '':-5}}'')]"

lemma sample_negative_counts:
  "fst (anthropic_counts_of (snd (run_events AnthropicTranslate sample_negative NewAnthropicStreamTranslator)))
   = [(''input'', 0), (''cached_read'', 0), (''cache_write_5m'', 0), (''output'', 0)]"
  by code_simp

theorem usage_always_priced_witness:
  "\<exists>r. Cost div16 sample_table (sample_request\<lparr>q_Counts :=
     [(''input'', 0), (''cached_read'', 0), (''cache_write_5m'', 0), (''output'', 0)]\<rparr>) = Inr r"
  using usage_always_priced [OF sample_NewTable disjI1, OF sample_negative_counts [symmetric], of div16 sample_request] by blast

text \<open>A payload that states usage, and one that ends the answer.\<close>

definition states_usage :: "string \<Rightarrow> bool" where
  "states_usage d =
     (case Unmarshal dec_googleStreamChunk zero_googleStreamChunk (json_parse d) of
        None \<Rightarrow> False | Some c \<Rightarrow> gs_UsageMetadata c \<noteq> None)"

definition google_ends :: "string \<Rightarrow> bool" where
  "google_ends d =
     (case Unmarshal dec_googleStreamChunk zero_googleStreamChunk (json_parse d) of
        None \<Rightarrow> False
      | Some c \<Rightarrow> (case gs_Candidates c of [] \<Rightarrow> False | cand # _ \<Rightarrow> sc_FinishReason cand \<noteq> []))"

definition anthropic_ends :: "string \<Rightarrow> string \<Rightarrow> bool" where
  "anthropic_ends ev d =
     (case Unmarshal dec_anthropicEvent zero_event (json_parse d) of
        None \<Rightarrow> False | Some e \<Rightarrow> event_type ev e = ''message_stop'')"

lemma google_step_marks:
  "gt_lastUsage (snd (GoogleTranslate ev d t)) = (if states_usage d then d else gt_lastUsage t)"
  "gt_sawFinishReason (snd (GoogleTranslate ev d t)) \<longleftrightarrow> gt_sawFinishReason t \<or> google_ends d"
proof -
  show "gt_lastUsage (snd (GoogleTranslate ev d t)) = (if states_usage d then d else gt_lastUsage t)"
  proof (cases "Unmarshal dec_googleStreamChunk zero_googleStreamChunk (json_parse d)")
    case (Some c)
    have "gt_lastUsage (snd (google_parts ps t)) = gt_lastUsage t" for ps t
      using google_parts_state [of ps t] by auto
    then show ?thesis using Some
      by (auto simp: google_Translate_parsed [OF Some] states_usage_def Let_def note_chunk_def split: list.splits)
  qed (simp add: GoogleTranslate_def states_usage_def)
  show "gt_sawFinishReason (snd (GoogleTranslate ev d t)) \<longleftrightarrow> gt_sawFinishReason t \<or> google_ends d"
  proof (cases "Unmarshal dec_googleStreamChunk zero_googleStreamChunk (json_parse d)")
    case (Some c)
    have "gt_sawFinishReason (snd (google_parts ps t)) = gt_sawFinishReason t" for ps t
      using google_parts_state [of ps t] by auto
    then show ?thesis using Some
      by (auto simp: google_Translate_parsed [OF Some] google_ends_def Let_def note_chunk_def split: list.splits)
  qed (simp add: GoogleTranslate_def google_ends_def)
qed

lemma anthropic_step_mark:
  "at_sawStop (snd (AnthropicTranslate ev d t)) \<longleftrightarrow> at_sawStop t \<or> anthropic_ends ev d"
proof (cases "Unmarshal dec_anthropicEvent zero_event (json_parse d)")
  case (Some e)
  have "at_sawStop (message_start e t) = at_sawStop t" by (simp add: message_start_def Let_def split: option.splits)
  moreover have "at_sawStop (snd (content_block_start e t)) = at_sawStop t"
    by (simp add: content_block_start_def Let_def split: option.splits)
  moreover have "at_sawStop (snd (message_delta e t)) = at_sawStop t"
    by (simp add: message_delta_def Let_def split: option.splits)
  ultimately have "at_sawStop (snd (AnthropicTranslate ev d t)) = at_sawStop t" if "event_type ev e \<noteq> ''message_stop''"
    using Some that by (simp add: AnthropicTranslate_def Let_def case_prod_beta)
  moreover have "at_sawStop (snd (AnthropicTranslate ev d t))" if "event_type ev e = ''message_stop''"
    using Some that by (simp add: AnthropicTranslate_def Let_def)
  moreover have "anthropic_ends ev d \<longleftrightarrow> event_type ev e = ''message_stop''" using Some by (simp add: anthropic_ends_def)
  ultimately show ?thesis by blast
qed (simp add: AnthropicTranslate_def anthropic_ends_def)

lemma run_snd: "snd (run_events step ((ev, d) # es) s) = snd (run_events step es (snd (step ev d s)))"
  by (simp split: prod.splits)

lemma run_marks:
  "gt_lastUsage (snd (run_events GoogleTranslate es t)) = last (gt_lastUsage t # filter states_usage (map snd es))"
  "gt_sawFinishReason (snd (run_events GoogleTranslate es t)) \<longleftrightarrow> gt_sawFinishReason t \<or> list_ex google_ends (map snd es)"
  "at_sawStop (snd (run_events AnthropicTranslate es u)) \<longleftrightarrow> at_sawStop u \<or> list_ex (\<lambda>(ev, d). anthropic_ends ev d) es"
proof -
  show "gt_lastUsage (snd (run_events GoogleTranslate es t)) = last (gt_lastUsage t # filter states_usage (map snd es))"
  proof (induction es arbitrary: t)
    case (Cons e es)
    obtain ev d where e: "e = (ev, d)" by (cases e)
    show ?case unfolding e run_snd Cons.IH google_step_marks(1) by simp
  qed simp
  show "gt_sawFinishReason (snd (run_events GoogleTranslate es t)) \<longleftrightarrow> gt_sawFinishReason t \<or> list_ex google_ends (map snd es)"
  proof (induction es arbitrary: t)
    case (Cons e es)
    obtain ev d where e: "e = (ev, d)" by (cases e)
    show ?case unfolding e run_snd Cons.IH google_step_marks(2) by simp
  qed simp
  show "at_sawStop (snd (run_events AnthropicTranslate es u)) \<longleftrightarrow> at_sawStop u \<or> list_ex (\<lambda>(ev, d). anthropic_ends ev d) es"
  proof (induction es arbitrary: u)
    case (Cons e es)
    obtain ev d where e: "e = (ev, d)" by (cases e)
    show ?case unfolding e run_snd Cons.IH anthropic_step_mark by simp
  qed simp
qed

text \<open>
  C24. Gemini's running totals are not added up, and the end of a stream is recognised by each dialect's own
  sign. After any events, Gemini's usage is that of the last chunk that stated any, counted by the same
  function that meters a response in one piece; a Gemini stream counts as complete exactly when some
  chunk gave a finish reason, and an Anthropic one exactly when a \<open>message_stop\<close> arrived.
\<close>

theorem stream_end_and_usage:
  "GoogleUsage (snd (run_events GoogleTranslate es NewGoogleStreamTranslator))
     = (let stated = filter states_usage (map snd es)
        in if stated = [] then ([], False)
           else case NormaliseGoogle (json_parse (last stated)) of Inl e \<Rightarrow> ([], False) | Inr n \<Rightarrow> (Counts n, True))
   \<and> (GoogleClosedCleanly (snd (run_events GoogleTranslate es NewGoogleStreamTranslator)) \<longleftrightarrow> list_ex google_ends (map snd es))
   \<and> (AnthropicClosedCleanly (snd (run_events AnthropicTranslate es NewAnthropicStreamTranslator))
        \<longleftrightarrow> list_ex (\<lambda>(ev, d). anthropic_ends ev d) es)"
proof -
  have "\<not> states_usage []" by code_simp
  then have "last (filter states_usage (map snd es)) \<noteq> []" if "filter states_usage (map snd es) \<noteq> []"
    using last_in_set [OF that] by auto
  then show ?thesis
    by (simp add: GoogleUsage_def GoogleClosedCleanly_def AnthropicClosedCleanly_def run_marks
        NewGoogleStreamTranslator_def NewAnthropicStreamTranslator_def Let_def)
qed

subsection \<open>Tool calls\<close>

definition announced :: "string list \<Rightarrow> json list" where
  "announced cs = concat (map (\<lambda>c. case delta_call c of Some (i, Some _, _) \<Rightarrow> [i] | _ \<Rightarrow> []) cs)"

text \<open>The position of a fragment of arguments, which announces nothing.\<close>

definition fragment_of :: "string \<Rightarrow> json option" where
  "fragment_of c = (case delta_call c of Some (i, None, _) \<Rightarrow> Some i | _ \<Rightarrow> None)"

lemma announced_simps [simp]: "announced [] = []" "announced (cs @ ds) = announced cs @ announced ds"
  by (simp_all add: announced_def)

text \<open>Chunks that take the number of tool calls from \<open>n\<close> to \<open>n'\<close>.\<close>

definition calls_ok :: "int \<Rightarrow> string list \<Rightarrow> int \<Rightarrow> bool" where
  "calls_ok n cs n' \<longleftrightarrow> n \<le> n' \<and> announced cs = map int_json [n..n' - 1]
     \<and> (\<forall>k < length cs. \<forall>i. fragment_of (cs ! k) = Some i
          \<longrightarrow> (\<exists>m. 0 \<le> m \<and> m < n + int (length (announced (take k cs))) \<and> i = int_json m))"

lemma calls_ok_append:
  assumes "calls_ok n cs n'" "calls_ok n' ds n''"
  shows "calls_ok n (cs @ ds) n''"
proof -
  have len: "int (length (announced cs)) = n' - n" using assms(1) by (simp add: calls_ok_def)
  have "\<exists>m. 0 \<le> m \<and> m < n + int (length (announced (take k (cs @ ds)))) \<and> i = int_json m"
    if k: "k < length (cs @ ds)" "fragment_of ((cs @ ds) ! k) = Some i" for k i
  proof (cases "k < length cs")
    case True
    with k assms(1) show ?thesis by (simp add: calls_ok_def nth_append)
  next
    case False
    with k have "k - length cs < length ds" "fragment_of (ds ! (k - length cs)) = Some i" by (auto simp: nth_append)
    with assms(2) have "\<exists>m. 0 \<le> m \<and> m < n' + int (length (announced (take (k - length cs) ds))) \<and> i = int_json m"
      by (simp add: calls_ok_def)
    with False len show ?thesis by auto
  qed
  moreover have "[n..n' - 1] @ [n'..n'' - 1] = [n..n'' - 1]"
    using assms upto_split1 [of n n' "n'' - 1"] by (cases "n' \<le> n'' - 1") (auto simp: calls_ok_def)
  ultimately show ?thesis using assms by (auto simp: calls_ok_def simp flip: map_append)
qed

lemma calls_ok_Nil [simp]: "calls_ok n [] n"
  by (simp add: calls_ok_def)

lemma calls_ok_silent: "delta_call c = None \<Longrightarrow> calls_ok n [c] n"
  by (simp add: calls_ok_def announced_def fragment_of_def)

lemma calls_ok_announce: "delta_call c = Some (int_json n, Some x, a) \<Longrightarrow> calls_ok n [c] (n + 1)"
  by (simp add: calls_ok_def announced_def fragment_of_def)

lemma calls_ok_fragment: "delta_call c = Some (int_json m, None, a) \<Longrightarrow> 0 \<le> m \<Longrightarrow> m < n \<Longrightarrow> calls_ok n [c] n"
  by (auto simp: calls_ok_def announced_def fragment_of_def)

text \<open>Every kind of chunk the translators write.\<close>

lemmas call_chunks = calls_ok_silent [OF delta_call_other] calls_ok_announce [OF delta_call_announce] calls_ok_fragment [OF delta_call_fragment]

lemma content_block_delta_calls:
  assumes "anthropic_good t"
  shows "calls_ok (at_nextTool t) (content_block_delta e t) (at_nextTool t)"
proof (cases "ae_Delta e")
  case (Some x)
  consider "vd_Type x = ''text_delta''" | "vd_Type x = ''input_json_delta''"
    | "vd_Type x \<noteq> ''text_delta''" "vd_Type x \<noteq> ''input_json_delta''" by blast
  then show ?thesis
  proof cases
    case 1
    with Some show ?thesis
      by (simp add: content_block_delta_def anthropic_chunk_def call_chunks(1))
  next
    case 2
    show ?thesis
    proof (cases "map_of (at_toolIndex t) (ae_Index e)")
      case None
      with Some 2 show ?thesis by (simp add: content_block_delta_def)
    next
      case (Some i)
      then have "0 \<le> i" "i < at_nextTool t" using assms by (auto simp: anthropic_good_def dest!: map_of_SomeD)
      with Some \<open>ae_Delta e = Some x\<close> 2 show ?thesis
        by (simp add: content_block_delta_def anthropic_chunk_def call_chunks(3))
    qed
  qed (simp add: Some content_block_delta_def)
qed (simp add: content_block_delta_def)

lemma content_block_start_calls:
  "calls_ok (at_nextTool t) (fst (content_block_start e t)) (at_nextTool (snd (content_block_start e t)))"
  by (auto simp: content_block_start_def anthropic_chunk_def Let_def intro!: call_chunks(2) split: option.splits)

lemma message_delta_calls:
  "calls_ok (at_nextTool t) (fst (message_delta e t)) (at_nextTool (snd (message_delta e t)))"
  by (auto simp: message_delta_def anthropic_chunk_def Let_def intro!: call_chunks(1) split: option.splits)

definition step_chunks :: "string list option \<times> 's \<Rightarrow> string list" where
  "step_chunks r = (case fst r of None \<Rightarrow> [] | Some cs \<Rightarrow> cs)"

lemma anthropic_step_calls:
  assumes "anthropic_good t"
  shows "calls_ok (at_nextTool t) (step_chunks (AnthropicTranslate ev d t)) (at_nextTool (snd (AnthropicTranslate ev d t)))"
proof (cases "Unmarshal dec_anthropicEvent zero_event (json_parse d)")
  case (Some e)
  have "at_nextTool (message_start e t) = at_nextTool t" by (simp add: message_start_def Let_def split: option.splits)
  moreover have "calls_ok n [anthropic_chunk u [(''role'', JStr ''assistant'')] None] n" for n u
    by (simp add: anthropic_chunk_def call_chunks(1))
  ultimately show ?thesis
    using Some content_block_delta_calls [OF assms] content_block_start_calls message_delta_calls
    by (simp add: AnthropicTranslate_def step_chunks_def Let_def case_prod_beta)
qed (simp add: AnthropicTranslate_def step_chunks_def)

lemma google_chunk_calls:
  "delta_call (fst (google_chunk t (tool_announcement n i name a) None)) = Some (int_json n, Some (JStr name), a)"
  "map_of delta ''tool_calls'' = None \<Longrightarrow> list_all (\<lambda>(_, v). json_ok v) delta
   \<Longrightarrow> delta_call (fst (google_chunk t delta finish)) = None"
  by (auto simp: google_chunk_def Let_def update_conv' update_ok intro!: delta_call_announce delta_call_other)

lemma google_parts_calls:
  "calls_ok (gt_toolCalls t) (fst (google_parts ps t)) (gt_toolCalls (snd (google_parts ps t)))"
proof (induction ps arbitrary: t)
  case (Cons p ps)
  show ?case
  proof (cases "sp_FunctionCall p")
    case None
    have "calls_ok (gt_toolCalls t) [fst (google_chunk t [(''content'', JStr (sp_Text p))] None)] (gt_toolCalls t)"
      by (intro calls_ok_silent google_chunk_calls(2)) simp_all
    from calls_ok_append [OF this, of "fst (google_parts ps (t\<lparr>gt_sentRole := True\<rparr>))"]
    show ?thesis using None Cons [of "t\<lparr>gt_sentRole := True\<rparr>"] Cons [of t] by (simp add: google_parts_Cons Let_def)
  next
    case (Some f)
    let ?t = "t\<lparr>gt_sentRole := True, gt_toolCalls := gt_toolCalls t + 1\<rparr>"
    from calls_ok_append [OF calls_ok_announce
        [OF google_chunk_calls(1) [of t "gt_toolCalls t" "fc_ID f" "fc_Name f" "call_arguments f"]], of "fst (google_parts ps ?t)"]
    show ?thesis using Some Cons [of ?t] by (simp add: google_parts_Cons Let_def)
  qed
qed simp

lemma google_step_calls:
  "calls_ok (gt_toolCalls t) (step_chunks (GoogleTranslate ev d t)) (gt_toolCalls (snd (GoogleTranslate ev d t)))"
proof (cases "Unmarshal dec_googleStreamChunk zero_googleStreamChunk (json_parse d)")
  case (Some c)
  have n: "gt_toolCalls (note_chunk d c t) = gt_toolCalls t" by (simp add: note_chunk_def Let_def)
  have f: "calls_ok m [fst (google_chunk u [] x)] m" for m u x
    by (intro calls_ok_silent google_chunk_calls(2)) simp_all
  show ?thesis
    using google_parts_calls [of "note_chunk d c t"] calls_ok_append [OF google_parts_calls f] n
    by (simp add: google_Translate_parsed [OF Some] step_chunks_def Let_def split: list.splits) metis
qed (simp add: GoogleTranslate_def step_chunks_def)

lemma run_fst: "fst (run_events step ((ev, d) # es) s) = step_chunks (step ev d s) @ fst (run_events step es (snd (step ev d s)))"
  by (simp add: step_chunks_def split: prod.splits)

lemma run_calls:
  "anthropic_good t \<Longrightarrow> calls_ok (at_nextTool t) (fst (run_events AnthropicTranslate es t)) (at_nextTool (snd (run_events AnthropicTranslate es t)))"
  "calls_ok (gt_toolCalls u) (fst (run_events GoogleTranslate es u)) (gt_toolCalls (snd (run_events GoogleTranslate es u)))"
proof -
  assume "anthropic_good t"
  then show "calls_ok (at_nextTool t) (fst (run_events AnthropicTranslate es t)) (at_nextTool (snd (run_events AnthropicTranslate es t)))"
  proof (induction es arbitrary: t)
    case (Cons e es)
    obtain ev d where e: "e = (ev, d)" by (cases e)
    show ?case unfolding e run_fst run_snd
      by (rule calls_ok_append [OF anthropic_step_calls [OF Cons.prems] Cons.IH [OF anthropic_step_good [OF Cons.prems]]])
  qed simp
next
  show "calls_ok (gt_toolCalls u) (fst (run_events GoogleTranslate es u)) (gt_toolCalls (snd (run_events GoogleTranslate es u)))"
  proof (induction es arbitrary: u)
    case (Cons e es)
    obtain ev d where e: "e = (ev, d)" by (cases e)
    show ?case unfolding e run_fst run_snd by (rule calls_ok_append [OF google_step_calls Cons.IH])
  qed simp
qed

lemma calls_ok_numbered:
  assumes "calls_ok 0 cs n"
  shows "announced cs = map (\<lambda>k. int_json (int k)) [0..<length (announced cs)]
    \<and> (\<forall>k < length cs. \<forall>i. fragment_of (cs ! k) = Some i \<longrightarrow> i \<in> set (announced (take k cs)))"
proof -
  have a: "announced cs = map int_json [0..n - 1]" using assms by (simp add: calls_ok_def)
  then have nth: "announced cs ! k = int_json (int k)" if "k < length (announced cs)" for k
    using that by (simp add: nth_upto)
  have "i \<in> set (announced (take k cs))" if k: "k < length cs" "fragment_of (cs ! k) = Some i" for k i
  proof -
    from assms k obtain m where m: "0 \<le> m" "m < int (length (announced (take k cs)))" "i = int_json m"
      by (auto simp: calls_ok_def)
    have split: "announced cs = announced (take k cs) @ announced (drop k cs)"
      by (metis announced_simps(2) append_take_drop_id)
    have nm: "nat m < length (announced (take k cs))" using m(1,2) by linarith
    have "announced (take k cs) ! nat m = (announced (take k cs) @ announced (drop k cs)) ! nat m"
      using nm by (simp add: nth_append)
    also have "\<dots> = announced cs ! nat m" by (simp only: split [symmetric])
    also have "\<dots> = i" using nth [of "nat m"] m split by simp
    finally show ?thesis using nm by (metis nth_mem)
  qed
  moreover have "announced cs = map (\<lambda>k. int_json (int k)) [0..<length (announced cs)]"
    using nth by (intro nth_equalityI) auto
  ultimately show ?thesis by blast
qed

text \<open>
  C27. The tool calls of a translated stream are numbered the way an OpenAI client expects. Whatever events
  the provider sends, the calls announced carry the indices 0, 1, 2, ... in order, and no fragment of
  arguments is sent for an index that was not announced by an earlier chunk.
\<close>

theorem tool_calls_numbered:
  "(let cs = fst (run_events AnthropicTranslate es NewAnthropicStreamTranslator)
    in announced cs = map (\<lambda>k. int_json (int k)) [0..<length (announced cs)]
       \<and> (\<forall>k < length cs. \<forall>i. fragment_of (cs ! k) = Some i \<longrightarrow> i \<in> set (announced (take k cs))))
   \<and> (let cs = fst (run_events GoogleTranslate es NewGoogleStreamTranslator)
    in announced cs = map (\<lambda>k. int_json (int k)) [0..<length (announced cs)]
       \<and> (\<forall>k < length cs. \<forall>i. fragment_of (cs ! k) = Some i \<longrightarrow> i \<in> set (announced (take k cs))))"
proof -
  have "at_nextTool NewAnthropicStreamTranslator = 0" "gt_toolCalls NewGoogleStreamTranslator = 0"
    by (simp_all add: NewAnthropicStreamTranslator_def NewGoogleStreamTranslator_def)
  with run_calls(1) [OF anthropic.start_good, of es] run_calls(2) [of NewGoogleStreamTranslator es]
  show ?thesis unfolding Let_def using calls_ok_numbered by metis
qed

text \<open>A tool call announced and filled.\<close>

definition sample_call :: "(string \<times> string) list" where
  "sample_call =
     [(''content_block_start'', ''{'' @ quoted ''index'' @ '':1,'' @ quoted ''content_block'' @ '':{'' @ quoted ''type'' @ '':''
        @ quoted ''tool_use'' @ '','' @ quoted ''name'' @ '':'' @ quoted ''f'' @ ''}}''),
      (''content_block_delta'', ''{'' @ quoted ''index'' @ '':1,'' @ quoted ''delta'' @ '':{'' @ quoted ''type'' @ '':''
        @ quoted ''input_json_delta'' @ '','' @ quoted ''partial_json'' @ '':'' @ quoted ''7'' @ ''}}'')]"

theorem tool_calls_numbered_witness:
  "fragment_of (fst (run_events AnthropicTranslate sample_call NewAnthropicStreamTranslator) ! 1) = Some (int_json 0)
   \<and> int_json 0 \<in> set (announced (take 1 (fst (run_events AnthropicTranslate sample_call NewAnthropicStreamTranslator))))"
proof -
  have "fragment_of (fst (run_events AnthropicTranslate sample_call NewAnthropicStreamTranslator) ! 1) = Some (int_json 0)"
    "1 < length (fst (run_events AnthropicTranslate sample_call NewAnthropicStreamTranslator))" by code_simp+
  with tool_calls_numbered [of sample_call] show ?thesis by (simp add: Let_def)
qed

end
