(* ===== verification/Stream_Relay.thy ===== *)
theory Stream_Relay
  imports Stream_Dialects Handler
begin

text \<open>
  A translated stream through the pump: what the client is written and where the translator ends up, for
  any translator, and then for the streams the adapters of package \<open>provider\<close> open.
\<close>

subsection \<open>The events of a body\<close>

definition events_of :: "Frame list \<Rightarrow> (string \<times> string) list" where
  "events_of fs = map (\<lambda>f. (Event f, data_bytes f)) (filter (\<lambda>f. trim_space (data_bytes f) \<noteq> []) (upto_done fs))"

lemma events_of_simps:
  "events_of [] = []"
  "events_of (f # fs) = (if trim_space (data_bytes f) = [] then [] else [(Event f, data_bytes f)])
     @ (if IsDone f then [] else events_of fs)"
  by (simp_all add: events_of_def)

text \<open>What a frame becomes, and the translator after it.\<close>

definition rendered :: "(string \<Rightarrow> string \<Rightarrow> 's \<Rightarrow> string list option \<times> 's) \<Rightarrow> Frame \<Rightarrow> 's \<Rightarrow> string list \<times> 's" where
  "rendered t f s =
     (if trim_space (data_bytes f) = [] then ([], s)
      else case t (Event f) (data_bytes f) s of
             (None, s') \<Rightarrow> ([Raw f], s')
           | (Some cs, s') \<Rightarrow> (map encodeSSE cs, s'))"

fun render_all :: "(string \<Rightarrow> string \<Rightarrow> 's \<Rightarrow> string list option \<times> 's) \<Rightarrow> Frame list \<Rightarrow> 's \<Rightarrow> string list \<times> 's" where
  "render_all t [] s = ([], s)"
| "render_all t (f # fs) s =
     (case rendered t f s of (cs, s1) \<Rightarrow>
        if IsDone f then (cs, s1) else (case render_all t fs s1 of (rest, s2) \<Rightarrow> (cs @ rest, s2)))"

lemma rendered_state: "snd (rendered t f s) = snd (run_events t (if trim_space (data_bytes f) = [] then [] else [(Event f, data_bytes f)]) s)"
  by (auto simp: rendered_def split: prod.splits option.splits)

lemma run_events_append:
  "run_events t (es @ es') s = (fst (run_events t es s) @ fst (run_events t es' (snd (run_events t es s))),
     snd (run_events t es' (snd (run_events t es s))))"
proof (induction es arbitrary: s)
  case (Cons e es)
  obtain ev d where e: "e = (ev, d)" by (cases e)
  from Cons show ?case unfolding e by (auto split: prod.splits)
qed simp

lemma render_all_state: "snd (render_all t fs s) = snd (run_events t (events_of fs) s)"
proof (induction fs arbitrary: s)
  case (Cons f fs)
  have "snd (render_all t (f # fs) s) = (if IsDone f then snd (rendered t f s) else snd (render_all t fs (snd (rendered t f s))))"
    by (simp split: prod.splits)
  also have "\<dots> = snd (run_events t (events_of (f # fs)) s)"
    by (simp add: rendered_state Cons events_of_simps run_events_append)
  finally show ?case .
qed (simp add: events_of_simps)

definition readable :: "(string \<Rightarrow> string \<Rightarrow> 's \<Rightarrow> string list option \<times> 's) \<Rightarrow> (string \<times> string) list \<Rightarrow> bool" where
  "readable t es \<longleftrightarrow> (\<forall>(ev, d) \<in> set es. \<forall>s. fst (t ev d s) \<noteq> None)"

lemma rendered_readable:
  "readable t (events_of [f]) \<Longrightarrow> fst (rendered t f s) = map encodeSSE (fst (run_events t (events_of [f]) s))"
proof (cases "trim_space (data_bytes f) = []")
  case False
  moreover assume "readable t (events_of [f])"
  ultimately have "fst (t (Event f) (data_bytes f) s) \<noteq> None" by (auto simp: readable_def events_of_simps)
  with False show ?thesis by (auto simp: rendered_def events_of_simps split: option.splits prod.splits)
qed (simp add: rendered_def events_of_simps)

lemma render_all_readable:
  "readable t (events_of fs) \<Longrightarrow> fst (render_all t fs s) = map encodeSSE (fst (run_events t (events_of fs) s))"
proof (induction fs arbitrary: s)
  case (Cons f fs)
  have ev: "events_of (f # fs) = events_of [f] @ (if IsDone f then [] else events_of fs)"
    by (simp add: events_of_simps)
  have r: "readable t (events_of [f])" "\<not> IsDone f \<Longrightarrow> readable t (events_of fs)"
    using Cons.prems unfolding ev by (auto simp: readable_def)
  have "fst (render_all t (f # fs) s) = fst (rendered t f s) @ (if IsDone f then [] else fst (render_all t fs (snd (rendered t f s))))"
    by (simp split: prod.splits)
  also have "\<dots> = map encodeSSE (fst (run_events t (events_of (f # fs)) s))"
    using Cons.IH [OF r(2)]
    by (simp add: rendered_readable [OF r(1)] rendered_state ev run_events_append) (simp add: events_of_simps)
  finally show ?case .
qed (simp add: events_of_simps)

subsection \<open>A client that stays\<close>

definition trailers_of :: "'s PumpOptions \<Rightarrow> 's \<Rightarrow> string list" where
  "trailers_of opts s = (case TrailingChunks opts of None \<Rightarrow> [] | Some g \<Rightarrow> g s)"

lemma renderFrame_translated:
  "Translate opts = Some t \<Longrightarrow> \<exists>err. renderFrame opts f st = (fst (rendered t f (tr st)), err, st\<lparr>tr := snd (rendered t f (tr st))\<rparr>)"
  by (auto simp: renderFrame_def rendered_def split: option.splits prod.splits)

lemma write_chunks_stays:
  "\<forall>k. write_ok env k \<Longrightarrow> writer st \<Longrightarrow> \<exists>st'. write_chunks opts env cs st = (False, st') \<and> writer st'
     \<and> written st' = written st @ cs \<and> tr st' = tr st \<and> SawDone (res st') = SawDone (res st)"
proof (induction cs arbitrary: st)
  case (Cons c cs)
  obtain st2 where st2: "writeChunk env c (st\<lparr>res := res st\<lparr>Chunks := Chunks (res st) + 1\<rparr>\<rparr>) = (True, st2)"
    "writer st2" "written st2 = written st @ [c]" "tr st2 = tr st" "SawDone (res st2) = SawDone (res st)"
    using Cons.prems by (simp add: writeChunk_def Let_def)
  from Cons.IH [OF Cons.prems(1) st2(2)] Cons.prems(2) st2 show ?case by auto
qed simp

lemma write_trailing_stays:
  "\<forall>k. write_ok env k \<Longrightarrow> written (write_trailing env cs st) = written st @ map encodeSSE cs
     \<and> tr (write_trailing env cs st) = tr st \<and> SawDone (res (write_trailing env cs st)) = SawDone (res st)"
  by (induction cs arbitrary: st) (simp_all add: writeChunk_def Let_def)

lemma writeTrailers_stays:
  assumes "Translate opts = Some t" "\<forall>k. write_ok env k"
  shows "written (writeTrailers opts env st) = written st @ map encodeSSE (trailers_of opts (tr st))
      @ (if SawDone (res st) then [] else [done_chunk]) \<and> tr (writeTrailers opts env st) = tr st"
  using assms write_trailing_stays [OF assms(2)]
  by (auto simp: writeTrailers_def trailers_of_def writeChunk_def Let_def split: option.splits)

lemma translated_loop:
  assumes "Translate opts = Some t" "\<forall>k. \<not> client_gone env k" "\<forall>k. write_ok env k" "\<not> read_fails env"
  shows "writer st \<Longrightarrow> \<exists>st'. Pump_loop opts env n fs st = (None, st') \<and> tr st' = snd (render_all t fs (tr st))
     \<and> written st' = written st @ fst (render_all t fs (tr st)) @ map encodeSSE (trailers_of opts (tr st'))
         @ (if SawDone (res st) \<or> list_ex IsDone fs then [] else [done_chunk])"
proof (induction fs arbitrary: n st)
  case Nil
  with assms writeTrailers_stays [OF assms(1,3), of st] show ?case
    by (simp add: Pump_loop.simps checkClient_def)
next
  case (Cons f fs)
  have ck: "checkClient opts env n st = (Carry_on, st)" using assms by (simp add: checkClient_def)
  define r where "r = (let r2 = (if Oversized f then (res st)\<lparr>PR_ParseErrors := PR_ParseErrors (res st) + 1\<rparr> else res st)
      in if IsDone f then r2\<lparr>SawDone := True\<rparr> else r2)"
  obtain err where rf: "renderFrame opts f (st\<lparr>res := r\<rparr>)
      = (fst (rendered t f (tr st)), err, (st\<lparr>res := r\<rparr>)\<lparr>tr := snd (rendered t f (tr st))\<rparr>)"
    using renderFrame_translated [OF assms(1), of f "st\<lparr>res := r\<rparr>"] by auto
  define st3 where "st3 = (let st2 = (st\<lparr>res := r\<rparr>)\<lparr>tr := snd (rendered t f (tr st))\<rparr>
      in if err then st2\<lparr>res := res st2\<lparr>PR_ParseErrors := PR_ParseErrors (res st2) + 1\<rparr>\<rparr> else st2)"
  have st3: "writer st3" "written st3 = written st" "tr st3 = snd (rendered t f (tr st))"
    "SawDone (res st3) = (SawDone (res st) \<or> IsDone f)"
    using Cons.prems by (auto simp: st3_def r_def Let_def)
  obtain st4 where w: "write_chunks opts env (fst (rendered t f (tr st))) st3 = (False, st4)" "writer st4"
    "written st4 = written st @ fst (rendered t f (tr st))" "tr st4 = snd (rendered t f (tr st))"
    "SawDone (res st4) = (SawDone (res st) \<or> IsDone f)"
    using write_chunks_stays [OF assms(3) st3(1)] st3 by metis
  have loop: "Pump_loop opts env n (f # fs) st
      = (if IsDone f then (None, writeTrailers opts env st4) else Pump_loop opts env (Suc n) fs st4)"
    using rf w(1,2) unfolding st3_def r_def Let_def by (simp add: Pump_loop.simps [of _ _ n] ck Let_def)
  show ?case
  proof (cases "IsDone f")
    case True
    with loop w writeTrailers_stays [OF assms(1,3), of st4] show ?thesis by (simp split: prod.splits)
  next
    case False
    with loop w Cons.IH [OF w(2), of "Suc n"] show ?thesis by (auto split: prod.splits)
  qed
qed

subsection \<open>A client that leaves while the stream is drained\<close>

lemma write_chunks_drains:
  "Drain opts \<Longrightarrow> fst (write_chunks opts env cs st) = False \<and> tr (snd (write_chunks opts env cs st)) = tr st"
proof (induction cs arbitrary: st)
  case (Cons c cs)
  from Cons show ?case by (auto simp: writeChunk_def Let_def)
qed simp

lemma write_trailing_tr: "tr (write_trailing env cs st) = tr st"
  by (induction cs arbitrary: st) (simp_all add: writeChunk_def Let_def)

lemma writeTrailers_tr: "tr (writeTrailers opts env st) = tr st"
  by (auto simp: writeTrailers_def writeChunk_def write_trailing_tr Let_def split: option.splits)

lemma checkClient_drains:
  assumes "Drain opts" "DrainSlot opts" "slot_free env"
  shows "\<exists>st1. checkClient opts env n st = (Carry_on, st1) \<and> tr st1 = tr st"
  using assms by (auto simp: checkClient_def Let_def)

lemma drained_loop:
  assumes "Translate opts = Some t" "Drain opts" "DrainSlot opts" "slot_free env"
  shows "tr (snd (Pump_loop opts env n fs st)) = snd (render_all t fs (tr st))"
proof (induction fs arbitrary: n st)
  case Nil
  obtain st1 where "checkClient opts env n st = (Carry_on, st1)" "tr st1 = tr st"
    using checkClient_drains [OF assms(2-4)] by blast
  then show ?case by (simp add: Pump_loop.simps writeTrailers_tr)
next
  case (Cons f fs)
  obtain st1 where ck: "checkClient opts env n st = (Carry_on, st1)" "tr st1 = tr st"
    using checkClient_drains [OF assms(2-4)] by blast
  define r where "r = (let r2 = (if Oversized f then (res st1)\<lparr>PR_ParseErrors := PR_ParseErrors (res st1) + 1\<rparr> else res st1)
      in if IsDone f then r2\<lparr>SawDone := True\<rparr> else r2)"
  obtain err where rf: "renderFrame opts f (st1\<lparr>res := r\<rparr>)
      = (fst (rendered t f (tr st)), err, (st1\<lparr>res := r\<rparr>)\<lparr>tr := snd (rendered t f (tr st))\<rparr>)"
    using renderFrame_translated [OF assms(1), of f "st1\<lparr>res := r\<rparr>"] ck(2) by auto
  define st3 where "st3 = (let st2 = (st1\<lparr>res := r\<rparr>)\<lparr>tr := snd (rendered t f (tr st))\<rparr>
      in if err then st2\<lparr>res := res st2\<lparr>PR_ParseErrors := PR_ParseErrors (res st2) + 1\<rparr>\<rparr> else st2)"
  obtain st4 where w: "write_chunks opts env (fst (rendered t f (tr st))) st3 = (False, st4)" "tr st4 = snd (rendered t f (tr st))"
    using write_chunks_drains [OF assms(2), of env "fst (rendered t f (tr st))" st3]
    by (cases "write_chunks opts env (fst (rendered t f (tr st))) st3") (simp add: st3_def Let_def)
  have loop: "Pump_loop opts env n (f # fs) st
      = (if IsDone f then (None, if writer st4 then writeTrailers opts env st4 else st4) else Pump_loop opts env (Suc n) fs st4)"
    using rf w(1) unfolding st3_def r_def Let_def by (simp add: Pump_loop.simps [of _ _ n] ck(1) Let_def)
  show ?case using Cons.IH [of "Suc n" st4] w(2)
    by (cases "IsDone f") (auto simp: loop writeTrailers_tr split: prod.splits)
qed

subsection \<open>What the client is written, what the gateway meters\<close>

text \<open>
  A translated stream is delivered whole to a client that stays: exactly the chunks the translator makes
  of the provider's events, in order, then the trailing chunks, then one end marker, whatever the
  translator, provided every event can be read.
\<close>

lemma translated_stream_delivered:
  assumes "can_flush env" "Translate opts = Some t" "\<forall>k. \<not> client_gone env k" "\<forall>k. write_ok env k" "\<not> read_fails env"
    and "readable t (events_of (frames body))"
  shows "\<exists>st. Pump opts env s0 body = (None, st)
    \<and> (let (cs, s) = run_events t (events_of (frames body)) s0
       in tr st = s \<and> written st = map encodeSSE (cs @ trailers_of opts s)
            @ (if list_ex IsDone (frames body) then [] else [done_chunk]))"
proof -
  have st: "writer (start_pump s0)" "tr (start_pump s0) = s0" "written (start_pump s0) = []" "\<not> SawDone (res (start_pump s0))"
    by (simp_all add: start_pump_def)
  from translated_loop [OF assms(2-5) st(1), of 0 "frames body"] obtain st' where
    l: "Pump_loop opts env 0 (frames body) (start_pump s0) = (None, st')" "tr st' = snd (render_all t (frames body) s0)"
      "written st' = fst (render_all t (frames body) s0) @ map encodeSSE (trailers_of opts (tr st'))
         @ (if list_ex IsDone (frames body) then [] else [done_chunk])"
    unfolding st(2,3) using st(4) by auto
  show ?thesis
    using l assms(1) render_all_readable [OF assms(6), of s0] render_all_state [of t "frames body" s0]
    by (intro exI [of _ "st'\<lparr>slot_held := False\<rparr>"]) (simp add: Pump_def case_prod_beta)
qed

text \<open>
  Draining meters a translated stream to its end. With a drain slot free, whatever the client does and
  wherever its writes fail, the translator ends in the state it has after all the provider's events:
  what is settled does not depend on when the client left.
\<close>

theorem drained_stream_metered:
  assumes "can_flush env" "Translate opts = Some t" "Drain opts" "DrainSlot opts" "slot_free env"
  shows "tr (snd (Pump opts env s0 body)) = snd (run_events t (events_of (frames body)) s0)"
proof -
  have "tr (snd (Pump_loop opts env 0 (frames body) (start_pump s0))) = snd (run_events t (events_of (frames body)) s0)"
    using drained_loop [OF assms(2-5), of 0 "frames body" "start_pump s0"]
    by (simp add: start_pump_def render_all_state)
  with assms(1) show ?thesis by (simp add: Pump_def case_prod_beta)
qed

definition counting :: "string \<Rightarrow> string \<Rightarrow> nat \<Rightarrow> string list option \<times> nat" where
  "counting ev d n = (Some [d], Suc n)"

definition counting_opts :: "nat PumpOptions" where
  "counting_opts = \<lparr>CancelUpstream = True, Drain = True, DrainSlot = True, StripUsageChunk = True, ObserveUsage = True,
     Translate = Some counting, TrailingChunks = None\<rparr>"

lemma sample_events: "map snd (events_of (frames sample_stream)) = [''a'', ''[DONE]'']"
  by (simp add: events_of_simps sample_frames sample_data sample_done IsDone_def) (simp add: trim_space_plain plain_char_def)

lemma run_counting: "snd (run_events counting es n) = n + length es"
proof (induction es arbitrary: n)
  case (Cons e es)
  obtain ev d where e: "e = (ev, d)" by (cases e)
  show ?case unfolding e run_snd Cons by (simp add: counting_def)
qed simp

theorem drained_stream_metered_witness:
  "tr (snd (Pump counting_opts (sample_env\<lparr>client_gone := (\<lambda>_. True), slot_free := True\<rparr>) 0 sample_stream)) = 2"
proof -
  have "length (events_of (frames sample_stream)) = 2" using sample_events by (metis length_map list.size(3,4) One_nat_def Suc_1 add.commute plus_1_eq_Suc)
  then show ?thesis
    using drained_stream_metered [of "sample_env\<lparr>client_gone := (\<lambda>_. True), slot_free := True\<rparr>" counting_opts counting 0 sample_stream]
    by (simp add: sample_env_def counting_opts_def run_counting)
qed

subsection \<open>The adapters' streams\<close>

text \<open>A translator lifted into the state all streams share runs as it does alone.\<close>

definition lift_anthropic :: "string \<Rightarrow> string \<Rightarrow> translator \<Rightarrow> string list option \<times> translator" where
  "lift_anthropic ev d = on_anthropic (Some [], NoTranslator)
     (\<lambda>t. case AnthropicTranslate ev d t of (cs, t1) \<Rightarrow> (cs, AnthropicState t1))"

lemma run_lifted:
  "run_events lift_anthropic es (AnthropicState t)
   = (fst (run_events AnthropicTranslate es t), AnthropicState (snd (run_events AnthropicTranslate es t)))"
proof (induction es arbitrary: t)
  case (Cons e es)
  obtain ev d where e: "e = (ev, d)" by (cases e)
  obtain cs t1 where t1: "AnthropicTranslate ev d t = (cs, t1)" by fastforce
  with Cons [of t1] show ?case unfolding e by (simp add: lift_anthropic_def on_anthropic_def split: prod.splits)
qed simp

definition parses :: "(string \<times> string) list \<Rightarrow> bool" where
  "parses es \<longleftrightarrow> (\<forall>(ev, d) \<in> set es. Unmarshal dec_anthropicEvent zero_event (json_parse d) \<noteq> None)"

lemma parses_readable:
  assumes "parses es"
  shows "readable lift_anthropic es"
proof -
  have "fst (lift_anthropic ev d s) \<noteq> None" if "(ev, d) \<in> set es" for ev d s
  proof -
    from assms that obtain e where e: "Unmarshal dec_anthropicEvent zero_event (json_parse d) = Some e"
      by (auto simp: parses_def)
    have "fst (AnthropicTranslate ev d t) \<noteq> None" for t
      by (simp add: AnthropicTranslate_def e Let_def case_prod_beta)
    then show ?thesis by (cases s) (simp_all add: lift_anthropic_def on_anthropic_def case_prod_beta)
  qed
  then show ?thesis by (auto simp: readable_def)
qed

text \<open>The edit that marks a translated request as a stream cannot fail.\<close>

lemma SetField_printed: "json_ok (obj kvs) \<Longrightarrow> \<exists>b. SetField (json_print (obj kvs)) name v = Some (Inr b)"
proof -
  assume "json_ok (obj kvs)"
  from json_parse_print [OF this] have "json_parse (json_print (obj kvs)) = Some (JObj (sort_key fst kvs))"
    by (simp only: obj_def)
  then show ?thesis by (simp add: SetField_def raw_map_def del: json_print.simps)
qed


definition sample_event :: string where
  "sample_event = ''{'' @ quoted ''type'' @ '':'' @ quoted ''content_block_delta'' @ '','' @ quoted ''delta'' @ '':{''
     @ quoted ''type'' @ '':'' @ quoted ''text_delta'' @ '','' @ quoted ''text'' @ '':'' @ quoted ''a'' @ ''}}''"

lemma sample_event_frames: "frames (encodeSSE sample_event) = [frame (encodeSSE sample_event) False]"
proof -
  have "Next (encodeSSE sample_event) = (Some (frame (encodeSSE sample_event) False), [])"
    by (simp add: Next_def sample_event_def quoted_def encodeSSE_def
        Next_loop.simps split_line_def isBlankLine_def newline_def creturn_def MaxFrameBytes_def)
  then show ?thesis by (simp add: frames.simps [of "encodeSSE sample_event"] frames.simps [of "[]"] Next_def Next_loop.simps)
qed

lemma sample_event_data:
  "data_bytes (frame (encodeSSE sample_event) False) = sample_event" "Event (frame (encodeSSE sample_event) False) = []"
  by code_simp+

lemma sample_event_trim: "trim_space sample_event = sample_event"
  by (rule trim_space_plain) (simp_all add: sample_event_def quoted_def plain_char_def)

lemma sample_event_events: "events_of (frames (encodeSSE sample_event)) = [([], sample_event)]"
proof -
  have "sample_event \<noteq> []" by (simp add: sample_event_def)
  then show ?thesis by (simp add: sample_event_frames events_of_simps sample_event_data sample_event_trim)
qed

lemma sample_event_text: "parses [([], sample_event)]" "anthropic_event_text [] sample_event = ''a''"
  by code_simp+

definition sample_client :: Client where
  "sample_client = \<lparr>cl_accepts = (\<lambda>_. True),
     cl_Do = (\<lambda>_. Some \<lparr>hr_StatusCode = 200, hr_Header = [], hr_Body = encodeSSE sample_event, hr_Complete = True\<rparr>)\<rparr>"

definition sample_popts :: ProviderOptions where
  "sample_popts = \<lparr>op_BaseURL = ''https://a'', op_APIKey = ''k'', op_Client = sample_client, op_DefaultMaxTokens = 4096\<rparr>"

definition sample_preq :: ProviderRequest where
  "sample_preq = \<lparr>pr_Body = sample_turns, pr_Model = ''claude'', pr_Stream = True, pr_MaxTokens = 0, pr_PassthroughHeaders = []\<rparr>"

lemma sample_stream_opened: "\<exists>stream. Anthropic_Stream sample_seed sample_popts sample_preq = Some (Inr stream)
    \<and> sm_Body stream = encodeSSE sample_event"
proof -
  define out where "out = json_print (obj (anthropic_members sample_inc ''be brief'' [sample_turn]
    (Some (JObj [(''effort'', JStr ''light'')])) None 4096))"
  have o: "TranslateAnthropicRequest sample_seed sample_turns 4096 = Inr (out, 4096)"
    using sample_turns_sent by (simp add: out_def)
  have "json_ok (obj (anthropic_members sample_inc ''be brief'' [sample_turn] (Some (JObj [(''effort'', JStr ''light'')])) None 4096))"
    by (simp add: anthropic_members_def opt_member_def sample_inc_def zero_anthropic_incoming_def sample_turn_def)
  then obtain body where "SetField out ''stream'' (JBool True) = Some (Inr body)"
    unfolding out_def using SetField_printed by blast
  with o show ?thesis
    by (simp add: Anthropic_Stream_def sample_preq_def sample_popts_def sample_client_def call_upstream_def)
qed


end
