(* ===== verification/Gateway.thy ===== *)
theory Gateway
  imports Stream_Relay
begin

text \<open>
  The request handler on the real adapters: what the proxy reserved for and what the provider is asked to
  do are the same request.
\<close>

subsection \<open>The output ceiling\<close>

text \<open>The members of a body the decoder takes for \<open>max_tokens\<close>.\<close>

definition ceiling_members :: "string \<Rightarrow> json list" where
  "ceiling_members body =
     (case json_parse body of
        Some (JObj kvs) \<Rightarrow> map snd (filter (\<lambda>(k, _). foldName k = foldName ''max_tokens'') kvs)
      | _ \<Rightarrow> [])"

definition handler_step :: "json \<Rightarrow> int \<Rightarrow> int" where
  "handler_step v x = (case v of JNum l \<Rightarrow> (case ParseInt l of Some n \<Rightarrow> n | None \<Rightarrow> x) | _ \<Rightarrow> x)"

definition adapter_step :: "json \<Rightarrow> int option \<Rightarrow> int option" where
  "adapter_step v x = (case v of JNum l \<Rightarrow> ParseInt l | _ \<Rightarrow> None)"

lemma handler_ceiling:
  assumes "parse_request body = Some r"
  shows "req_MaxTokens r = fold handler_step (ceiling_members body) 0"
proof -
  let ?z = "\<lparr>req_Model = [], req_Stream = False, req_MaxTokens = 0\<rparr>"
  from assms obtain j where j: "json_parse body = Some j" "dec_request j ?z = Some r"
    by (auto simp: parse_request_def Unmarshal_def split: option.splits)
  show ?thesis
  proof (cases j)
    case (JObj kvs)
    have "req_MaxTokens r = fold handler_step (map snd (filter (\<lambda>(k, _). foldName k = foldName ''max_tokens'') kvs)) (req_MaxTokens ?z)"
    proof (rule dec_members_get [where get = req_MaxTokens and step = handler_step and name = "''max_tokens''"])
      show "dec_members [(''model'', dec_string (\<lambda>x s. s\<lparr>req_Model := x\<rparr>)),
          (''stream'', dec_bool (\<lambda>b s. s\<lparr>req_Stream := b\<rparr>)),
          (''max_tokens'', dec_int (\<lambda>n s. s\<lparr>req_MaxTokens := n\<rparr>))] kvs ?z = Some r"
        using j(2) JObj by (simp add: dec_request_def dec_struct_def)
    qed (auto simp: dec_int_def dec_string_def dec_bool_def handler_step_def lower_char_def split: json.splits)
    with j(1) JObj show ?thesis by (simp add: ceiling_members_def)
  qed (use j in \<open>auto simp: dec_request_def dec_struct_def ceiling_members_def\<close>)
qed

lemma adapter_ceiling:
  assumes "Unmarshal dec_anthropic_incoming zero_anthropic_incoming (json_parse body) = Some inc"
  shows "ai_MaxTokens inc = fold adapter_step (ceiling_members body) None"
proof -
  from assms obtain j where j: "json_parse body = Some j" "dec_anthropic_incoming j zero_anthropic_incoming = Some inc"
    by (auto simp: Unmarshal_def split: option.splits)
  show ?thesis
  proof (cases j)
    case (JObj kvs)
    have "ai_MaxTokens inc = fold adapter_step (map snd (filter (\<lambda>(k, _). foldName k = foldName ''max_tokens'') kvs))
        (ai_MaxTokens zero_anthropic_incoming)"
    proof (rule dec_members_get [where get = ai_MaxTokens and step = adapter_step and name = "''max_tokens''"])
      show "dec_members [(''model'', dec_string (\<lambda>x s. s\<lparr>ai_Model := x\<rparr>)),
      (''messages'', dec_slice (\<lambda>xs s. s\<lparr>ai_Messages := xs\<rparr>) JNull (dec_raw (\<lambda>j _. j))),
      (''max_tokens'', dec_int_ptr (\<lambda>n s. s\<lparr>ai_MaxTokens := n\<rparr>)),
      (''temperature'', dec_float_ptr (\<lambda>l s. s\<lparr>ai_Temperature := l\<rparr>)),
      (''top_p'', dec_float_ptr (\<lambda>l s. s\<lparr>ai_TopP := l\<rparr>)),
      (''stop'', dec_raw (\<lambda>j s. s\<lparr>ai_Stop := Some j\<rparr>)),
      (''stream'', dec_bool (\<lambda>b s. s\<lparr>ai_Stream := b\<rparr>)),
      (''tools'', dec_raw (\<lambda>j s. s\<lparr>ai_Tools := Some j\<rparr>)),
      (''tool_choice'', dec_raw (\<lambda>j s. s\<lparr>ai_ToolChoice := Some j\<rparr>)),
      (''reasoning_effort'', dec_string_ptr (\<lambda>x s. s\<lparr>ai_ReasoningEffort := x\<rparr>))] kvs zero_anthropic_incoming = Some inc"
        using j(2) JObj by (simp add: dec_anthropic_incoming_def dec_struct_def)
    qed (auto simp: dec_int_ptr_def dec_float_ptr_def dec_string_ptr_def dec_ptr_def dec_int_def dec_string_def dec_bool_def
        dec_raw_def dec_slice_def adapter_step_def lower_char_def split: json.splits)
    with j(1) JObj show ?thesis by (simp add: ceiling_members_def zero_anthropic_incoming_def)
  qed (use j in \<open>auto simp: dec_anthropic_incoming_def dec_struct_def ceiling_members_def zero_anthropic_incoming_def\<close>)
qed

lemma anthropic_ceiling_sent:
  assumes "TranslateAnthropicRequest sd body d = Inr (out, injected)"
  shows "\<exists>inc. Unmarshal dec_anthropic_incoming zero_anthropic_incoming (json_parse body) = Some inc
    \<and> injected = (case ai_MaxTokens inc of Some _ \<Rightarrow> 0 | None \<Rightarrow> d)
    \<and> Field out ''max_tokens'' = Some (int_json (case ai_MaxTokens inc of Some n \<Rightarrow> n | None \<Rightarrow> d))"
proof -
  obtain inc system messages config tools where
    f: "Unmarshal dec_anthropic_incoming zero_anthropic_incoming (json_parse body) = Some inc"
    "injected = (case ai_MaxTokens inc of Some _ \<Rightarrow> 0 | None \<Rightarrow> d)"
    "Field out = map_of (anthropic_members inc system messages config tools d)"
    by (rule anthropic_request_fields [OF assms])
  then show ?thesis
    by (intro exI [of _ inc]) (auto simp: anthropic_members_def opt_member_def split: option.splits)
qed



text \<open>
  Naming \<open>max_tokens\<close> twice defeats this: a number followed by a null is the number to the handler and no
  ceiling to the adapter, which then asks for more tokens than were reserved for.
\<close>

definition sample_twice :: string where
  "sample_twice = ''{'' @ quoted ''max_tokens'' @ '':5,'' @ quoted ''max_tokens'' @ '':null}''"

theorem ceiling_named_twice:
  "\<exists>out. map_option req_MaxTokens (parse_request sample_twice) = Some 5
     \<and> TranslateAnthropicRequest (Inr []) sample_twice 4096 = Inr (out, 4096) \<and> Field out ''max_tokens'' = Some (int_json 4096)"
proof -
  have "map_option req_MaxTokens (parse_request sample_twice) = Some 5" by code_simp
  moreover obtain out where o: "TranslateAnthropicRequest (Inr []) sample_twice 4096 = Inr (out, 4096)"
  proof -
    have "Unmarshal dec_anthropic_incoming zero_anthropic_incoming (json_parse sample_twice) = Some zero_anthropic_incoming" by code_simp
    moreover have "refuse_unsupported anthropicUnsupported ''anthropic'' sample_twice = None" by code_simp
    ultimately show thesis
      using that by (simp add: TranslateAnthropicRequest_def anthropic_document_def zero_anthropic_incoming_def)
  qed
  moreover have "Field out ''max_tokens'' = Some (int_json 4096)"
    using anthropic_ceiling_sent [OF o] by (auto split: option.splits)
  ultimately show ?thesis by blast
qed

subsection \<open>Bodies the adapters are given\<close>

text \<open>
  No adapter panics on a request the handler lets through. A body that names a model is a JSON object, so
  the OpenAI adapter's edit of the stream options never assigns to a nil map, and neither does the
  Anthropic adapter's edit of its own translation.
\<close>

theorem adapters_never_panic:
  assumes "parse_request (pr_Body req) = Some r" "req_Model r \<noteq> []"
  shows "OpenAI_Stream popts req \<noteq> None \<and> Anthropic_Stream sd popts req \<noteq> None \<and> Google_Stream sd popts req \<noteq> None"
proof (intro conjI)
  have null: "json_parse (pr_Body req) \<noteq> Some JNull"
    using assms by (auto simp: parse_request_def Unmarshal_def dec_request_def dec_struct_def)
  then show "OpenAI_Stream popts req \<noteq> None"
    by (auto simp: OpenAI_Stream_def ensureIncludeUsage_def SetField_def Let_def split: option.splits sum.splits prod.splits if_splits)
  have "SetField out ''stream'' (JBool True) \<noteq> None"
    if "TranslateAnthropicRequest sd (pr_Body req) d = Inr (out, n)" for d out n
  proof -
    from anthropic_ceiling_sent [OF that] have "Field out ''max_tokens'' \<noteq> None" by auto
    then have "json_parse out \<noteq> Some JNull" by (auto simp: Field_def raw_map_def)
    then show ?thesis by (auto simp: SetField_def split: option.splits)
  qed
  then show "Anthropic_Stream sd popts req \<noteq> None"
    by (fastforce simp: Anthropic_Stream_def split: option.splits sum.splits prod.splits if_splits)
  show "Google_Stream sd popts req \<noteq> None"
    by (auto simp: Google_Stream_def split: sum.splits)
qed

end
