(* ===== verification/Boot.thy ===== *)
theory Boot
  imports Retention Server Gateway
begin

text \<open>
  The background work of the process and its wiring: package \<open>budget\<close> (the reaper), and \<open>runRetention\<close>,
  \<open>buildRouter\<close> and the options \<open>run\<close> builds, of \<open>cmd/costlane/main.go\<close>.

  A loop on a timer is a function of the wake-ups it gets: each brings what other transactions did to the
  database since the last one, the connections, clocks and locks of the work it starts, and whether the
  process was told to stop meanwhile. The run is still waiting when the wake-ups end.

  The lemmas show that repeated sweeps drain any backlog of expired reservations, oldest first, that a
  model is served exactly when the price list knows it and its provider has a credential, and that an
  accepted configuration reaches the request handler unchanged.
\<close>

subsection \<open>The reaper (reaper.go)\<close>

record Reaper =
  re_interval :: duration
  re_batch :: int

definition NewReaper :: "duration \<Rightarrow> int \<Rightarrow> Reaper" where
  "NewReaper interval batch = \<lparr>re_interval = (if interval \<le> 0 then sec 30 else interval),
     re_batch = (if batch \<le> 0 then 500 else batch)\<rparr>"

record SweepEnv =
  sw_before :: "DB \<Rightarrow> DB"
  sw_conns :: "nat \<Rightarrow> Conn"
  sw_nows :: "nat \<Rightarrow> time"
  sw_locks :: "nat \<Rightarrow> uuid \<Rightarrow> bool"

text \<open>What a sweep reports to its metrics and its log.\<close>

datatype reap_event = ReapDuration | ReapFailed store_error | DeadlockRetries nat | ReservationsReaped nat

definition sweep :: "SweepEnv \<Rightarrow> Reaper \<Rightarrow> DB \<Rightarrow> reap_event list \<times> DB" where
  "sweep e r db =
     (case ReapExpired (sw_conns e) (sw_nows e) (sw_locks e) (nat (re_batch r)) db of
        ((err, out), db') \<Rightarrow>
          (ReapDuration #
            (case err of
               Some x \<Rightarrow> [ReapFailed x]
             | None \<Rightarrow> (if 0 < ra_DeadlockRetries out then [DeadlockRetries (ra_DeadlockRetries out)] else [])
                 @ (if 0 < ra_Reaped out then [ReservationsReaped (ra_Reaped out)] else [])), db'))"

text \<open>\<open>rand.Int64N\<close> panics on an empty range: None.\<close>

definition jittered :: "(int \<Rightarrow> int) \<Rightarrow> Reaper \<Rightarrow> duration option" where
  "jittered rnd r =
     (let n = re_interval r div 4 in if n \<le> 0 then None else Some (i64 (re_interval r + rnd n)))"

datatype 'e wake = Cancelled | Tick 'e bool

datatype ending = Waiting | Returned | Panicked

fun Reaper_Run :: "(int \<Rightarrow> int) \<Rightarrow> Reaper \<Rightarrow> SweepEnv wake list \<Rightarrow> DB \<Rightarrow> (ending \<times> reap_event list) \<times> DB" where
  "Reaper_Run rnd r [] db = ((if jittered rnd r = None then Panicked else Waiting, []), db)"
| "Reaper_Run rnd r (Cancelled # ws) db = ((if jittered rnd r = None then Panicked else Returned, []), db)"
| "Reaper_Run rnd r (Tick e stop # ws) db =
     (if jittered rnd r = None then ((Panicked, []), db)
      else case sweep e r (sw_before e db) of
             (events, db1) \<Rightarrow>
               if stop then ((Returned, events), db1)
               else (case Reaper_Run rnd r ws db1 of ((fin, later), db2) \<Rightarrow> ((fin, events @ later), db2)))"

subsection \<open>The retention loop (main.go, runRetention)\<close>

record 'j RetentionEnv =
  rn_before :: "'j Tables \<Rightarrow> 'j Tables"
  rn_limited :: "nat \<Rightarrow> uuid list \<Rightarrow> uuid list"
  rn_fault :: "nat \<Rightarrow> string option"
  rn_now :: "nat \<Rightarrow> time"

fun runRetention :: "RetentionPolicy \<Rightarrow> 'j RetentionEnv wake list \<Rightarrow> 'j Tables \<Rightarrow> ending \<times> 'j Tables" where
  "runRetention policy [] tb = (Waiting, tb)"
| "runRetention policy (Cancelled # ws) tb = (Returned, tb)"
| "runRetention policy (Tick e stop # ws) tb =
     (case ApplyRetention (rn_limited e) (rn_fault e) (rn_now e) policy (rn_before e tb) of
        (_, tb1) \<Rightarrow> if stop then (Returned, tb1) else runRetention policy ws tb1)"

subsection \<open>Wiring (main.go, buildRouter and run)\<close>

definition provider_options :: "Client \<Rightarrow> Config \<Rightarrow> string \<Rightarrow> string \<Rightarrow> ProviderOptions" where
  "provider_options client cfg base key = \<lparr>op_BaseURL = base, op_APIKey = key, op_Client = client,
     op_DefaultMaxTokens = cf_DefaultMaxTokens cfg\<rparr>"

definition configured :: "seed \<Rightarrow> Client \<Rightarrow> Config \<Rightarrow> translator Provider list" where
  "configured sd client cfg =
     (if IsSet (cf_OpenAIKey cfg)
      then [openai_provider (provider_options client cfg (cf_OpenAIBaseURL cfg) (cf_OpenAIKey cfg))] else [])
     @ (if IsSet (cf_AnthropicKey cfg)
        then [anthropic_provider sd (provider_options client cfg (cf_AnthropicBaseURL cfg) (cf_AnthropicKey cfg))] else [])
     @ (if IsSet (cf_GoogleKey cfg)
        then [google_provider sd (provider_options client cfg (cf_GoogleBaseURL cfg) (cf_GoogleKey cfg))] else [])"

text \<open>None is the error of a process with no provider credential.\<close>

definition buildRouter :: "seed \<Rightarrow> Client \<Rightarrow> Config \<Rightarrow> Table \<Rightarrow> translator Router option" where
  "buildRouter sd client cfg t =
     (if configured sd client cfg = [] then None
      else Some (SetModelProviders (ModelProviders t) (NewRouter (configured sd client cfg))))"

text \<open>
  The options of the proxy as \<open>run\<close> fills them in. The usage buffer is assigned to the local options after
  \<open>proxy.New\<close> has copied them, so the handler has none.
\<close>

definition proxy_options :: "Config \<Rightarrow> 's Router \<Rightarrow> string list \<Rightarrow> 's GwOptions" where
  "proxy_options cfg router redactor =
     \<lparr>o_Router = router, o_MaxBodyBytes = cf_MaxBodyBytes cfg, o_DefaultMaxTokens = cf_DefaultMaxTokens cfg,
      o_ReservationTTL = cf_ReservationTTL cfg, o_ProviderTimeout = cf_ProviderTimeout cfg,
      o_DrainTimeout = cf_DrainTimeout cfg, o_StreamWriteTimeout = cf_StreamWriteTimeout cfg,
      o_MaxConcurrentDrains = cf_MaxConcurrentDrains cfg, o_TierGuard = cf_TierGuard cfg,
      o_PassthroughHeaderPrefixes = [], o_Redactor = redactor, o_Usage = False\<rparr>"

text \<open>\<open>MaxDrainMS\<close> of the administrative API: the provider timeout in milliseconds.\<close>

definition max_drain_ms :: "Config \<Rightarrow> int" where
  "max_drain_ms cfg = cf_ProviderTimeout cfg div 1000000"

subsection \<open>Sweeps drain the backlog\<close>

text \<open>The reservations still pending that had expired by an instant.\<close>

definition overdue :: "time \<Rightarrow> DB \<Rightarrow> reservation list" where
  "overdue t db = filter (\<lambda>r. rv_state r = Pending \<and> rv_expires_at r < t) (budget_reservations db)"

lemma sorted_take_filter:
  "sorted (map f xs) \<Longrightarrow> length (filter (\<lambda>x. f x < t) (take n xs)) = min n (length (filter (\<lambda>x. f x < (t :: int)) xs))"
proof (induction xs arbitrary: n)
  case (Cons x xs)
  show ?case
  proof (cases "f x < t")
    case True
    with Cons show ?thesis by (cases n) auto
  next
    case False
    with Cons.prems have "\<forall>y \<in> set (x # xs). \<not> f y < t" by auto
    then have "filter (\<lambda>y. f y < t) (x # xs) = []" "filter (\<lambda>y. f y < t) (take n (x # xs)) = []"
      unfolding filter_empty_conv using in_set_takeD by fast+
    then show ?thesis by simp
  qed
qed simp

lemma overdue_claimed:
  assumes "t \<le> now"
  shows "length (filter (\<lambda>r. rv_expires_at r < t) (claimed now (\<lambda>_. False) limit db)) = min limit (length (overdue t db))"
proof -
  let ?exp = "filter (expiredPending now (\<lambda>_. False)) (budget_reservations db)"
  have "filter (\<lambda>r. rv_expires_at r < t) ?exp = overdue t db"
    unfolding overdue_def filter_filter using assms by (intro filter_cong) (auto simp: expiredPending_def)
  moreover have "length (filter (\<lambda>r. rv_expires_at r < t) (sort_key rv_expires_at ?exp)) = length (filter (\<lambda>r. rv_expires_at r < t) ?exp)"
    by (metis mset_filter mset_sort size_mset)
  ultimately show ?thesis
    unfolding claimed_def by (simp add: sorted_take_filter)
qed

lemma overdue_reaped:
  assumes "distinct (map rv_id (budget_reservations db))" "t \<le> now"
  shows "length (overdue t (reaped (claimed now (\<lambda>_. False) limit db) db)) = length (overdue t db) - limit"
proof -
  let ?cl = "claimed now (\<lambda>_. False) limit db" and ?rs = "budget_reservations db"
  let ?over = "\<lambda>r. rv_state r = Pending \<and> rv_expires_at r < t"
  have "length (overdue t (reaped ?cl db)) = length (filter (\<lambda>r. ?over r \<and> \<not> expiring ?cl r) ?rs)"
    by (simp add: overdue_def reaped_def update_where_def filter_map o_def cong: filter_cong)
      (auto intro!: arg_cong [where f = length] filter_cong)
  also have "\<dots> = length (filter (\<lambda>r. \<not> expiring ?cl r) (overdue t db))"
    by (simp add: overdue_def conj_commute cong: conj_cong)
  also have "\<dots> = length (overdue t db) - length (filter (expiring ?cl) (overdue t db))"
    using sum_length_filter_compl [of "expiring ?cl" "overdue t db"] by simp
  also have "filter (expiring ?cl) (overdue t db) = filter (\<lambda>r. rv_expires_at r < t) (filter (expiring ?cl) ?rs)"
    by (auto simp: overdue_def expiring_def intro: filter_cong)
  also have "length \<dots> = length (filter (\<lambda>r. rv_expires_at r < t) ?cl)"
    by (metis expiring_claims [OF assms(1)] mset_filter size_mset)
  also have "\<dots> = min limit (length (overdue t db))" by (rule overdue_claimed [OF assms(2)])
  finally show ?thesis by simp
qed

definition works :: "time \<Rightarrow> SweepEnv \<Rightarrow> bool" where
  "works t e \<longleftrightarrow> sw_conns e 0 = ok_conn \<and> sw_locks e 0 = (\<lambda>_. False) \<and> t \<le> sw_nows e 0"

text \<open>Other transactions are the store's own, and none brings a reservation that has already expired.\<close>

definition quiet :: "time \<Rightarrow> SweepEnv \<Rightarrow> bool" where
  "quiet t e \<longleftrightarrow> (\<forall>db. db_step\<^sup>*\<^sup>* db (sw_before e db) \<and> length (overdue t (sw_before e db)) \<le> length (overdue t db))"

lemma sweep_drains:
  assumes "db_step\<^sup>*\<^sup>* empty_DB db" "works t e" "sweep e r db = (events, db')"
  shows "length (overdue t db') = length (overdue t db) - nat (re_batch r)" "db_step\<^sup>*\<^sup>* empty_DB db'"
proof -
  obtain res where reap: "ReapExpired (sw_conns e) (sw_nows e) (sw_locks e) (nat (re_batch r)) db = (res, db')"
    using assms(3) by (auto simp: sweep_def split: prod.splits)
  have "db_step db db'" by (rule step_fixed [OF step_reap [OF reap]])
  with assms(1) show "db_step\<^sup>*\<^sup>* empty_DB db'" by (rule rtranclp.rtrancl_into_rtrancl)
  have inv: "books db \<and> stored_ok db" using assms(1) by (intro ledger.inv_reachable) simp_all
  let ?cl = "claimed (sw_nows e 0) (\<lambda>_. False) (nat (re_batch r)) db"
  obtain db1 where once: "reapOnce ok_conn (sw_nows e 0) (\<lambda>_. False) (nat (re_batch r)) db = (Inr (length ?cl), db1)"
    using reapOnce_succeeds [OF inv, of ok_conn "sw_nows e 0" "\<lambda>_. False" "nat (re_batch r)"] by (auto simp: ok_conn_def)
  have "db' = (if ?cl = [] then db else reaped ?cl db)"
    using reap once reapOnce_result(2) [OF once, OF refl] assms(2)
    by (auto simp: ReapExpired_def numeral_2_eq_2 works_def)
  moreover have d: "distinct (map rv_id (budget_reservations db))" using inv by (simp add: books_def keys_ok_def)
  moreover have "t \<le> sw_nows e 0" using assms(2) by (simp add: works_def)
  ultimately show "length (overdue t db') = length (overdue t db) - nat (re_batch r)"
    using overdue_reaped [OF d, of t "sw_nows e 0" "nat (re_batch r)"] overdue_claimed [of t "sw_nows e 0" "nat (re_batch r)" db]
    by (auto split: if_splits)
qed

lemma run_drains:
  assumes "jittered rnd r \<noteq> None"
  shows "db_step\<^sup>*\<^sup>* empty_DB db \<Longrightarrow> \<forall>w \<in> set ws. \<exists>e. w = Tick e False \<and> works t e \<and> quiet t e \<Longrightarrow>
    Reaper_Run rnd r ws db = ((fin, events), db') \<Longrightarrow>
    length (overdue t db') \<le> length (overdue t db) - length ws * nat (re_batch r) \<and> fin = Waiting"
proof (induction ws arbitrary: db events)
  case Nil
  then show ?case using assms by auto
next
  case (Cons w ws)
  from Cons.prems obtain e where e: "w = Tick e False" "works t e" "quiet t e" by auto
  obtain ev db1 where sw: "sweep e r (sw_before e db) = (ev, db1)" by fastforce
  obtain later where run: "Reaper_Run rnd r ws db1 = ((fin, later), db')"
    using assms Cons.prems(3) by (auto simp: e(1) sw split: prod.splits)
  have before: "db_step\<^sup>*\<^sup>* empty_DB (sw_before e db)" "length (overdue t (sw_before e db)) \<le> length (overdue t db)"
    using Cons.prems(1) e(3) by (auto simp: quiet_def intro: rtranclp_trans)
  note drained = sweep_drains [OF before(1) e(2) sw]
  have "length (overdue t db') \<le> length (overdue t db1) - length ws * nat (re_batch r) \<and> fin = Waiting"
    using Cons.IH [OF drained(2) _ run] Cons.prems(2) by simp
  with drained(1) before(2) show ?case by simp (meson diff_le_mono le_trans)
qed



subsection \<open>The router serves what is priced and has a credential\<close>

definition credential :: "Config \<Rightarrow> string \<Rightarrow> string" where
  "credential cfg name =
     (if name = ''openai'' then cf_OpenAIKey cfg else if name = ''anthropic'' then cf_AnthropicKey cfg
      else if name = ''google'' then cf_GoogleKey cfg else [])"

lemma fold_update_go_map:
  "go_map xs \<Longrightarrow> map_of (fold (\<lambda>(k, v) m. AList.update k v m) xs m) k = (case map_of xs k of None \<Rightarrow> map_of m k | Some v \<Rightarrow> Some v)"
proof (induction xs arbitrary: m)
  case (Cons x xs)
  obtain a b where x: "x = (a, b)" by fastforce
  with Cons.prems have "go_map xs" "map_of xs a = None" by (simp_all add: map_of_eq_None_iff image_image)
  with Cons.IH [of "AList.update a b m"] x show ?case
    by (auto simp: update_conv' split: option.splits)
qed simp

lemma ModelProviders_go_map: "go_map (ModelProviders t)"
proof -
  have 1: "go_map out \<Longrightarrow> go_map (fold (\<lambda>(key, rows) out. AList.update (fst key) (snd key) out) xs out)"
    for xs :: "((string \<times> string) \<times> Row list) list" and out
    by (induction xs arbitrary: out) auto
  have 2: "go_map out \<Longrightarrow> go_map (fold (\<lambda>a out. AList.update m (a_Provider a) out) as out)"
    for as :: "Alias list" and m :: string and out
    by (induction as arbitrary: out) auto
  have 3: "go_map out \<Longrightarrow> go_map (fold (\<lambda>(key, aliases) out. fold (\<lambda>a out. AList.update (fst key) (a_Provider a) out) aliases out) xs out)"
    for xs :: "((string \<times> string) \<times> Alias list) list" and out
    by (induction xs arbitrary: out) (auto intro: 2)
  show ?thesis unfolding ModelProviders_def by (intro 3 1) simp
qed

lemma configured_names:
  "(\<exists>p. map_of (providers (NewRouter (configured sd client cfg))) name = Some p) \<longleftrightarrow> credential cfg name \<noteq> []"
  by (auto simp: configured_def NewRouter_def credential_def IsSet_def openai_provider_def anthropic_provider_def
      google_provider_def update_conv')


subsection \<open>The configuration reaches the handler\<close>

text \<open>
  An accepted configuration reaches the request handler unchanged, and a reservation outlives its request. None of the
  options is replaced by the handler's own default, and the reservation TTL covers the provider timeout
  and the drain that follows it for a key without a drain timeout of its own.
\<close>

theorem wired_options_kept:
  assumes "LoadFrom look = Inr cfg" "cf_ProviderTimeout cfg + cf_DrainTimeout cfg + sec 60 \<le> max_i64"
  shows "New (proxy_options cfg router redactor) = proxy_options cfg router redactor
    \<and> o_ProviderTimeout (proxy_options cfg router redactor)
        + drainTimeout None (o_DrainTimeout (proxy_options cfg router redactor))
      \<le> o_ReservationTTL (proxy_options cfg router redactor)"
  using LoadFrom_consistent [OF assms] by (simp add: New_def proxy_options_def drainTimeout_def)

theorem wired_options_kept_witness:
  "\<exists>cfg. LoadFrom (sample_env_of []) = Inr cfg
     \<and> New (proxy_options cfg sample_router []) = proxy_options cfg sample_router []"
proof -
  obtain cfg where cfg: "LoadFrom (sample_env_of []) = Inr cfg" "cf_ProviderTimeout cfg = sec 300" "cf_DrainTimeout cfg = sec 60"
    using sample_LoadFrom by blast
  have "cf_ProviderTimeout cfg + cf_DrainTimeout cfg + sec 60 \<le> max_i64"
    by (simp add: cfg sec_def max_i64_def)
  from wired_options_kept [OF cfg(1) this] cfg(1) show ?thesis by blast
qed

text \<open>
  A key may have a drain timeout up to \<open>MaxDrainMS\<close>. With the default configuration that drain, after the
  provider timeout, runs past the reservation's expiry.
\<close>

lemma per_key_drain_outlives_reservation:
  "\<exists>cfg. LoadFrom (sample_env_of []) = Inr cfg
     \<and> cf_ReservationTTL cfg < cf_ProviderTimeout cfg + drainTimeout (Some (max_drain_ms cfg)) (cf_DrainTimeout cfg)"
proof -
  obtain cfg where "LoadFrom (sample_env_of []) = Inr cfg" "cf_ProviderTimeout cfg = sec 300" "cf_DrainTimeout cfg = sec 60"
    "cf_ReservationTTL cfg = sec 420"
    using sample_LoadFrom by blast
  then show ?thesis by (intro exI [of _ cfg]) (simp add: drainTimeout_def max_drain_ms_def sec_def i64_def)
qed

subsection \<open>The retention loop\<close>

text \<open>
  Whatever runs in between, as long as it keeps the tables' constraints, so does the loop; it never
  touches the ledger itself.
\<close>

lemma runRetention_keeps:
  assumes "tables_ok tb" "runRetention policy ws tb = (fin, tb')"
    and "\<forall>w \<in> set ws. \<forall>e stop. w = Tick e stop \<longrightarrow> row_limit (rn_limited e)
      \<and> (\<forall>x. tables_ok x \<longrightarrow> tables_ok (rn_before e x) \<and> (books (tb_db x) \<longrightarrow> books (tb_db (rn_before e x))))"
  shows "tables_ok tb' \<and> (books (tb_db tb) \<longrightarrow> books (tb_db tb'))"
  using assms
proof (induction policy ws tb rule: runRetention.induct)
  case (3 policy e stop ws tb)
  obtain err out tb1 where r: "ApplyRetention (rn_limited e) (rn_fault e) (rn_now e) policy (rn_before e tb) = ((err, out), tb1)"
    by (metis prod.collapse)
  have e: "row_limit (rn_limited e)" "tables_ok (rn_before e tb)" "books (tb_db tb) \<longrightarrow> books (tb_db (rn_before e tb))"
    using "3.prems" by auto
  have kept: "tables_ok tb1" "books (tb_db tb1) = books (tb_db (rn_before e tb))"
    using ApplyRetention_keeps [OF e(1,2) r] by (auto simp: usage_books)
  show ?case
  proof (cases stop)
    case False
    with "3.prems"(2) r have run: "runRetention policy ws tb1 = (fin, tb')" by simp
    from "3.IH" [OF r [symmetric] False kept(1) run] "3.prems"(3) kept(2) e(3) show ?thesis by simp
  qed (use "3.prems"(2) r kept e(3) in simp)
qed auto

end
