(* ===== verification/Metrics.thy ===== *)
theory Metrics
  imports Retention Router Thinking "HOL-Library.Word"
begin

text \<open>
  Package \<open>obs\<close>, files \<open>prometheus.go\<close> and \<open>gateway_metrics.go\<close>: the registry of counters, gauges and
  histograms, its text form, and the metrics of the gateway.

  Counts of observations are 64-bit words, as \<open>uint64\<close> is. Go's \<open>%q\<close> is modelled on bytes: text beyond
  ASCII is taken to be printable. The text of a float (\<open>%g\<close>) is an argument of \<open>Render\<close>. A map of labels
  is an association list; the series it names is its rendered text.

  The lemmas show that the registry is exactly what the sequence of calls adds up to, and that two sets
  of labels name one series only when they are equal.
\<close>

subsection \<open>Quoting (fmt, %q)\<close>

definition lower_hex :: "nat \<Rightarrow> char" where
  "lower_hex n = (if n < 10 then char_of (48 + n) else char_of (87 + n))"

text \<open>The letters of the escapes of Go: bell, backspace, form feed, newline, return, tab, vertical tab.\<close>

definition escape_letters :: "(char \<times> char) list" where
  "escape_letters = [(CHR 0x07, CHR ''a''), (CHR 0x08, CHR ''b''), (CHR 0x0C, CHR ''f''), (CHR 0x0A, CHR ''n''),
     (CHR 0x0D, CHR ''r''), (CHR 0x09, CHR ''t''), (CHR 0x0B, CHR ''v'')]"

definition backslash :: char where "backslash = CHR 0x5C"
definition quote_mark :: char where "quote_mark = CHR 0x22"

definition quote_char :: "char \<Rightarrow> string" where
  "quote_char c =
     (if c = quote_mark \<or> c = backslash then [backslash, c]
      else if (32 :: nat) \<le> of_char c \<and> c \<noteq> CHR 0x7F then [c]
      else case map_of escape_letters c of
             Some l \<Rightarrow> [backslash, l]
           | None \<Rightarrow> [backslash, CHR ''x'', lower_hex (of_char c div 16), lower_hex (of_char c mod 16)])"

definition Quote :: "string \<Rightarrow> string" where
  "Quote s = [quote_mark] @ concat (map quote_char s) @ [quote_mark]"

subsection \<open>Labels\<close>

definition escapeLabel :: "string \<Rightarrow> string" where
  "escapeLabel v =
     replace_all [CHR 0x0A] [backslash, CHR ''n'']
       (replace_all [quote_mark] [backslash, quote_mark]
         (replace_all [backslash] [backslash, backslash] v))"

fun insert_string :: "string \<Rightarrow> string list \<Rightarrow> string list" where
  "insert_string x [] = [x]"
| "insert_string x (y # ys) = (if str_less_eq x y then x # y # ys else y # insert_string x ys)"

definition sort_strings :: "string list \<Rightarrow> string list" where
  "sort_strings xs = foldr insert_string xs []"

definition sortedKeys :: "(string \<times> 'v) list \<Rightarrow> string list" where
  "sortedKeys m = sort_strings (map fst m)"

type_synonym labels = "(string \<times> string) list"

definition label_pair :: "string \<Rightarrow> string \<Rightarrow> string" where
  "label_pair name v = name @ ''='' @ Quote v"

definition labelKey :: "labels \<Rightarrow> string" where
  "labelKey ls =
     (if ls = [] then []
      else ''{'' @ join '','' (map (\<lambda>n. label_pair n (escapeLabel (map_get [] ls n))) (sortedKeys ls)) @ ''}'')"

definition withLabel :: "string \<Rightarrow> string \<Rightarrow> string \<Rightarrow> string" where
  "withLabel existing name v =
     (if existing = [] then ''{'' @ label_pair name v @ ''}''
      else butlast existing @ '','' @ label_pair name v @ ''}'')"

subsection \<open>The registry (prometheus.go)\<close>

record counter =
  ct_help :: string
  ct_values :: "(string \<times> float64) list"

record gauge =
  ga_help :: string
  ga_values :: "(string \<times> float64) list"

record histogramSeries =
  hs_counts :: "64 word list"
  hs_sum :: float64
  hs_total :: "64 word"

record histogram =
  hi_help :: string
  hi_buckets :: "float64 list"
  hi_series :: "(string \<times> histogramSeries) list"

record Registry =
  rg_counters :: "(string \<times> counter) list"
  rg_gauges :: "(string \<times> gauge) list"
  rg_histograms :: "(string \<times> histogram) list"

definition NewRegistry :: Registry where
  "NewRegistry = \<lparr>rg_counters = [], rg_gauges = [], rg_histograms = []\<rparr>"

definition Counter :: "string \<Rightarrow> string \<Rightarrow> labels \<Rightarrow> float64 \<Rightarrow> Registry \<Rightarrow> Registry" where
  "Counter name help ls delta r =
     (let key = labelKey ls;
          c = map_get \<lparr>ct_help = help, ct_values = []\<rparr> (rg_counters r) name;
          c' = c\<lparr>ct_values := AList.update key (float_add (map_get (Fin 0) (ct_values c) key) delta) (ct_values c)\<rparr>
      in r\<lparr>rg_counters := AList.update name c' (rg_counters r)\<rparr>)"

definition Gauge :: "string \<Rightarrow> string \<Rightarrow> labels \<Rightarrow> float64 \<Rightarrow> Registry \<Rightarrow> Registry" where
  "Gauge name help ls v r =
     (let g = map_get \<lparr>ga_help = help, ga_values = []\<rparr> (rg_gauges r) name
      in r\<lparr>rg_gauges := AList.update name (g\<lparr>ga_values := AList.update (labelKey ls) v (ga_values g)\<rparr>) (rg_gauges r)\<rparr>)"

definition observe_series :: "float64 list \<Rightarrow> float64 \<Rightarrow> histogramSeries \<Rightarrow> histogramSeries" where
  "observe_series buckets v s =
     s\<lparr>hs_counts := map (\<lambda>(upper, n). if fge upper v then n + 1 else n) (zip buckets (hs_counts s)),
       hs_sum := float_add (hs_sum s) v, hs_total := hs_total s + 1\<rparr>"

definition new_series :: "float64 list \<Rightarrow> histogramSeries" where
  "new_series buckets = \<lparr>hs_counts = replicate (length buckets) 0, hs_sum = Fin 0, hs_total = 0\<rparr>"

definition Observe :: "string \<Rightarrow> string \<Rightarrow> labels \<Rightarrow> float64 list \<Rightarrow> float64 \<Rightarrow> Registry \<Rightarrow> Registry" where
  "Observe name help ls buckets v r =
     (let key = labelKey ls;
          h = map_get \<lparr>hi_help = help, hi_buckets = buckets, hi_series = []\<rparr> (rg_histograms r) name;
          s = map_get (new_series (hi_buckets h)) (hi_series h) key;
          h' = h\<lparr>hi_series := AList.update key (observe_series (hi_buckets h) v s) (hi_series h)\<rparr>
      in r\<lparr>rg_histograms := AList.update name h' (rg_histograms r)\<rparr>)"

definition ObserveDuration :: "string \<Rightarrow> string \<Rightarrow> labels \<Rightarrow> float64 list \<Rightarrow> duration \<Rightarrow> Registry \<Rightarrow> Registry" where
  "ObserveDuration name help ls buckets d = Observe name help ls buckets (Seconds d)"

definition newline :: string where "newline = [CHR 0x0A]"

definition metric_head :: "string \<Rightarrow> string \<Rightarrow> string \<Rightarrow> string" where
  "metric_head name help kind =
     ''# HELP '' @ name @ '' '' @ help @ newline @ ''# TYPE '' @ name @ '' '' @ kind @ newline"

definition render_values :: "(float64 \<Rightarrow> string) \<Rightarrow> string \<Rightarrow> (string \<times> float64) list \<Rightarrow> string" where
  "render_values g name vs =
     concat (map (\<lambda>ls. name @ ls @ '' '' @ g (map_get (Fin 0) vs ls) @ newline) (sortedKeys vs))"

definition word_text :: "64 word \<Rightarrow> string" where
  "word_text w = int_lit (int (unat w))"

definition render_series :: "(float64 \<Rightarrow> string) \<Rightarrow> string \<Rightarrow> float64 list \<Rightarrow> string \<Rightarrow> histogramSeries \<Rightarrow> string" where
  "render_series g name buckets ls s =
     concat (map (\<lambda>(upper, n). name @ ''_bucket'' @ withLabel ls ''le'' (g upper) @ '' '' @ word_text n @ newline)
       (zip buckets (hs_counts s)))
     @ name @ ''_bucket'' @ withLabel ls ''le'' ''+Inf'' @ '' '' @ word_text (hs_total s) @ newline
     @ name @ ''_sum'' @ ls @ '' '' @ g (hs_sum s) @ newline
     @ name @ ''_count'' @ ls @ '' '' @ word_text (hs_total s) @ newline"

definition Render :: "(float64 \<Rightarrow> string) \<Rightarrow> Registry \<Rightarrow> string" where
  "Render g r =
     concat (map (\<lambda>name. case map_of (rg_counters r) name of None \<Rightarrow> [] | Some c \<Rightarrow>
         metric_head name (ct_help c) ''counter'' @ render_values g name (ct_values c)) (sortedKeys (rg_counters r)))
     @ concat (map (\<lambda>name. case map_of (rg_gauges r) name of None \<Rightarrow> [] | Some x \<Rightarrow>
         metric_head name (ga_help x) ''gauge'' @ render_values g name (ga_values x)) (sortedKeys (rg_gauges r)))
     @ concat (map (\<lambda>name. case map_of (rg_histograms r) name of None \<Rightarrow> [] | Some h \<Rightarrow>
         metric_head name (hi_help h) ''histogram''
         @ concat (map (\<lambda>ls. case map_of (hi_series h) ls of None \<Rightarrow> [] | Some s \<Rightarrow>
             render_series g name (hi_buckets h) ls s) (sortedKeys (hi_series h)))) (sortedKeys (rg_histograms r)))"

definition Registry_Handler :: "(float64 \<Rightarrow> string) \<Rightarrow> Registry \<Rightarrow> HttpResponse" where
  "Registry_Handler g r =
     write_body (RawBody (Render g r)) (set_header ''Cache-Control'' ''no-store''
       (set_header ''Content-Type'' ''text/plain; version=0.0.4; charset=utf-8'' new_response))"

subsection \<open>The metrics of the gateway (gateway_metrics.go)\<close>

definition latencyBuckets :: "float64 list" where
  "latencyBuckets = map fround [1 / 1000, 5 / 1000, 1 / 100, 25 / 1000, 5 / 100, 1 / 10, 25 / 100, 5 / 10, 1, 25 / 10, 5, 10, 30, 60]"

definition overheadBuckets :: "float64 list" where
  "overheadBuckets = map fround [1 / 10000, 25 / 100000, 5 / 10000, 1 / 1000, 25 / 10000, 5 / 1000, 1 / 100, 25 / 1000, 5 / 100, 1 / 10]"

record GatewayMetrics =
  gm_registry :: Registry
  gm_drains :: float64

definition NewGatewayMetrics :: "Registry \<Rightarrow> GatewayMetrics" where
  "NewGatewayMetrics r = \<lparr>gm_registry = r, gm_drains = Fin 0\<rparr>"

definition on_registry :: "(Registry \<Rightarrow> Registry) \<Rightarrow> GatewayMetrics \<Rightarrow> GatewayMetrics" where
  "on_registry f m = m\<lparr>gm_registry := f (gm_registry m)\<rparr>"

definition M_RequestCompleted :: "string \<Rightarrow> string \<Rightarrow> string \<Rightarrow> duration \<Rightarrow> GatewayMetrics \<Rightarrow> GatewayMetrics" where
  "M_RequestCompleted model provider status d = on_registry
     (ObserveDuration ''costlane_request_duration_seconds''
        ''Time from receiving a request to finishing its response.''
        [(''model'', model), (''provider'', provider)] latencyBuckets d
      \<circ> Counter ''costlane_requests_total'' ''Requests completed, by model, provider and status.''
          [(''model'', model), (''provider'', provider), (''status'', status)] (Fin 1))"

definition M_ProxyOverhead :: "string \<Rightarrow> duration \<Rightarrow> GatewayMetrics \<Rightarrow> GatewayMetrics" where
  "M_ProxyOverhead model d = on_registry (ObserveDuration ''costlane_proxy_overhead_seconds''
     ''Time spent in costlane rather than waiting on a provider.'' [(''model'', model)] overheadBuckets d)"

definition M_TokensCounted :: "string \<Rightarrow> (string \<times> int) list \<Rightarrow> GatewayMetrics \<Rightarrow> GatewayMetrics" where
  "M_TokensCounted model counts = on_registry (fold (\<lambda>(kind, n) r. if n \<le> 0 then r
     else Counter ''costlane_tokens_total'' ''Tokens metered, by model and billing class.''
       [(''model'', model), (''kind'', kind)] (float_of_int n) r) counts)"

definition M_Unpriced :: "string \<Rightarrow> GatewayMetrics \<Rightarrow> GatewayMetrics" where
  "M_Unpriced model = on_registry (Counter ''costlane_unpriced_requests_total''
     ''Requests for a model with no active price.'' [(''model'', model)] (Fin 1))"

definition M_ModelMismatch :: "string \<Rightarrow> string \<Rightarrow> GatewayMetrics \<Rightarrow> GatewayMetrics" where
  "M_ModelMismatch requested served = on_registry (Counter ''costlane_model_mismatch_total''
     ''Responses served by a model other than the one requested.'' [(''requested'', requested), (''served'', served)] (Fin 1))"

definition M_BudgetRejection :: "GatewayMetrics \<Rightarrow> GatewayMetrics" where
  "M_BudgetRejection = on_registry (Counter ''costlane_budget_rejections_total''
     (''Requests refused because a key'' @ [CHR 0x27] @ ''s budget was exhausted.'') [] (Fin 1))"

definition M_BudgetOvershoot :: "GatewayMetrics \<Rightarrow> GatewayMetrics" where
  "M_BudgetOvershoot = on_registry (Counter ''costlane_budget_overshoot_total''
     ''Settles larger than the reservation that preceded them.'' [] (Fin 1))"

definition M_BudgetDrift :: "float64 \<Rightarrow> GatewayMetrics \<Rightarrow> GatewayMetrics" where
  "M_BudgetDrift usd = on_registry (Gauge ''costlane_budget_drift_usd''
     ''Difference between materialised balances and the reservation log.'' [] usd)"

definition M_ReservationsExpired :: "int \<Rightarrow> GatewayMetrics \<Rightarrow> GatewayMetrics" where
  "M_ReservationsExpired n = on_registry (Counter ''costlane_reservations_expired_total''
     ''Reservations released by the reaper after their TTL.'' [] (float_of_int n))"

definition M_UsageRecordsDropped :: "int \<Rightarrow> GatewayMetrics \<Rightarrow> GatewayMetrics" where
  "M_UsageRecordsDropped n = on_registry (Counter ''costlane_usage_records_dropped_total''
     ''Usage records lost, which should never happen.'' [] (float_of_int n))"

definition M_Chunk :: "string \<Rightarrow> GatewayMetrics \<Rightarrow> GatewayMetrics" where
  "M_Chunk model = on_registry (Counter ''costlane_stream_chunks_total''
     ''Stream chunks relayed to clients.'' [(''model'', model)] (Fin 1))"

definition M_TimeToFirstByte :: "string \<Rightarrow> duration \<Rightarrow> GatewayMetrics \<Rightarrow> GatewayMetrics" where
  "M_TimeToFirstByte model d = on_registry (ObserveDuration ''costlane_ttft_seconds''
     ''Time from receiving a request to writing its first byte to the client.'' [(''model'', model)] latencyBuckets d)"

definition M_ClientDisconnected :: "string \<Rightarrow> string \<Rightarrow> GatewayMetrics \<Rightarrow> GatewayMetrics" where
  "M_ClientDisconnected model policy = on_registry (Counter ''costlane_client_disconnects_total''
     ''Clients that went away mid-stream, by disconnect policy.'' [(''policy'', policy)] (Fin 1))"

definition adjustDrains :: "float64 \<Rightarrow> GatewayMetrics \<Rightarrow> GatewayMetrics" where
  "adjustDrains delta m =
     (let r = (if fge delta (Fin 0) \<and> delta \<noteq> Fin 0 then Counter ''costlane_drains_started_total''
                 ''Streams drained after a client disconnected.'' [] delta (gm_registry m) else gm_registry m);
          n = float_add (gm_drains m) delta
      in \<lparr>gm_registry = Gauge ''costlane_drains_in_flight'' ''Streams currently being drained.'' [] n r, gm_drains = n\<rparr>)"

definition M_DrainStarted :: "GatewayMetrics \<Rightarrow> GatewayMetrics" where
  "M_DrainStarted = adjustDrains (Fin 1)"

definition M_DrainFinished :: "GatewayMetrics \<Rightarrow> GatewayMetrics" where
  "M_DrainFinished = adjustDrains (Fin (-1))"

definition M_DrainWait :: "duration \<Rightarrow> GatewayMetrics \<Rightarrow> GatewayMetrics" where
  "M_DrainWait d = on_registry (ObserveDuration ''costlane_drain_semaphore_wait_seconds''
     ''Time a drain waited for a slot.'' [] overheadBuckets d)"

definition M_BufferDepth :: "int \<Rightarrow> GatewayMetrics \<Rightarrow> GatewayMetrics" where
  "M_BufferDepth n = on_registry (Gauge ''costlane_usage_buffer_depth''
     ''Usage records waiting to be written.'' [] (float_of_int n))"

definition M_BufferFull :: "GatewayMetrics \<Rightarrow> GatewayMetrics" where
  "M_BufferFull = on_registry (Counter ''costlane_usage_buffer_full_total''
     ''Times the usage buffer had no room.'' [] (Fin 1))"

definition M_SyncFallback :: "GatewayMetrics \<Rightarrow> GatewayMetrics" where
  "M_SyncFallback = on_registry (Counter ''costlane_usage_sync_fallback_total''
     ''Usage records written synchronously because the buffer was full.'' [] (Fin 1))"

definition M_BatchWritten :: "int \<Rightarrow> duration \<Rightarrow> GatewayMetrics \<Rightarrow> GatewayMetrics" where
  "M_BatchWritten n d = on_registry (ObserveDuration ''costlane_usage_batch_seconds''
     ''Time to write one batch of usage records.'' [] latencyBuckets d
     \<circ> Counter ''costlane_usage_records_written_total''
     ''Usage records persisted.'' [] (float_of_int n))"

definition M_BatchRetried :: "GatewayMetrics \<Rightarrow> GatewayMetrics" where
  "M_BatchRetried = on_registry (Counter ''costlane_usage_batch_retries_total''
     ''Usage batches retried after a write failure.'' [] (Fin 1))"

definition M_RecordsLost :: "int \<Rightarrow> GatewayMetrics \<Rightarrow> GatewayMetrics" where
  "M_RecordsLost = M_UsageRecordsDropped"

definition M_ReservationsReaped :: "int \<Rightarrow> GatewayMetrics \<Rightarrow> GatewayMetrics" where
  "M_ReservationsReaped = M_ReservationsExpired"

definition M_ReapDuration :: "duration \<Rightarrow> GatewayMetrics \<Rightarrow> GatewayMetrics" where
  "M_ReapDuration d = on_registry (ObserveDuration ''costlane_reaper_duration_seconds''
     ''Time for one reaper sweep.'' [] latencyBuckets d)"

definition M_DeadlockRetries :: "int \<Rightarrow> GatewayMetrics \<Rightarrow> GatewayMetrics" where
  "M_DeadlockRetries n = on_registry (Counter ''costlane_reaper_deadlock_retries_total''
     ''Reaper sweeps retried after a deadlock.'' [] (float_of_int n))"

subsection \<open>The registry is the sum of its calls\<close>

datatype call = CallCounter string string labels float64 | CallGauge string string labels float64
  | CallObserve string string labels "float64 list" float64

fun apply_call :: "call \<Rightarrow> Registry \<Rightarrow> Registry" where
  "apply_call (CallCounter name help ls delta) = Counter name help ls delta"
| "apply_call (CallGauge name help ls v) = Gauge name help ls v"
| "apply_call (CallObserve name help ls buckets v) = Observe name help ls buckets v"

definition counter_value :: "Registry \<Rightarrow> string \<Rightarrow> string \<Rightarrow> float64 option" where
  "counter_value r name key = Option.bind (map_of (rg_counters r) name) (\<lambda>c. map_of (ct_values c) key)"

definition gauge_value :: "Registry \<Rightarrow> string \<Rightarrow> string \<Rightarrow> float64 option" where
  "gauge_value r name key = Option.bind (map_of (rg_gauges r) name) (\<lambda>g. map_of (ga_values g) key)"

definition series_value :: "Registry \<Rightarrow> string \<Rightarrow> string \<Rightarrow> histogramSeries option" where
  "series_value r name key = Option.bind (map_of (rg_histograms r) name) (\<lambda>h. map_of (hi_series h) key)"

text \<open>What a log of calls says of one series.\<close>

fun added :: "string \<Rightarrow> string \<Rightarrow> call \<Rightarrow> float64 list" where
  "added name key (CallCounter n _ ls d) = (if n = name \<and> labelKey ls = key then [d] else [])"
| "added name key _ = []"

fun assigned :: "string \<Rightarrow> string \<Rightarrow> call \<Rightarrow> float64 list" where
  "assigned name key (CallGauge n _ ls v) = (if n = name \<and> labelKey ls = key then [v] else [])"
| "assigned name key _ = []"

fun observed :: "string \<Rightarrow> string \<Rightarrow> call \<Rightarrow> float64 list" where
  "observed name key (CallObserve n _ ls _ v) = (if n = name \<and> labelKey ls = key then [v] else [])"
| "observed name key _ = []"

fun offered :: "string \<Rightarrow> call \<Rightarrow> float64 list list" where
  "offered name (CallObserve n _ _ b _) = (if n = name then [b] else [])"
| "offered name _ = []"

definition total_of :: "float64 list \<Rightarrow> float64 option" where
  "total_of ds = (if ds = [] then None else Some (foldl float_add (Fin 0) ds))"

definition series_of :: "float64 list \<Rightarrow> float64 list \<Rightarrow> histogramSeries option" where
  "series_of buckets vs =
     (if vs = [] then None
      else Some \<lparr>hs_counts = map (\<lambda>upper. of_nat (length (filter (fge upper) vs))) buckets,
             hs_sum = foldl float_add (Fin 0) vs, hs_total = of_nat (length vs)\<rparr>)"

definition log_of :: "(call \<Rightarrow> 'a list) \<Rightarrow> call list \<Rightarrow> 'a list" where
  "log_of f calls = concat (map f calls)"

lemma log_of_simps [simp]: "log_of f [] = []" "log_of f (calls @ [c]) = log_of f calls @ f c" "log_of f (c # calls) = f c @ log_of f calls"
  by (simp_all add: log_of_def)

lemma untouched [simp]:
  "rg_counters (Gauge n h ls v r) = rg_counters r" "rg_histograms (Gauge n h ls v r) = rg_histograms r"
  "rg_gauges (Counter n h ls v r) = rg_gauges r" "rg_histograms (Counter n h ls v r) = rg_histograms r"
  "rg_counters (Observe n h ls b v r) = rg_counters r" "rg_gauges (Observe n h ls b v r) = rg_gauges r"
  by (simp_all add: Gauge_def Counter_def Observe_def Let_def)

lemma counter_refines:
  "counter_value (fold apply_call calls NewRegistry) name key = total_of (log_of (added name key) calls)"
proof (induction calls rule: rev_induct)
  case (snoc c calls)
  let ?r = "fold apply_call calls NewRegistry"
  show ?case
  proof (cases c)
    case (CallCounter n h ls d)
    have "counter_value (Counter n h ls d ?r) name key
        = (if n = name \<and> labelKey ls = key
           then Some (float_add (case counter_value ?r name key of None \<Rightarrow> Fin 0 | Some x \<Rightarrow> x) d) else counter_value ?r name key)"
      by (auto simp: counter_value_def Counter_def Let_def update_conv' map_get_def split: option.splits)
    with snoc CallCounter show ?thesis by (auto simp: total_of_def)
  qed (use snoc in \<open>simp_all add: counter_value_def\<close>)
qed (simp add: counter_value_def NewRegistry_def total_of_def)

lemma gauge_refines:
  "gauge_value (fold apply_call calls NewRegistry) name key
     = (let vs = log_of (assigned name key) calls in if vs = [] then None else Some (last vs))"
proof (induction calls rule: rev_induct)
  case (snoc c calls)
  let ?r = "fold apply_call calls NewRegistry"
  show ?case
  proof (cases c)
    case (CallGauge n h ls v)
    have "gauge_value (Gauge n h ls v ?r) name key = (if n = name \<and> labelKey ls = key then Some v else gauge_value ?r name key)"
      by (auto simp: gauge_value_def Gauge_def Let_def update_conv' map_get_def split: option.splits)
    with snoc CallGauge show ?thesis by (auto simp: Let_def)
  qed (use snoc in \<open>simp_all add: gauge_value_def\<close>)
qed (simp add: gauge_value_def NewRegistry_def)

lemma buckets_refine:
  "map_option hi_buckets (map_of (rg_histograms (fold apply_call calls NewRegistry)) name)
     = (case log_of (offered name) calls of [] \<Rightarrow> None | b # _ \<Rightarrow> Some b)"
proof (induction calls rule: rev_induct)
  case (snoc c calls)
  then show ?case
    by (cases c) (auto simp: Observe_def Let_def update_conv' map_get_def split: option.splits list.splits if_splits)
qed (simp add: NewRegistry_def)

lemma observed_offered: "log_of (observed name key) calls \<noteq> [] \<Longrightarrow> log_of (offered name) calls \<noteq> []"
proof (induction calls)
  case (Cons c calls)
  then show ?case by (cases c) (auto split: if_splits)
qed simp

lemma series_refines:
  "series_value (fold apply_call calls NewRegistry) name key
     = series_of (hd (log_of (offered name) calls)) (log_of (observed name key) calls)"
proof (induction calls rule: rev_induct)
  case (snoc c calls)
  let ?r = "fold apply_call calls NewRegistry" and ?b = "log_of (offered name) calls"
    and ?vs = "log_of (observed name key) calls"
  show ?case
  proof (cases c)
    case (CallObserve n h ls b v)
    let ?bs = "case ?b of [] \<Rightarrow> b | b' # _ \<Rightarrow> b'"
    have bs: "hi_buckets (map_get \<lparr>hi_help = h, hi_buckets = b, hi_series = []\<rparr> (rg_histograms ?r) name) = ?bs"
      using buckets_refine [of calls name] by (auto simp: map_get_def split: option.splits list.splits)
    have "series_value (Observe n h ls b v ?r) name key
        = (if n = name \<and> labelKey ls = key
           then Some (observe_series ?bs v (case series_value ?r name key of None \<Rightarrow> new_series ?bs | Some s \<Rightarrow> s))
           else series_value ?r name key)"
      by (auto simp: series_value_def Observe_def Let_def update_conv' bs)
        (auto simp: map_get_def split: option.splits)
    moreover have "observe_series ?bs v (case series_of (hd ?b) ?vs of None \<Rightarrow> new_series ?bs | Some s \<Rightarrow> s)
        = \<lparr>hs_counts = map (\<lambda>upper. of_nat (length (filter (fge upper) (?vs @ [v])))) ?bs,
           hs_sum = foldl float_add (Fin 0) (?vs @ [v]), hs_total = of_nat (length (?vs @ [v]))\<rparr>"
    proof (cases "?vs = []")
      case True
      then show ?thesis
        by (auto simp: series_of_def observe_series_def new_series_def zip_replicate2 intro!: map_cong)
    next
      case False
      then have "?b \<noteq> []" by (rule observed_offered)
      then have "?bs = hd ?b" by (cases ?b) auto
      then show ?thesis
        using False by (auto simp: series_of_def observe_series_def zip_map2 zip_same_conv_map algebra_simps)
    qed
    moreover have "hd (?b @ [b]) = ?bs" by (cases ?b) auto
    ultimately show ?thesis
      using snoc CallObserve observed_offered [of name key calls]
      by (auto simp: series_of_def split: list.splits)
  qed (use snoc in \<open>simp_all add: series_value_def\<close>)
qed (simp add: series_value_def NewRegistry_def series_of_def)

text \<open>
  C40. The registry is exactly the log of its calls. After any sequence of calls, a counter holds the sum of
  the deltas of its series in their order, a gauge the last value it was given, and a histogram series the
  number of its observations, their sum, and for every bucket the number of them not above its bound,
  modulo \<open>2^64\<close>, with the buckets of the first call for its name; a series nobody touched does not exist.
\<close>

theorem registry_refines_log:
  "counter_value (fold apply_call calls NewRegistry) name key = total_of (log_of (added name key) calls)
   \<and> gauge_value (fold apply_call calls NewRegistry) name key
       = (let vs = log_of (assigned name key) calls in if vs = [] then None else Some (last vs))
   \<and> series_value (fold apply_call calls NewRegistry) name key
       = series_of (hd (log_of (offered name) calls)) (log_of (observed name key) calls)"
  by (intro conjI counter_refines gauge_refines series_refines)

subsection \<open>A series is its labels\<close>

text \<open>A code for characters that can be read back from the front of a text, up to what cannot be read.\<close>

locale char_code =
  fixes enc :: "char \<Rightarrow> string" and dec :: "string \<Rightarrow> (char \<times> string) option"
  assumes dec_enc: "dec (enc c @ s) = Some (c, s)"
begin

lemma enc_inj:
  "dec r = None \<Longrightarrow> dec r' = None \<Longrightarrow> concat (map enc s) @ r = concat (map enc t) @ r' \<Longrightarrow> s = t \<and> r = r'"
proof (induction s arbitrary: t)
  case Nil
  then show ?case by (cases t) (use dec_enc in auto)
next
  case (Cons c s)
  then have "t \<noteq> []" using dec_enc [of c "concat (map enc s) @ r"] by auto
  then obtain d t' where t: "t = d # t'" by (cases t) simp_all
  with Cons.prems(3) have "dec (enc c @ concat (map enc s) @ r) = dec (enc d @ concat (map enc t') @ r')" by simp
  then have "c = d" "concat (map enc s) @ r = concat (map enc t') @ r'" by (simp_all add: dec_enc)
  with Cons.IH [OF Cons.prems(1,2)] t show ?case by blast
qed

end

definition hex_val :: "char \<Rightarrow> nat" where
  "hex_val c = (if of_char c < (58 :: nat) then of_char c - 48 else of_char c - 87)"

definition unquote_char :: "string \<Rightarrow> (char \<times> string) option" where
  "unquote_char s =
     (case s of
        [] \<Rightarrow> None
      | c # t \<Rightarrow>
        if c = quote_mark then None
        else if c \<noteq> backslash then Some (c, t)
        else (case t of
                [] \<Rightarrow> None
              | d # u \<Rightarrow>
                if d = quote_mark \<or> d = backslash then Some (d, u)
                else if d = CHR ''x''
                  then (case u of a # b # w \<Rightarrow> Some (char_of (16 * hex_val a + hex_val b), w) | _ \<Rightarrow> None)
                else map_option (\<lambda>c. (c, u)) (map_of (map prod.swap escape_letters) d)))"

lemma hex_val_lower_hex: "n < 16 \<Longrightarrow> hex_val (lower_hex n) = n"
  by (simp add: hex_val_def lower_hex_def)

lemma unquote_quote: "unquote_char (quote_char c @ s) = Some (c, s)"
proof -
  consider "c = quote_mark \<or> c = backslash" | "c \<noteq> quote_mark \<and> c \<noteq> backslash" "(32 :: nat) \<le> of_char c \<and> c \<noteq> CHR 0x7F"
    | l where "c \<noteq> quote_mark \<and> c \<noteq> backslash" "\<not> ((32 :: nat) \<le> of_char c \<and> c \<noteq> CHR 0x7F)" "map_of escape_letters c = Some l"
    | "c \<noteq> quote_mark \<and> c \<noteq> backslash" "\<not> ((32 :: nat) \<le> of_char c \<and> c \<noteq> CHR 0x7F)" "map_of escape_letters c = None"
    by fastforce
  then show ?thesis
  proof cases
    case 3
    then show ?thesis
      by (auto simp: quote_char_def unquote_char_def escape_letters_def quote_mark_def backslash_def split: if_splits)
  next
    case 4
    have "(of_char c :: nat) < 256" by simp
    then have "of_char c div 16 < (16 :: nat)" by (simp only: less_mult_imp_div_less)
    then have "hex_val (lower_hex (of_char c div 16)) = of_char c div 16" "hex_val (lower_hex (of_char c mod 16)) = of_char c mod 16"
      by (simp_all add: hex_val_lower_hex)
    moreover have "16 * (of_char c div 16) + of_char c mod 16 = (of_char c :: nat)" by simp
    ultimately have "char_of (16 * hex_val (lower_hex (of_char c div 16)) + hex_val (lower_hex (of_char c mod 16))) = c"
      by (simp only: char_of_char)
    with 4 show ?thesis by (auto simp: quote_char_def unquote_char_def quote_mark_def backslash_def)
  qed (auto simp: quote_char_def unquote_char_def quote_mark_def backslash_def)
qed

definition escape_char :: "char \<Rightarrow> string" where
  "escape_char c =
     (if c = backslash then [backslash, backslash] else if c = quote_mark then [backslash, quote_mark]
      else if c = CHR 0x0A then [backslash, CHR ''n''] else [c])"

definition unescape_char :: "string \<Rightarrow> (char \<times> string) option" where
  "unescape_char s =
     (case s of
        [] \<Rightarrow> None
      | c # t \<Rightarrow> if c \<noteq> backslash then Some (c, t)
                 else (case t of [] \<Rightarrow> None | d # u \<Rightarrow> Some (if d = CHR ''n'' then CHR 0x0A else d, u)))"

lemma unescape_escape: "unescape_char (escape_char c @ s) = Some (c, s)"
  by (auto simp: escape_char_def unescape_char_def backslash_def quote_mark_def)

interpretation quoting: char_code quote_char unquote_char
  by unfold_locales (rule unquote_quote)

interpretation escaping: char_code escape_char unescape_char
  by unfold_locales (rule unescape_escape)

lemma replace_char: "replace_all [c] new s = concat (map (\<lambda>x. if x = c then new else [x]) s)"
  by (induction s) (auto simp: has_prefix_def)

lemma escapeLabel_chars: "escapeLabel v = concat (map escape_char v)"
  unfolding escapeLabel_def replace_char
  by (induction v) (auto simp: escape_char_def backslash_def quote_mark_def)

lemma escapeLabel_inj: "escapeLabel v = escapeLabel w \<longleftrightarrow> v = w"
proof
  assume "escapeLabel v = escapeLabel w"
  then show "v = w"
    using escaping.enc_inj [of "[]" "[]" v w] by (simp add: escapeLabel_chars unescape_char_def)
qed simp

lemma label_pair_inj:
  assumes "CHR ''='' \<notin> set n" "CHR ''='' \<notin> set n'" "label_pair n v @ r = label_pair n' v' @ r'"
  shows "n = n' \<and> v = v' \<and> r = r'"
proof -
  have "cut ''='' (label_pair n v @ r) = Some (n, Quote v @ r)" "cut ''='' (label_pair n' v' @ r') = Some (n', Quote v' @ r')"
    using assms(1,2) by (simp_all add: label_pair_def cut_char_append)
  with assms(3) have nn: "n = n'" and "Quote v @ r = Quote v' @ r'" by simp_all
  then have "concat (map quote_char v) @ quote_mark # r = concat (map quote_char v') @ quote_mark # r'"
    by (simp add: Quote_def)
  with nn quoting.enc_inj [of "quote_mark # r" "quote_mark # r'" v v'] show ?thesis
    by (simp add: unquote_char_def)
qed

definition label_list :: "(string \<times> string) list \<Rightarrow> string" where
  "label_list ps = join '','' (map (\<lambda>(n, v). label_pair n v) ps) @ ''}''"

lemma label_list_Cons:
  "label_list ((n, v) # ps) = label_pair n v @ (if ps = [] then ''}'' else '','' @ label_list ps)"
  by (cases ps) (auto simp: label_list_def)

lemma label_list_inj:
  "ps \<noteq> [] \<Longrightarrow> qs \<noteq> [] \<Longrightarrow> \<forall>p \<in> set ps \<union> set qs. CHR ''='' \<notin> set (fst p) \<Longrightarrow> label_list ps = label_list qs \<Longrightarrow> ps = qs"
proof (induction ps arbitrary: qs)
  case (Cons p ps)
  obtain n v where p: "p = (n, v)" by fastforce
  obtain n' v' qs' where qs: "qs = (n', v') # qs'" using Cons.prems(2) by (cases qs) auto
  have "n = n' \<and> v = v' \<and> (if ps = [] then ''}'' else '','' @ label_list ps) = (if qs' = [] then ''}'' else '','' @ label_list qs')"
    using Cons.prems(3,4) by (intro label_pair_inj) (auto simp: p qs label_list_Cons)
  with Cons.IH [of qs'] Cons.prems(3) show ?case by (auto simp: p qs split: if_splits)
qed simp

text \<open>The order of strings is a linear order, so a set of names has one sorted list.\<close>

lemma str_less_eq_refl: "str_less_eq a a"
  by (induction a) auto

lemma str_less_eq_antisym: "str_less_eq a b \<Longrightarrow> str_less_eq b a \<Longrightarrow> a = b"
proof (induction a b rule: str_less_eq.induct)
  case (1 b)
  then show ?case by (cases b) simp_all
qed auto

lemma insert_string_mset [simp]: "mset (insert_string x ys) = add_mset x (mset ys)"
  by (induction ys) auto

lemma sort_strings_mset [simp]: "mset (sort_strings xs) = mset xs"
  by (induction xs) (auto simp: sort_strings_def)

lemma sorted_insert_string: "sorted_wrt str_less_eq ys \<Longrightarrow> sorted_wrt str_less_eq (insert_string x ys)"
proof (induction ys)
  case (Cons y ys)
  have "mset (insert_string x ys) = mset (x # ys)" by simp
  then have s: "set (insert_string x ys) = insert x (set ys)" by (metis list.simps(15) mset_eq_setD)
  from Cons str_less_eq_total [of x y] show ?case by (auto simp: s intro: str_less_eq_trans)
qed simp

lemma sorted_sort_strings: "sorted_wrt str_less_eq (sort_strings xs)"
  by (induction xs) (auto simp: sort_strings_def sorted_insert_string)

lemma sorted_strings_unique:
  "sorted_wrt str_less_eq xs \<Longrightarrow> sorted_wrt str_less_eq ys \<Longrightarrow> mset xs = mset ys \<Longrightarrow> xs = ys"
proof (induction xs arbitrary: ys)
  case (Cons x xs)
  then obtain y ys' where ys: "ys = y # ys'" by (cases ys) auto
  have "x \<in> set ys" "y \<in> set (x # xs)" using mset_eq_setD [OF Cons.prems(3)] ys by auto
  then have "x = y" using Cons.prems(1,2) ys str_less_eq_antisym str_less_eq_refl by auto
  with Cons ys show ?case by simp
qed simp

lemma sortedKeys_cong:
  assumes "go_map m" "go_map m'" "map_of m = map_of m'"
  shows "sortedKeys m = sortedKeys m'"
proof -
  have "set (map fst m) = set (map fst m')" using assms(3) by (metis dom_map_of_conv_image_fst set_map)
  with assms(1,2) have "mset (map fst m) = mset (map fst m')" by (metis set_eq_iff_mset_eq_distinct)
  then show ?thesis
    unfolding sortedKeys_def by (intro sorted_strings_unique sorted_sort_strings) simp
qed

lemma labelKey_list:
  "labelKey ls = (if ls = [] then [] else CHR ''{'' # label_list (map (\<lambda>n. (n, escapeLabel (map_get [] ls n))) (sortedKeys ls)))"
  by (simp add: labelKey_def label_list_def o_def)

lemma set_sortedKeys: "set (sortedKeys m) = fst ` set m"
  using mset_eq_setD [OF sort_strings_mset, of "map fst m"] by (simp add: sortedKeys_def)

text \<open>
  A series is identified by its labels. For maps of labels whose names have no equals sign, the text
  that names the series is the same exactly when the maps are equal, whatever their values contain and
  in whatever order they were built.
\<close>

theorem label_key_identifies:
  assumes "go_map ls" "go_map ls'" "\<forall>n \<in> fst ` set ls \<union> fst ` set ls'. CHR ''='' \<notin> set n"
  shows "labelKey ls = labelKey ls' \<longleftrightarrow> map_of ls = map_of ls'"
proof
  let ?ps = "\<lambda>ls. map (\<lambda>n. (n, escapeLabel (map_get [] ls n))) (sortedKeys ls)"
  have ne: "sortedKeys m = [] \<longleftrightarrow> m = []" for m :: labels
    using set_sortedKeys [of m] by (cases m) (auto simp: sortedKeys_def sort_strings_def)
  assume eq: "labelKey ls = labelKey ls'"
  show "map_of ls = map_of ls'"
  proof (cases "ls = []")
    case True
    with eq show ?thesis by (simp add: labelKey_list split: if_splits)
  next
    case False
    with eq have "ls' \<noteq> []" "label_list (?ps ls) = label_list (?ps ls')" by (auto simp: labelKey_list split: if_splits)
    moreover have "\<forall>p \<in> set (?ps ls) \<union> set (?ps ls'). CHR ''='' \<notin> set (fst p)"
    proof
      fix p assume "p \<in> set (?ps ls) \<union> set (?ps ls')"
      then have "fst p \<in> set (sortedKeys ls) \<union> set (sortedKeys ls')" by auto
      then have "fst p \<in> fst ` set ls \<union> fst ` set ls'" unfolding set_sortedKeys .
      with assms(3) show "CHR ''='' \<notin> set (fst p)" by blast
    qed
    ultimately have ps: "?ps ls = ?ps ls'" using False by (intro label_list_inj) (simp_all add: ne)
    then have keys: "sortedKeys ls = sortedKeys ls'" by (metis (mono_tags, lifting) fst_conv map_eq_conv map_idI map_map o_def)
    have "map_get [] ls n = map_get [] ls' n" if "n \<in> fst ` set ls" for n
      using that ps keys by (auto simp: escapeLabel_inj set_sortedKeys [symmetric])
    moreover have "fst ` set ls = fst ` set ls'" using keys by (metis set_sortedKeys)
    ultimately show ?thesis
      by (intro ext) (metis map_get_def map_of_eq_None_iff option.case_eq_if option.collapse option.simps(5))
  qed
next
  assume "map_of ls = map_of ls'"
  moreover from this have "ls = [] \<longleftrightarrow> ls' = []" by (metis map_of_eq_empty_iff)
  ultimately show "labelKey ls = labelKey ls'"
    using sortedKeys_cong [OF assms(1,2)] by (simp add: labelKey_def map_get_def)
qed

theorem label_key_identifies_witness:
  "labelKey [(''model'', ''m''), (''kind'', ''input'')] \<noteq> labelKey [(''model'', ''m''), (''kind'', ''output'')]"
proof -
  have "map_of [(''model'', ''m''), (''kind'', ''input'')] ''kind'' \<noteq> map_of [(''model'', ''m''), (''kind'', ''output'')] ''kind''"
    by simp
  then have "map_of [(''model'', ''m''), (''kind'', ''input'')] \<noteq> map_of [(''model'', ''m''), (''kind'', ''output'')]"
    by (rule contrapos_nn) (rule fun_cong)
  moreover have "\<forall>n \<in> fst ` set [(''model'', ''m''), (''kind'', ''input'')] \<union> fst ` set [(''model'', ''m''), (''kind'', ''output'')].
      CHR ''='' \<notin> set n" by simp
  ultimately show ?thesis
    using label_key_identifies [of "[(''model'', ''m''), (''kind'', ''input'')]" "[(''model'', ''m''), (''kind'', ''output'')]"]
    by simp
qed

text \<open>A label value is escaped twice: the text a scraper reads back is not the value that was given.\<close>

lemma label_escaped_twice:
  "labelKey [(''model'', [quote_mark])]
     = ''{model='' @ [quote_mark, backslash, backslash, backslash, quote_mark, quote_mark] @ ''}''"
  by code_simp

end
