(* ===== verification/Pricing_Check.thy ===== *)
theory Pricing_Check
  imports Translate Price_Estimate
begin

text \<open>
  Command \<open>pricingcheck\<close>: does every seeded rate still appear on the page it was read from?

  The decimal library's reader and printer of amounts are arguments, and so is the answer of a page to
  one request. The report is modelled by its two lists and its result; its wording on the terminal is not.

  The lemmas show that the verdict is exact: success means that every rate was seen as a number of its
  page, and a page that did not load is never taken for one that was checked.
\<close>

subsection \<open>Pages\<close>

definition pageLimit :: nat where "pageLimit = 8388608"

text \<open>None is the error of a page that did not load; the body is read up to its limit.\<close>

definition fetch :: "(string \<Rightarrow> HttpReply option) \<Rightarrow> string \<Rightarrow> string option" where
  "fetch get url =
     (case get url of
        None \<Rightarrow> None
      | Some reply \<Rightarrow>
        if hr_StatusCode reply \<noteq> 200 then None
        else if \<not> hr_Complete reply \<and> length (hr_Body reply) < pageLimit then None
        else Some (take pageLimit (hr_Body reply)))"

subsection \<open>Numbers of a page\<close>

text \<open>\<open>flush\<close>: the number in the buffer, if the text is one.\<close>

definition flush_number :: "(string \<Rightarrow> decimal option) \<Rightarrow> string \<Rightarrow> decimal list" where
  "flush_number num buf =
     (if buf = [] then []
      else let t = trim_suffix ''.'' buf
           in if t = [] \<or> t = ''.'' then [] else (case num t of None \<Rightarrow> [] | Some d \<Rightarrow> [d]))"

fun numbers_loop :: "(string \<Rightarrow> decimal option) \<Rightarrow> string \<Rightarrow> string \<Rightarrow> decimal list" where
  "numbers_loop num buf [] = flush_number num buf"
| "numbers_loop num buf (c # s) =
     (if is_digit c then numbers_loop num (buf @ [c]) s
      else if c = CHR ''.'' \<and> buf \<noteq> [] then numbers_loop num (buf @ [c]) s
      else if c = CHR '','' \<and> buf \<noteq> [] \<and> s \<noteq> [] \<and> is_digit (hd s) then numbers_loop num buf s
      else flush_number num buf @ numbers_loop num [] s)"

definition numbersIn :: "(string \<Rightarrow> decimal option) \<Rightarrow> string \<Rightarrow> decimal list" where
  "numbersIn num body = numbers_loop num [] body"

definition containsRate :: "(string \<Rightarrow> decimal option) \<Rightarrow> string \<Rightarrow> string \<Rightarrow> bool" where
  "containsRate num body rate =
     (case num rate of None \<Rightarrow> False | Some want \<Rightarrow> list_ex (\<lambda>n. n = want) (numbersIn num body))"

subsection \<open>The check\<close>

definition statusFound :: string where "statusFound = ''found''"
definition statusMissing :: string where "statusMissing = ''MISSING''"
definition statusUnreachable :: string where "statusUnreachable = ''UNREACHABLE''"

record finding =
  fi_model :: string
  fi_provider :: string
  fi_source :: string
  fi_kind :: kind
  fi_rate :: string
  fi_status :: string

definition judge :: "(string \<Rightarrow> decimal option) \<Rightarrow> (decimal \<Rightarrow> string) \<Rightarrow> string option \<Rightarrow> Row \<Rightarrow> finding" where
  "judge num dec page row =
     \<lparr>fi_model = r_Model row, fi_provider = r_Provider row, fi_source = r_SourceURL row, fi_kind = r_Kind row,
      fi_rate = dec (r_USDPerMTok row),
      fi_status = (case page of
          None \<Rightarrow> statusUnreachable
        | Some body \<Rightarrow> if containsRate num body (dec (r_USDPerMTok row)) then statusFound else statusMissing)\<rparr>"

text \<open>The loop over the rows: a page is fetched the first time a row names it.\<close>

fun check_rows :: "(string \<Rightarrow> decimal option) \<Rightarrow> (decimal \<Rightarrow> string) \<Rightarrow> (string \<Rightarrow> HttpReply option) \<Rightarrow> Row list
    \<Rightarrow> (string \<times> string option) list \<Rightarrow> finding list \<times> (string \<times> string option) list" where
  "check_rows num dec get [] pages = ([], pages)"
| "check_rows num dec get (row # rows) pages =
     (let url = r_SourceURL row;
          pages' = (case map_of pages url of None \<Rightarrow> AList.update url (fetch get url) pages | Some _ \<Rightarrow> pages);
          f = judge num dec (map_get None pages' url) row
      in case check_rows num dec get rows pages' of (fs, ps) \<Rightarrow> (f # fs, ps))"

text \<open>None is a report without complaints.\<close>

definition report :: "finding list \<Rightarrow> (finding list \<times> finding list) \<times> string option" where
  "report fs =
     (let missing = filter (\<lambda>f. fi_status f = statusMissing) fs;
          unreachable = filter (\<lambda>f. fi_status f = statusUnreachable) fs
      in ((missing, unreachable),
          if missing = [] \<and> unreachable = [] then None
          else Some (int_lit (int (length missing)) @ '' rates missing, '' @ int_lit (int (length unreachable)) @ '' unreachable'')))"

definition check_run :: "(string \<Rightarrow> decimal option) \<Rightarrow> (decimal \<Rightarrow> string) \<Rightarrow> (string \<Rightarrow> HttpReply option) \<Rightarrow> Table
    \<Rightarrow> (finding list \<times> finding list) \<times> string option" where
  "check_run num dec get t = report (fst (check_rows num dec get (Rows t) []))"

subsection \<open>The verdict is exact\<close>

lemma status_distinct [simp]:
  "statusFound \<noteq> statusMissing" "statusFound \<noteq> statusUnreachable" "statusMissing \<noteq> statusUnreachable"
  "statusMissing \<noteq> statusFound" "statusUnreachable \<noteq> statusFound" "statusUnreachable \<noteq> statusMissing"
  by (simp_all add: statusFound_def statusMissing_def statusUnreachable_def)

lemma check_rows_judges:
  "\<forall>url p. map_of pages url = Some p \<longrightarrow> p = fetch get url \<Longrightarrow>
   fst (check_rows num dec get rows pages) = map (\<lambda>row. judge num dec (fetch get (r_SourceURL row)) row) rows"
proof (induction rows arbitrary: pages)
  case (Cons row rows)
  define pages' where "pages' = (case map_of pages (r_SourceURL row) of
      None \<Rightarrow> AList.update (r_SourceURL row) (fetch get (r_SourceURL row)) pages | Some _ \<Rightarrow> pages)"
  have inv: "\<forall>url p. map_of pages' url = Some p \<longrightarrow> p = fetch get url"
    using Cons.prems by (auto simp: pages'_def update_conv' split: option.splits if_splits)
  have "map_get None pages' (r_SourceURL row) = fetch get (r_SourceURL row)"
    using Cons.prems by (auto simp: pages'_def map_get_def update_conv' split: option.splits)
  with Cons.IH [OF inv] show ?case
    by (simp add: Let_def pages'_def [symmetric] split: prod.splits) (metis fst_conv)
qed simp

text \<open>
  The price check does not lie. It succeeds exactly when, for every rate of the table, its source page
  answered 200 and one of the numbers on it equals the rate; a rate is reported missing only when its page
  loaded, and every rate whose page did not load is reported as unreachable.
\<close>

theorem price_check_exact:
  "(snd (check_run num dec get t) = None \<longleftrightarrow>
      list_all (\<lambda>row. \<exists>body want. fetch get (r_SourceURL row) = Some body \<and> num (dec (r_USDPerMTok row)) = Some want
        \<and> want \<in> set (numbersIn num body)) (Rows t))
   \<and> map fi_source (fst (fst (check_run num dec get t)))
       = map r_SourceURL (filter (\<lambda>row. \<exists>body. fetch get (r_SourceURL row) = Some body
           \<and> \<not> containsRate num body (dec (r_USDPerMTok row))) (Rows t))
   \<and> map fi_source (snd (fst (check_run num dec get t)))
       = map r_SourceURL (filter (\<lambda>row. fetch get (r_SourceURL row) = None) (Rows t))"
proof -
  let ?j = "\<lambda>row. judge num dec (fetch get (r_SourceURL row)) row"
  have fs: "fst (check_rows num dec get (Rows t) []) = map ?j (Rows t)" by (rule check_rows_judges) simp
  have m: "fi_status (?j row) = statusMissing \<longleftrightarrow> (\<exists>body. fetch get (r_SourceURL row) = Some body
      \<and> \<not> containsRate num body (dec (r_USDPerMTok row)))"
    and u: "fi_status (?j row) = statusUnreachable \<longleftrightarrow> fetch get (r_SourceURL row) = None"
    and s: "fi_source (?j row) = r_SourceURL row" for row
    by (auto simp: judge_def split: option.splits)
  have ok: "fi_status (?j row) \<noteq> statusMissing \<and> fi_status (?j row) \<noteq> statusUnreachable \<longleftrightarrow>
      (\<exists>body. fetch get (r_SourceURL row) = Some body \<and> containsRate num body (dec (r_USDPerMTok row)))" for row
    unfolding m u by (cases "fetch get (r_SourceURL row)") auto
  have "snd (check_run num dec get t) = None \<longleftrightarrow>
      (\<forall>row \<in> set (Rows t). fi_status (?j row) \<noteq> statusMissing \<and> fi_status (?j row) \<noteq> statusUnreachable)"
    by (auto simp: check_run_def report_def fs Let_def filter_map filter_empty_conv o_def)
  moreover have "containsRate num body rate \<longleftrightarrow> (\<exists>want. num rate = Some want \<and> want \<in> set (numbersIn num body))" for body rate
    by (auto simp: containsRate_def list_ex_iff split: option.splits)
  ultimately show ?thesis
    unfolding ok by (simp add: check_run_def report_def fs Let_def filter_map o_def m u s list_all_iff)
qed

text \<open>Grouping commas join a number, a sentence's full stop ends it, and a longer figure is a different one.\<close>

lemma numbers_read:
  "numbersIn (\<lambda>s. if s = ''1050000'' then Some 1050000 else if s = ''12.50'' then Some (25 / 2) else if s = ''100'' then Some 100 else None)
     ''1,050,000 for 12.50. or 100'' = [1050000, 25 / 2, 100]"
  by code_simp

end
