(* ===== verification/Spec2Isabelle.thy ===== *)
theory Spec2Isabelle
  imports Price_Estimate Usage_Buffer Boot Metrics Pricing_Check
begin

text \<open>
  \<^bold>\<open>Costlane\<close> is a gateway in front of OpenAI, Anthropic and Google: clients call it with virtual keys, it
  reserves the estimated cost of a request against the key's budget in Postgres, calls the provider,
  meters what came back, settles the reservation at the real cost and writes a usage record. This
  development is a model of its Go code under \<open>src/\<close> with the theorems that make it correct.

  \<^bold>\<open>The parts and their theories.\<close> Each theory opens with a summary of its own.

  \<^item> \<open>Prelude\<close>: instants, decimals and the database's \<open>numeric\<close>, Go's integers and strings, association
    lists as Go maps.
  \<^item> Pricing (\<open>internal/pricing\<close>). \<open>Price_Table\<close>: billing classes, the validated table, the cost of a request
    (\<open>kinds.go\<close>, \<open>table.go\<close>). \<open>Price_Estimate\<close>: the estimate, the guard band with IEEE doubles, price files and
    the snapshot (\<open>estimate.go\<close>, \<open>guard.go\<close>, \<open>yaml.go\<close>, \<open>snapshot.go\<close>). \<open>Normalise\<close>: usage of the three
    providers in one form (\<open>normalise.go\<close>). \<open>Pricing_Check\<close>: the command that compares the seeded rates with
    their pages (\<open>cmd/pricingcheck\<close>).
  \<^item> Store (\<open>internal/store\<close>). \<open>Store\<close>: the tables with their constraints, keys and usage records (\<open>keys.go\<close>,
    \<open>usage.go\<close>, the migrations). \<open>Budget_Store\<close>: reserve, settle, reap, reconcile (\<open>budget.go\<close>, \<open>reconcile.go\<close>).
    \<open>Queries\<close>: reports and the paginated listing (\<open>queries.go\<close>). \<open>Retention\<close>: payloads and retention
    (\<open>usage.go\<close>). Each transaction is one atomic step; the faults of the connection are its arguments.
  \<^item> \<open>Usage_Buffer\<close> (\<open>internal/usage\<close>): the asynchronous writer as a step relation over callers, writer loop,
    close and cancellation.
  \<^item> Documents. \<open>Json\<close> and \<open>Json_Print\<close>: Go's JSON reader, decoder and printer. \<open>Codec\<close>: base64, RFC 3339, the
    calendar, integers.
  \<^item> Providers (\<open>internal/provider\<close>). \<open>Router\<close>: the provider interface, routing, the models endpoint.
    \<open>Thinking\<close>: the table of reasoning efforts. \<open>Translate\<close> and \<open>Dialects\<close>: request and response
    translation and the three adapters. \<open>Stream_Translate\<close>, \<open>Stream_Dialects\<close>: the stream translators.
  \<^item> Proxy (\<open>internal/proxy\<close>). \<open>Sse\<close>: framing. \<open>Pump\<close>: the relay with its disconnect policies. \<open>Handler\<close>: the
    request handler from credential to usage record. \<open>Stream_Relay\<close> and \<open>Gateway\<close>: the pump on the real
    translators and the handler on the real adapters.
  \<^item> API (\<open>internal/api\<close>, \<open>internal/auth\<close>). \<open>Api\<close>: responses and errors. \<open>Credentials\<close>: keys, the master key,
    scopes, redaction. \<open>Reports\<close>: \<open>usage.go\<close>. \<open>Admin\<close>: \<open>keys.go\<close>. \<open>Server\<close>: routes, health, operations, and the
    whole server as a step relation.
  \<^item> Process. \<open>Config\<close>: the environment read and validated (\<open>internal/config\<close>). \<open>Boot\<close>: the reaper
    (\<open>internal/budget\<close>), the retention loop, the router and the options \<open>cmd/costlane\<close> wires. \<open>Metrics\<close>: the
    registry and the gateway's metrics (\<open>internal/obs\<close>).

  \<^bold>\<open>How the code corresponds.\<close> A struct is a record, an error a value of a sum or an option, a Go map an
  association list with distinct keys, a loop a recursive function; 64-bit arithmetic wraps where it can
  matter (\<open>i64\<close>, words in \<open>Metrics\<close>) and doubles are rationals rounded to nearest even. A definition has
  the name of the function it models wherever that name is free. What the code does not own is an argument:
  the hash function, the decimal library's division, parser and printer, the YAML decoder, the text of
  identifiers, provider answers, random bytes, clocks, database faults, what other transactions do between
  two statements, which rows a \<open>LIMIT\<close> without an order picks.

  \<^bold>\<open>What is shown.\<close>

  \<^item> The ledger: balances equal the log after any history, overspend is bounded by recorded overshoot, a
    settlement counts once and is never refused, a reservation is granted only within the limit, errors
    leave no trace, and the reaper drains any backlog (\<open>Budget_Store\<close>, \<open>Boot\<close>).
  \<^item> A request: the provider is called at most once and only under a reservation, every reservation is settled
    exactly once at the price the client and the record are told, and a request is a sequence of the
    store's own transactions, whatever the faults and the other requests (\<open>Handler\<close>); so the whole server
    never makes its reconciliation endpoint report drift (\<open>Server\<close>).
  \<^item> Streams: frames preserve the bytes, relaying is faithful, draining learns the usage, translated
    streams lose no character, number their tool calls and end once (\<open>Sse\<close>, \<open>Pump\<close>, \<open>Stream_Dialects\<close>,
    \<open>Stream_Relay\<close>).
  \<^item> Translation: unsupported parameters are refused by name, messages are kept, the ceiling sent is the one
    reserved for (\<open>Translate\<close>, \<open>Dialects\<close>, \<open>Gateway\<close>).
  \<^item> Money: costs are exact sums, unknown is never free, the guard band keeps a reservation out of a cheaper
    tier, usage of any response can be priced, reloading never breaks pricing.
  \<^item> The API: no administration without the master key, a virtual key sees only itself, a credential lives
    from its creation to its revocation, updates patch the columns they name, reports add up, paging is
    complete, hashes stay inside.
  \<^item> The process: an accepted configuration is consistent and reaches the handler unchanged, models are
    routed exactly when priced and configured, retention removes nothing but expired rows, the metrics are
    the sum of their calls, and no usage record vanishes between request and table.

  Interfaces are locales interpreted on the model: invariants of step relations, codes for characters and the
  other contracts that several components share.

  \<^bold>\<open>Bounds.\<close> No property is bounded by fuel. The JSON reader recurses with three units per byte plus
  three, the duration parser with one per byte, and each consumes input at every step; loops over attempts
  carry the code's own number of attempts; the listing of requests is followed for more pages than there
  are rows. Loops on timers are functions of the wake-ups they get.

  \<^bold>\<open>Not modelled.\<close> The connection pools and the migration runner (\<open>store.go\<close>: calls of the driver and of the
  migration library); the process itself in \<open>cmd/costlane\<close> (signals, listeners, the order of shutdown, the
  URL parser that finds the database password); the counting response wrapper of \<open>proxy/middleware.go\<close>;
  the upstream HTTP client's connection settings; logging; the wording of reports on the terminal; the
  fake provider and the test databases, which only serve tests. Timings are not observed, only their
  order. The text of a float or a duration in a log line or a metric is an argument.
\<close>

end
